(* ===== verification/Prelude.thy ===== *)
theory Prelude
  imports Main "HOL-Library.Word"
begin

text \<open>
  Shared vocabulary of the development: the Rust integer types at their width, the
  saturating and checked arithmetic of the standard library, results, fixed-capacity
  arrays, and the lemma collections the component theories use. Two interfaces that
  several components provide are stated here as locales: a validated value in
  fixed-capacity storage (\<open>bounded_store\<close>) and a reconnect back-off
  (\<open>bounded_backoff\<close>, with its extension \<open>paced_backoff\<close>).
\<close>

unbundle bit_operations_syntax

section \<open>Types\<close>

type_synonym u8 = "8 word"
type_synonym u16 = "16 word"
type_synonym u32 = "32 word"
type_synonym u64 = "64 word"

text \<open>Signed integers are words read through \<^const>\<open>sint\<close>.\<close>

type_synonym i8 = "8 word"
type_synonym i16 = "16 word"
type_synonym i32 = "32 word"
type_synonym i64 = "64 word"

text \<open>
  A slice or array is a list; \<open>usize\<close> counts its elements and is a \<^typ>\<open>nat\<close>. A
  string slice is the list of its UTF-8 bytes.
\<close>

type_synonym str = "u8 list"

type_synonym ('a, 'e) result = "'e + 'a"

abbreviation Ok :: "'a \<Rightarrow> ('a, 'e) result" where
  "Ok \<equiv> Inr"

abbreviation Err :: "'e \<Rightarrow> ('a, 'e) result" where
  "Err \<equiv> Inl"

named_theorems rust_int \<open>unsigned readings of the machine-integer operations\<close>

section \<open>Definitions\<close>

subsection \<open>Integer arithmetic of the standard library\<close>

definition umax :: "'a::len word" where
  "umax = - 1"

definition saturating_add :: "'a::len word \<Rightarrow> 'a word \<Rightarrow> 'a word" where
  "saturating_add a b = (if unat a + unat b < 2 ^ LENGTH('a) then a + b else umax)"

definition saturating_sub :: "'a::len word \<Rightarrow> 'a word \<Rightarrow> 'a word" where
  "saturating_sub a b = (if a < b then 0 else a - b)"

definition saturating_mul :: "'a::len word \<Rightarrow> 'a word \<Rightarrow> 'a word" where
  "saturating_mul a b = (if unat a * unat b < 2 ^ LENGTH('a) then a * b else umax)"

text \<open>\<open>checked_shl\<close> fails only when the shift amount reaches the width.\<close>

definition checked_shl :: "'a::len word \<Rightarrow> nat \<Rightarrow> 'a word option" where
  "checked_shl a n = (if n < LENGTH('a) then Some (push_bit n a) else None)"

subsection \<open>Options and results\<close>

definition ok_or :: "'e \<Rightarrow> 'a option \<Rightarrow> ('a, 'e) result" where
  "ok_or e x = (case x of None \<Rightarrow> Err e | Some a \<Rightarrow> Ok a)"

definition map_err :: "('e \<Rightarrow> 'f) \<Rightarrow> ('a, 'e) result \<Rightarrow> ('a, 'f) result" where
  "map_err f r = (case r of Inl e \<Rightarrow> Err (f e) | Inr a \<Rightarrow> Ok a)"

definition unwrap_or :: "'a \<Rightarrow> 'a option \<Rightarrow> 'a" where
  "unwrap_or d x = (case x of None \<Rightarrow> d | Some a \<Rightarrow> a)"

definition is_ok :: "('a, 'e) result \<Rightarrow> bool" where
  "is_ok r = (case r of Inl _ \<Rightarrow> False | Inr _ \<Rightarrow> True)"

text \<open>\<open>unwrap\<close> and \<open>unwrap_err\<close>, with \<^const>\<open>None\<close> for a panic.\<close>

definition unwrap :: "('a, 'e) result \<Rightarrow> 'a option" where
  "unwrap r = (case r of Inl _ \<Rightarrow> None | Inr a \<Rightarrow> Some a)"

definition unwrap_err :: "('a, 'e) result \<Rightarrow> 'e option" where
  "unwrap_err r = (case r of Inl e \<Rightarrow> Some e | Inr _ \<Rightarrow> None)"

subsection \<open>Fixed-capacity arrays\<close>

text \<open>
  \<open>array[..value.len()].copy_from_slice(value)\<close>. The callers check
  \<open>value.len()\<close> against the capacity first, so the slice is in range.
\<close>

definition copy_prefix :: "'a list \<Rightarrow> 'a list \<Rightarrow> 'a list" where
  "copy_prefix array v = v @ drop (length v) array"

subsection \<open>Sequences of delays\<close>

text \<open>
  The delays a calculator issues for a sequence of entropy values without a reset in
  between, and the state it is in afterwards.
\<close>

primrec delays :: "(u32 \<Rightarrow> 's \<Rightarrow> u32 \<times> 's) \<Rightarrow> u32 list \<Rightarrow> 's \<Rightarrow> u32 list" where
  "delays step [] s = []"
| "delays step (r # rs) s = fst (step r s) # delays step rs (snd (step r s))"

primrec advance :: "(u32 \<Rightarrow> 's \<Rightarrow> u32 \<times> 's) \<Rightarrow> u32 list \<Rightarrow> 's \<Rightarrow> 's" where
  "advance step [] s = s"
| "advance step (r # rs) s = advance step rs (snd (step r s))"

section \<open>Lemmas\<close>

subsection \<open>Results\<close>

lemma ok_or_simps [simp]: "ok_or e None = Err e" "ok_or e (Some a) = Ok a"
  by (simp_all add: ok_or_def)

lemma ok_or_eq_Ok [simp]: "ok_or e x = Inr a \<longleftrightarrow> x = Some a"
  by (cases x) simp_all

lemma ok_or_eq_Err [simp]: "ok_or e x = Inl f \<longleftrightarrow> x = None \<and> f = e"
  by (cases x) auto

lemma map_err_simps [simp]: "map_err f (Inl e) = Err (f e)" "map_err f (Inr a) = Ok a"
  by (simp_all add: map_err_def)

lemma map_err_eq_Ok [simp]: "map_err f r = Inr a \<longleftrightarrow> r = Inr a"
  by (cases r) simp_all

lemma map_err_eq_Err: "map_err f r = Inl e \<longleftrightarrow> (\<exists>e'. r = Inl e' \<and> e = f e')"
  by (cases r) auto

lemma unwrap_or_simps [simp]: "unwrap_or d None = d" "unwrap_or d (Some a) = a"
  by (simp_all add: unwrap_or_def)

lemma is_ok_simps [simp]: "is_ok (Inr a)" "\<not> is_ok (Inl e)"
  by (simp_all add: is_ok_def)

lemma is_ok_iff: "is_ok r \<longleftrightarrow> (\<exists>a. r = Inr a)"
  by (cases r) simp_all

lemma unwrap_simps [simp]: "unwrap (Inr a) = Some a" "unwrap (Inl e) = None"
    "unwrap_err (Inl e) = Some e" "unwrap_err (Inr a) = None"
  by (simp_all add: unwrap_def unwrap_err_def)

lemma unwrap_eq_Some [simp]: "unwrap r = Some a \<longleftrightarrow> r = Inr a" "unwrap_err r = Some e \<longleftrightarrow> r = Inl e"
  by (cases r; simp)+

subsection \<open>Words\<close>

lemma unat_umax [rust_int]: "unat (umax :: 'a::len word) = 2 ^ LENGTH('a) - 1"
  by (simp add: umax_def unsigned_minus_1_eq_mask mask_eq_exp_minus_1)

lemma unat_saturating_add [rust_int]:
  "unat (saturating_add a b) = min (unat a + unat b) (2 ^ LENGTH('a) - 1)"
  for a b :: "'a::len word"
  by (auto simp: saturating_add_def unat_umax unat_word_ariths min_def)

lemma unat_saturating_sub [rust_int]:
  "unat (saturating_sub a b) = unat a - unat b"
  for a b :: "'a::len word"
  by (auto simp: saturating_sub_def unat_sub_if_size word_less_nat_alt word_size)

lemma unat_saturating_mul [rust_int]:
  "unat (saturating_mul a b) = min (unat a * unat b) (2 ^ LENGTH('a) - 1)"
  for a b :: "'a::len word"
proof (cases "unat a * unat b < 2 ^ LENGTH('a)")
  case True
  then show ?thesis
    by (simp add: saturating_mul_def unat_word_ariths)
next
  case False
  then have "2 ^ LENGTH('a) - 1 \<le> unat a * unat b"
    by linarith
  with False show ?thesis
    by (simp add: saturating_mul_def unat_umax)
qed

text \<open>For evaluation, in binary.\<close>

lemma saturating_add_code [code]:
  "saturating_add a b = (let s = uint a + uint b in if s < 2 ^ LENGTH('a) then word_of_int s else umax)"
  for a b :: "'a::len word"
proof -
  have "unat a + unat b < 2 ^ LENGTH('a) \<longleftrightarrow> int (unat a + unat b) < int (2 ^ LENGTH('a))"
    by (simp only: of_nat_less_iff)
  also have "\<dots> \<longleftrightarrow> uint a + uint b < 2 ^ LENGTH('a)"
    by simp
  finally show ?thesis
    by (simp only: saturating_add_def Let_def) simp
qed

lemma saturating_mul_code [code]:
  "saturating_mul a b = (let s = uint a * uint b in if s < 2 ^ LENGTH('a) then word_of_int s else umax)"
  for a b :: "'a::len word"
proof -
  have "unat a * unat b < 2 ^ LENGTH('a) \<longleftrightarrow> int (unat a * unat b) < int (2 ^ LENGTH('a))"
    by (simp only: of_nat_less_iff)
  also have "\<dots> \<longleftrightarrow> uint a * uint b < 2 ^ LENGTH('a)"
    by simp
  finally show ?thesis
    by (simp only: saturating_mul_def Let_def) simp
qed

lemma unat_min [rust_int]: "unat (min a b) = min (unat a) (unat b)"
  for a b :: "'a::len word"
  by (simp add: min_def word_le_nat_alt)

lemma unat_max [rust_int]: "unat (max a b) = max (unat a) (unat b)"
  for a b :: "'a::len word"
  by (simp add: max_def word_le_nat_alt)

lemma unat_push_bit_mod: "unat (push_bit n a) = (unat a * 2 ^ n) mod 2 ^ LENGTH('a)"
  for a :: "'a::len word"
  unfolding unsigned_push_bit_eq by (simp only: push_bit_eq_mult take_bit_eq_mod)

lemma unat_of_nat_id: "n < 2 ^ LENGTH('a) \<Longrightarrow> unat (of_nat n :: 'a::len word) = n"
  by (simp add: unat_of_nat)

lemma saturating_add_mono: "a \<le> saturating_add a b"
  for a b :: "'a::len word"
proof -
  have "unat a < 2 ^ LENGTH('a)"
    by (rule unsigned_less)
  then have "unat a \<le> 2 ^ LENGTH('a) - 1"
    by linarith
  then show ?thesis
    by (simp add: word_le_nat_alt rust_int)
qed

text \<open>Scaling before or after cutting off at a bound comes to the same after a final cut.\<close>

lemma min_scale: "1 \<le> c \<Longrightarrow> min (min a m * c) m = min (a * c) m" for a c m :: nat
proof (cases "a \<le> m")
  case False
  assume "1 \<le> c"
  with False have "m \<le> m * c" "m \<le> a * c"
    by (simp_all add: order_trans [of m a "a * c"])
  with False show ?thesis by simp
qed simp

lemma length_delays [simp]: "length (delays step rs s) = length rs"
  by (induction rs arbitrary: s) simp_all

subsection \<open>Arrays\<close>

lemma length_copy_prefix [simp]:
  "length v \<le> length array \<Longrightarrow> length (copy_prefix array v) = length array"
  by (simp add: copy_prefix_def)

lemma take_copy_prefix [simp]: "take (length v) (copy_prefix array v) = v"
  by (simp add: copy_prefix_def)

lemma drop_copy_prefix [simp]: "drop (length v) (copy_prefix array v) = drop (length v) array"
  by (simp add: copy_prefix_def)

lemma copy_prefix_inj:
  "\<lbrakk>copy_prefix a v = copy_prefix a w; length v = length w\<rbrakk> \<Longrightarrow> v = w"
  by (simp add: copy_prefix_def)

section \<open>Interfaces\<close>

subsection \<open>A validated value in fixed-capacity storage\<close>

text \<open>
  The SDK keeps text, names and address lists as an array of fixed capacity and a length.
  Among the inputs of the constructor's type (\<open>typed\<close>: the UTF-8 byte lists for a
  string slice, every list for a byte slice) the provider promises that the constructor
  accepts exactly the values its check admits, that no admitted value exceeds the capacity,
  and that the accessors return the value given to the constructor.
\<close>

definition typed_value ::
  "nat \<Rightarrow> ('e list \<Rightarrow> ('b, 'err) result) \<Rightarrow> ('b \<Rightarrow> 'e list) \<Rightarrow> ('b \<Rightarrow> nat) \<Rightarrow> 'e list \<Rightarrow> bool" where
  "typed_value capacity new_value contents stored_len v \<longleftrightarrow>
     (\<forall>b. new_value v = Inr b \<longrightarrow>
        contents b = v \<and> stored_len b = length v \<and> length v \<le> capacity \<and> new_value (contents b) = Inr b)
     \<and> (capacity < length v \<longrightarrow> \<not> is_ok (new_value v))"

locale bounded_store =
  fixes capacity :: nat
    and typed :: "'e list \<Rightarrow> bool"
    and accepts :: "'e list \<Rightarrow> bool"
    and new_value :: "'e list \<Rightarrow> ('b, 'err) result"
    and contents :: "'b \<Rightarrow> 'e list"
    and stored_len :: "'b \<Rightarrow> nat"
  assumes new_accepts: "is_ok (new_value v) \<longleftrightarrow> accepts v"
    and accepts_fits: "accepts v \<Longrightarrow> length v \<le> capacity"
    and contents_new: "typed v \<Longrightarrow> new_value v = Inr b \<Longrightarrow> contents b = v"
    and len_new: "new_value v = Inr b \<Longrightarrow> stored_len b = length v"
begin

lemma new_ok:
  "typed v \<Longrightarrow> accepts v \<Longrightarrow>
     \<exists>b. new_value v = Inr b \<and> contents b = v \<and> stored_len b = length v \<and> length v \<le> capacity"
  using new_accepts [of v] accepts_fits [of v] by (auto simp: is_ok_iff contents_new len_new)

lemma stored_len_bound: "new_value v = Inr b \<Longrightarrow> stored_len b \<le> capacity"
  using accepts_fits [of v] len_new [of v b] new_accepts [of v] by (simp add: is_ok_iff)

lemma new_inj: "\<lbrakk>typed v; typed w; new_value v = Inr b; new_value w = Inr b\<rbrakk> \<Longrightarrow> v = w"
  using contents_new by metis

lemma new_contents: "typed v \<Longrightarrow> new_value v = Inr b \<Longrightarrow> new_value (contents b) = Inr b"
  by (simp add: contents_new)

lemma value_typed: "typed v \<Longrightarrow> typed_value capacity new_value contents stored_len v"
  using contents_new [of v] len_new [of v] accepts_fits [of v] new_accepts [of v]
  by (auto simp: typed_value_def is_ok_iff)

lemma rejects_too_long: "capacity < length v \<Longrightarrow> \<exists>e. new_value v = Inl e"
  using accepts_fits [of v] new_accepts [of v] by (cases "new_value v") auto

end

subsection \<open>Reconnect back-off\<close>

text \<open>
  Both radios retry with a delay calculator that is advanced by \<open>next_delay_ms\<close> and
  rewound by \<open>reset\<close> after a success. Whatever the entropy, every delay is at most the
  policy's limit, and the number of delays since the last reset is counted up to
  \<open>ceiling\<close>.
\<close>

locale bounded_backoff =
  fixes invar :: "'s \<Rightarrow> bool"
    and limit :: "'s \<Rightarrow> nat"
    and attempts :: "'s \<Rightarrow> nat"
    and ceiling :: nat
    and next_delay :: "u32 \<Rightarrow> 's \<Rightarrow> u32 \<times> 's"
    and reset :: "'s \<Rightarrow> 's"
  assumes delay_le_limit: "invar s \<Longrightarrow> unat (fst (next_delay r s)) \<le> limit s"
    and invar_next: "invar s \<Longrightarrow> invar (snd (next_delay r s))"
    and limit_next: "limit (snd (next_delay r s)) = limit s"
    and attempts_next: "attempts (snd (next_delay r s)) = min (Suc (attempts s)) ceiling"
    and invar_reset: "invar s \<Longrightarrow> invar (reset s)"
    and limit_reset: "limit (reset s) = limit s"
    and attempts_reset: "attempts (reset s) = 0"
    and reset_next: "reset (snd (next_delay r s)) = reset s"
begin

lemma advance_invar: "invar s \<Longrightarrow> invar (advance next_delay rs s)"
  by (induction rs arbitrary: s) (simp_all add: invar_next)

lemma advance_limit: "limit (advance next_delay rs s) = limit s"
  by (induction rs arbitrary: s) (simp_all add: limit_next)

lemma advance_reset: "reset (advance next_delay rs s) = reset s"
  by (induction rs arbitrary: s) (simp_all add: reset_next)

lemma advance_attempts:
  "attempts s \<le> ceiling \<Longrightarrow> attempts (advance next_delay rs s) = min (attempts s + length rs) ceiling"
  by (induction rs arbitrary: s) (auto simp: attempts_next)

lemma delays_bounded: "invar s \<Longrightarrow> d \<in> set (delays next_delay rs s) \<Longrightarrow> unat d \<le> limit s"
proof (induction rs arbitrary: s)
  case (Cons r rs)
  then show ?case
    using delay_le_limit [of s r] invar_next [of s r] limit_next [of r s] by fastforce
qed simp

lemma total_delay_bounded: "invar s \<Longrightarrow> sum_list (map unat (delays next_delay rs s)) \<le> length rs * limit s"
proof (induction rs arbitrary: s)
  case (Cons r rs)
  have "sum_list (map unat (delays next_delay rs (snd (next_delay r s)))) \<le> length rs * limit s"
    using Cons.IH [of "snd (next_delay r s)"] Cons.prems by (simp add: invar_next limit_next)
  then show ?case
    using delay_le_limit [OF Cons.prems, of r] by simp
qed simp

lemma replay_after_reset: "delays next_delay rs (reset (advance next_delay qs s)) = delays next_delay rs (reset s)"
  by (simp add: advance_reset)

end

text \<open>
  A paced back-off also promises a lower bound: no retry comes sooner than the policy's
  floor, however often it is repeated.
\<close>

locale paced_backoff = bounded_backoff +
  fixes floor :: "'a \<Rightarrow> nat"
  assumes floor_pos: "invar s \<Longrightarrow> 0 < floor s"
    and floor_le_delay: "invar s \<Longrightarrow> floor s \<le> unat (fst (next_delay r s))"
    and floor_next: "floor (snd (next_delay r s)) = floor s"
begin

lemma delays_paced: "invar s \<Longrightarrow> d \<in> set (delays next_delay rs s) \<Longrightarrow> floor s \<le> unat d"
proof (induction rs arbitrary: s)
  case (Cons r rs)
  then show ?case
    using floor_le_delay [of s r] invar_next [of s r] floor_next [of r s] by fastforce
qed simp

lemma total_delay_paced: "invar s \<Longrightarrow> length rs * floor s \<le> sum_list (map unat (delays next_delay rs s))"
proof (induction rs arbitrary: s)
  case (Cons r rs)
  have "length rs * floor s \<le> sum_list (map unat (delays next_delay rs (snd (next_delay r s))))"
    using Cons.IH [of "snd (next_delay r s)"] Cons.prems by (simp add: invar_next floor_next)
  then show ?case
    using floor_le_delay [OF Cons.prems, of r] by simp
qed simp

end

end
