(* ===== verification/Rust_Str.thy ===== *)
theory Rust_Str
  imports Prelude
begin

text \<open>
  The string operations of the Rust standard library the SDK uses: UTF-8 validation and
  decoding, ASCII classification, splitting, prefixes and suffixes, decimal parsing and
  hexadecimal formatting. A string slice is the list of its bytes and carries the
  invariant \<open>utf8_valid\<close>, which is a hypothesis wherever a result depends on it.
\<close>

section \<open>Definitions\<close>

text \<open>Byte literals, from Isabelle's character literals.\<close>

definition lit :: "string \<Rightarrow> str" where
  "lit s = map of_char s"

subsection \<open>UTF-8\<close>

definition is_continuation :: "u8 \<Rightarrow> bool" where
  "is_continuation b \<longleftrightarrow> 0x80 \<le> b \<and> b \<le> 0xBF"

text \<open>The second byte of a three-byte sequence excludes overlong forms and surrogates.\<close>

definition second_of_three :: "u8 \<Rightarrow> u8 \<Rightarrow> bool" where
  "second_of_three b0 b1 \<longleftrightarrow>
     (if b0 = 0xE0 then 0xA0 \<le> b1 \<and> b1 \<le> 0xBF
      else if b0 = 0xED then 0x80 \<le> b1 \<and> b1 \<le> 0x9F
      else is_continuation b1)"

text \<open>The second byte of a four-byte sequence excludes overlong forms and values over 10FFFF.\<close>

definition second_of_four :: "u8 \<Rightarrow> u8 \<Rightarrow> bool" where
  "second_of_four b0 b1 \<longleftrightarrow>
     (if b0 = 0xF0 then 0x90 \<le> b1 \<and> b1 \<le> 0xBF
      else if b0 = 0xF4 then 0x80 \<le> b1 \<and> b1 \<le> 0x8F
      else is_continuation b1)"

text \<open>The rest of a sequence after its leading byte: the code point and the bytes after it.\<close>

fun tail_two :: "u8 \<Rightarrow> u8 list \<Rightarrow> (nat \<times> u8 list) option" where
  "tail_two b0 (b1 # rest) =
     (if is_continuation b1
      then Some ((unat b0 - 0xC0) * 64 + (unat b1 - 0x80), rest)
      else None)"
| "tail_two b0 _ = None"

fun tail_three :: "u8 \<Rightarrow> u8 list \<Rightarrow> (nat \<times> u8 list) option" where
  "tail_three b0 (b1 # b2 # rest) =
     (if second_of_three b0 b1 \<and> is_continuation b2
      then Some ((unat b0 - 0xE0) * 4096 + (unat b1 - 0x80) * 64 + (unat b2 - 0x80), rest)
      else None)"
| "tail_three b0 _ = None"

fun tail_four :: "u8 \<Rightarrow> u8 list \<Rightarrow> (nat \<times> u8 list) option" where
  "tail_four b0 (b1 # b2 # b3 # rest) =
     (if second_of_four b0 b1 \<and> is_continuation b2 \<and> is_continuation b3
      then Some ((unat b0 - 0xF0) * 262144 + (unat b1 - 0x80) * 4096
                 + (unat b2 - 0x80) * 64 + (unat b3 - 0x80), rest)
      else None)"
| "tail_four b0 _ = None"

text \<open>The first code point of a byte list and the bytes after it.\<close>

fun next_char :: "u8 list \<Rightarrow> (nat \<times> u8 list) option" where
  "next_char [] = None"
| "next_char (b0 # rest) =
     (if b0 < 0x80 then Some (unat b0, rest)
      else if 0xC2 \<le> b0 \<and> b0 \<le> 0xDF then tail_two b0 rest
      else if 0xE0 \<le> b0 \<and> b0 \<le> 0xEF then tail_three b0 rest
      else if 0xF0 \<le> b0 \<and> b0 \<le> 0xF4 then tail_four b0 rest
      else None)"

lemma tail_two_shorter:
  "tail_two b0 bs = Some (c, rest) \<Longrightarrow> length rest \<le> length bs"
  by (cases "(b0, bs)" rule: tail_two.cases) (auto split: if_splits)

lemma tail_three_shorter:
  "tail_three b0 bs = Some (c, rest) \<Longrightarrow> length rest \<le> length bs"
  by (cases "(b0, bs)" rule: tail_three.cases) (auto split: if_splits)

lemma tail_four_shorter:
  "tail_four b0 bs = Some (c, rest) \<Longrightarrow> length rest \<le> length bs"
  by (cases "(b0, bs)" rule: tail_four.cases) (auto split: if_splits)

lemmas tail_shorter = tail_two_shorter tail_three_shorter tail_four_shorter

lemma next_char_shorter: "next_char bs = Some (c, rest) \<Longrightarrow> length rest < length bs"
  by (cases bs) (auto simp: less_Suc_eq_le tail_shorter split: if_splits)

text \<open>\<open>str::chars\<close>, with \<^const>\<open>None\<close> for bytes that are not UTF-8.\<close>

function chars :: "u8 list \<Rightarrow> nat list option" where
  "chars bs =
     (if bs = [] then Some []
      else case next_char bs of
             None \<Rightarrow> None
           | Some (c, rest) \<Rightarrow> map_option ((#) c) (chars rest))"
  by pat_completeness auto
termination
  by (relation "measure length") (auto dest: next_char_shorter)

declare chars.simps [simp del]

definition utf8_valid :: "u8 list \<Rightarrow> bool" where
  "utf8_valid bs \<longleftrightarrow> chars bs \<noteq> None"

text \<open>\<open>str::from_utf8\<close> with the error discarded.\<close>

definition from_utf8 :: "u8 list \<Rightarrow> str option" where
  "from_utf8 bs = (if utf8_valid bs then Some bs else None)"

subsection \<open>ASCII classification\<close>

definition is_ascii_digit :: "u8 \<Rightarrow> bool" where
  "is_ascii_digit b \<longleftrightarrow> 0x30 \<le> b \<and> b \<le> 0x39"

definition is_ascii_upper :: "u8 \<Rightarrow> bool" where
  "is_ascii_upper b \<longleftrightarrow> 0x41 \<le> b \<and> b \<le> 0x5A"

definition is_ascii_lower :: "u8 \<Rightarrow> bool" where
  "is_ascii_lower b \<longleftrightarrow> 0x61 \<le> b \<and> b \<le> 0x7A"

definition is_ascii_alphanumeric :: "u8 \<Rightarrow> bool" where
  "is_ascii_alphanumeric b \<longleftrightarrow> is_ascii_digit b \<or> is_ascii_upper b \<or> is_ascii_lower b"

definition is_ascii_hexdigit :: "u8 \<Rightarrow> bool" where
  "is_ascii_hexdigit b \<longleftrightarrow>
     is_ascii_digit b \<or> (0x41 \<le> b \<and> b \<le> 0x46) \<or> (0x61 \<le> b \<and> b \<le> 0x66)"

subsection \<open>Searching and splitting at an ASCII byte\<close>

definition starts_with_byte :: "u8 \<Rightarrow> str \<Rightarrow> bool" where
  "starts_with_byte c s \<longleftrightarrow> (case s of [] \<Rightarrow> False | x # _ \<Rightarrow> x = c)"

definition ends_with_byte :: "u8 \<Rightarrow> str \<Rightarrow> bool" where
  "ends_with_byte c s \<longleftrightarrow> s \<noteq> [] \<and> last s = c"

text \<open>\<open>str::split\<close>: the empty string has one empty piece.\<close>

fun split_on :: "'a \<Rightarrow> 'a list \<Rightarrow> 'a list list" where
  "split_on c [] = [[]]"
| "split_on c (x # xs) =
     (if x = c then [] # split_on c xs
      else case split_on c xs of
             [] \<Rightarrow> [[x]]
           | p # ps \<Rightarrow> (x # p) # ps)"

fun join_on :: "'a \<Rightarrow> 'a list list \<Rightarrow> 'a list" where
  "join_on c [] = []"
| "join_on c [p] = p"
| "join_on c (p # q # ps) = p @ c # join_on c (q # ps)"

subsection \<open>Hexadecimal digits\<close>

definition hex_lower :: "u8 \<Rightarrow> u8" where
  "hex_lower n = (if n < 10 then 0x30 + n else 0x61 + (n - 10))"

definition hex_upper :: "u8 \<Rightarrow> u8" where
  "hex_upper n = (if n < 10 then 0x30 + n else 0x41 + (n - 10))"

text \<open>The formats \<open>{:02x}\<close> and \<open>{:02X}\<close> of a byte.\<close>

definition fmt_02x :: "u8 \<Rightarrow> str" where
  "fmt_02x b = [hex_lower (drop_bit 4 b), hex_lower (b AND 0x0F)]"

definition fmt_02X :: "u8 \<Rightarrow> str" where
  "fmt_02X b = [hex_upper (drop_bit 4 b), hex_upper (b AND 0x0F)]"

subsection \<open>Decimal integers\<close>

text \<open>
  \<open>FromStr\<close> of the integer types: an optional sign (a minus sign only for the signed
  types), then at least one digit, and a value within the type's range.
\<close>

fun parse_digits :: "nat \<Rightarrow> str \<Rightarrow> nat option" where
  "parse_digits acc [] = Some acc"
| "parse_digits acc (b # bs) =
     (if is_ascii_digit b then parse_digits (10 * acc + unat (b - 0x30)) bs else None)"

definition parse_magnitude :: "str \<Rightarrow> nat option" where
  "parse_magnitude s = (if s = [] then None else parse_digits 0 s)"

definition parse_unsigned :: "nat \<Rightarrow> str \<Rightarrow> nat option" where
  "parse_unsigned max_value s =
     (case parse_magnitude (if starts_with_byte 0x2B s then tl s else s) of
        None \<Rightarrow> None
      | Some n \<Rightarrow> if n \<le> max_value then Some n else None)"

definition parse_signed :: "int \<Rightarrow> int \<Rightarrow> str \<Rightarrow> int option" where
  "parse_signed min_value max_value s =
     (let negative = starts_with_byte 0x2D s;
          digits = (if negative \<or> starts_with_byte 0x2B s then tl s else s)
      in case parse_magnitude digits of
           None \<Rightarrow> None
         | Some n \<Rightarrow>
             let v = (if negative then - int n else int n)
             in if min_value \<le> v \<and> v \<le> max_value then Some v else None)"

definition parse_u16 :: "str \<Rightarrow> u16 option" where
  "parse_u16 s = map_option of_nat (parse_unsigned 65535 s)"

definition parse_i8 :: "str \<Rightarrow> i8 option" where
  "parse_i8 s = map_option of_int (parse_signed (-128) 127 s)"

text \<open>\<open>Display\<close> of an unsigned integer.\<close>

fun fmt_dec :: "nat \<Rightarrow> str" where
  "fmt_dec n =
     (if n < 10 then [0x30 + of_nat n] else fmt_dec (n div 10) @ [0x30 + of_nat (n mod 10)])"

text \<open>A signed integer in decimal.\<close>

definition fmt_int :: "int \<Rightarrow> str" where
  "fmt_int n = (if n < 0 then [0x2D] else []) @ fmt_dec (nat \<bar>n\<bar>)"

declare fmt_dec.simps [simp del]

section \<open>Lemmas\<close>

subsection \<open>UTF-8\<close>

lemma chars_Nil [simp]: "chars [] = Some []"
  by (simp add: chars.simps)

lemma chars_unfold:
  "bs \<noteq> [] \<Longrightarrow>
     chars bs = (case next_char bs of
                   None \<Rightarrow> None
                 | Some (c, rest) \<Rightarrow> map_option ((#) c) (chars rest))"
  by (subst chars.simps) simp

lemma chars_step:
  "next_char bs = Some (c, rest) \<Longrightarrow> chars bs = map_option ((#) c) (chars rest)"
  by (subst chars.simps) auto

lemma tail_two_append:
  "tail_two b0 bs = Some (c, rest) \<Longrightarrow> tail_two b0 (bs @ ys) = Some (c, rest @ ys)"
  by (cases "(b0, bs)" rule: tail_two.cases) (auto split: if_splits)

lemma tail_three_append:
  "tail_three b0 bs = Some (c, rest) \<Longrightarrow> tail_three b0 (bs @ ys) = Some (c, rest @ ys)"
  by (cases "(b0, bs)" rule: tail_three.cases) (auto split: if_splits)

lemma tail_four_append:
  "tail_four b0 bs = Some (c, rest) \<Longrightarrow> tail_four b0 (bs @ ys) = Some (c, rest @ ys)"
  by (cases "(b0, bs)" rule: tail_four.cases) (auto split: if_splits)

lemmas tail_append = tail_two_append tail_three_append tail_four_append

lemma next_char_append:
  "next_char bs = Some (c, rest) \<Longrightarrow> next_char (bs @ ys) = Some (c, rest @ ys)"
  by (cases bs) (auto simp: tail_append split: if_split_asm)

lemma chars_Some_cases:
  assumes "chars bs = Some cs" and "bs \<noteq> []"
  obtains c rest cs' where "next_char bs = Some (c, rest)" "chars rest = Some cs'" "cs = c # cs'"
proof -
  from assms obtain c rest cs' where "next_char bs = Some (c, rest)" "chars rest = Some cs'"
    "cs = c # cs'"
    by (auto simp: chars_unfold split: option.splits)
  then show ?thesis by (rule that)
qed

lemma chars_append: "chars xs = Some cs \<Longrightarrow> chars (xs @ ys) = map_option ((@) cs) (chars ys)"
proof (induction xs arbitrary: cs rule: measure_induct_rule [of length])
  case (less xs)
  show ?case
  proof (cases "xs = []")
    case True
    with less.prems show ?thesis by (cases "chars ys") auto
  next
    case False
    with less.prems obtain c rest cs' where step: "next_char xs = Some (c, rest)"
      and rest: "chars rest = Some cs'" and cs: "cs = c # cs'"
      by (rule chars_Some_cases)
    have "chars (rest @ ys) = map_option ((@) cs') (chars ys)"
      using less.IH [OF next_char_shorter [OF step] rest] .
    then show ?thesis
      using chars_step [OF next_char_append [OF step, of ys]] cs
      by (cases "chars ys") auto
  qed
qed

lemma utf8_valid_Nil [simp]: "utf8_valid []"
  by (simp add: utf8_valid_def)

lemma utf8_valid_append: "utf8_valid xs \<Longrightarrow> utf8_valid ys \<Longrightarrow> utf8_valid (xs @ ys)"
  by (auto simp: utf8_valid_def chars_append)

lemma utf8_valid_append_iff: "utf8_valid xs \<Longrightarrow> utf8_valid (xs @ ys) \<longleftrightarrow> utf8_valid ys"
  by (auto simp: utf8_valid_def chars_append)

lemma chars_ascii: "\<forall>b \<in> set bs. b < 0x80 \<Longrightarrow> chars bs = Some (map unat bs)"
proof (induction bs)
  case (Cons b bs)
  then have "next_char (b # bs) = Some (unat b, bs)"
    by simp
  with Cons show ?case
    by (simp add: chars_step)
qed simp

lemma utf8_valid_ascii: "\<forall>b \<in> set bs. b < 0x80 \<Longrightarrow> utf8_valid bs"
  by (simp add: utf8_valid_def chars_ascii)

lemma from_utf8_valid [simp]: "utf8_valid bs \<Longrightarrow> from_utf8 bs = Some bs"
  by (simp add: from_utf8_def)

lemma from_utf8_Some: "from_utf8 bs = Some s \<longleftrightarrow> utf8_valid bs \<and> s = bs"
  by (auto simp: from_utf8_def)

lemma nibbles_small: "unat (drop_bit 4 b) < 16" "unat (b AND 0x0F) < 16" for b :: u8
proof -
  have "unat b < 2 ^ LENGTH(8)"
    by (rule unsigned_less)
  then show "unat (drop_bit 4 b) < 16"
    by (simp add: drop_bit_eq_div unat_div less_mult_imp_div_less)
  have "b AND 0x0F = take_bit 4 b"
    by (simp add: take_bit_eq_mask mask_eq_exp_minus_1)
  then show "unat (b AND 0x0F) < 16"
    by (simp add: take_bit_eq_mod unat_mod)
qed

lemma lit_Nil [simp]: "lit [] = []"
  by (simp add: lit_def)

lemma lit_Cons [simp]: "lit (c # cs) = of_char c # lit cs"
  by (simp add: lit_def)

lemma length_lit [simp]: "length (lit s) = length s"
  by (simp add: lit_def)

subsection \<open>Splitting\<close>

lemma split_on_nonempty [simp]: "split_on c xs \<noteq> []"
  by (induction xs) (auto split: list.splits)

lemma join_split: "join_on c (split_on c xs) = xs"
proof (induction xs)
  case (Cons x xs)
  obtain p ps where ps: "split_on c xs = p # ps"
    by (cases "split_on c xs") auto
  with Cons show ?case
    by (cases ps) auto
qed simp

lemma split_on_pieces: "p \<in> set (split_on c xs) \<Longrightarrow> c \<notin> set p"
proof (induction xs arbitrary: p)
  case (Cons x xs)
  obtain q qs where qs: "split_on c xs = q # qs"
    by (cases "split_on c xs") auto
  with Cons show ?case
    by (auto split: if_splits)
qed simp

lemma length_split_on: "length (split_on c xs) = Suc (count_list xs c)"
  by (induction xs) (auto split: list.splits)

lemma set_split_on: "p \<in> set (split_on c xs) \<Longrightarrow> set p \<subseteq> set xs"
proof (induction xs arbitrary: p)
  case (Cons x xs)
  obtain q qs where qs: "split_on c xs = q # qs"
    by (cases "split_on c xs") auto
  with Cons show ?case
    by (fastforce split: if_splits)
qed simp

lemma mem_split_on: "x \<in> set xs \<Longrightarrow> x \<noteq> c \<Longrightarrow> \<exists>p \<in> set (split_on c xs). x \<in> set p"
proof (induction xs)
  case (Cons y xs)
  obtain q qs where qs: "split_on c xs = q # qs"
    by (cases "split_on c xs") auto
  with Cons show ?case
    by fastforce
qed simp

lemma split_on_snoc: "split_on c (xs @ [c]) = split_on c xs @ [[]]"
  by (induction xs) (auto split: list.splits)

lemma split_on_no_sep: "c \<notin> set xs \<Longrightarrow> split_on c xs = [xs]"
  by (induction xs) auto

lemma split_on_append:
  assumes "c \<notin> set p"
  shows "split_on c (p @ c # ys) = p # split_on c ys"
  using assms by (induction p) auto

lemma split_join:
  "\<lbrakk>ps \<noteq> []; \<forall>p \<in> set ps. c \<notin> set p\<rbrakk> \<Longrightarrow> split_on c (join_on c ps) = ps"
  by (induction c ps rule: join_on.induct) (auto simp: split_on_no_sep split_on_append)

text \<open>An ASCII byte of a text is one of its characters.\<close>

lemma tail_two_bytes: "tail_two b0 bs = Some (c, rest) \<Longrightarrow> \<exists>p. bs = p @ rest \<and> (\<forall>b \<in> set p. 0x80 \<le> b)"
  by (cases "(b0, bs)" rule: tail_two.cases) (auto simp: is_continuation_def split: if_splits)

lemma tail_three_bytes: "tail_three b0 bs = Some (c, rest) \<Longrightarrow> \<exists>p. bs = p @ rest \<and> (\<forall>b \<in> set p. 0x80 \<le> b)"
  by (cases "(b0, bs)" rule: tail_three.cases)
    (auto simp: is_continuation_def second_of_three_def word_le_nat_alt split: if_splits intro!: exI [of _ "[_, _]"])

lemma tail_four_bytes: "tail_four b0 bs = Some (c, rest) \<Longrightarrow> \<exists>p. bs = p @ rest \<and> (\<forall>b \<in> set p. 0x80 \<le> b)"
  by (cases "(b0, bs)" rule: tail_four.cases)
    (auto simp: is_continuation_def second_of_four_def word_le_nat_alt split: if_splits intro!: exI [of _ "[_, _, _]"])

lemma next_char_bytes:
  assumes "next_char bs = Some (c, rest)"
  shows "\<exists>p. bs = p @ rest \<and> (\<forall>b \<in> set p. b < 0x80 \<longrightarrow> unat b = c)"
proof (cases bs)
  case (Cons b0 tl)
  show ?thesis
  proof (cases "b0 < 0x80")
    case True
    with assms Cons show ?thesis
      by (auto intro: exI [of _ "[b0]"])
  next
    case False
    then obtain p where "tl = p @ rest" "\<forall>b \<in> set p. 0x80 \<le> b"
      using assms Cons tail_two_bytes tail_three_bytes tail_four_bytes
      by (auto split: if_splits) metis+
    with Cons False show ?thesis
      by (intro exI [of _ "b0 # p"]) (auto simp: not_less)
  qed
qed (use assms in simp)

lemma ascii_byte_is_char:
  "\<lbrakk>chars bs = Some cs; b \<in> set bs; b < 0x80\<rbrakk> \<Longrightarrow> unat b \<in> set cs"
proof (induction bs arbitrary: cs rule: chars.induct)
  case (1 bs)
  have "bs \<noteq> []"
    using "1.prems"(2) by auto
  then obtain c rest cs' where step: "next_char bs = Some (c, rest)" "chars rest = Some cs'" "cs = c # cs'"
    using chars_Some_cases [OF "1.prems"(1)] by metis
  obtain p where p: "bs = p @ rest" "\<forall>b \<in> set p. b < 0x80 \<longrightarrow> unat b = c"
    using next_char_bytes [OF step(1)] by blast
  show ?case
  proof (cases "b \<in> set p")
    case True
    then show ?thesis
      using p(2) "1.prems"(3) step(3) by auto
  next
    case False
    then show ?thesis
      using "1.IH" [OF \<open>bs \<noteq> []\<close> step(1) refl step(2)] "1.prems"(2, 3) p(1) step(3) by auto
  qed
qed

end
