(* ===== verification/Hardware.thy ===== *)
theory Hardware
  imports Rust_Str
begin

text \<open>
  Hardware identity: \<open>crates/core\<close> (architectures, capability sets, descriptors), the
  ESP32-C6 port's constants and the XIAO ESP32C6 board descriptor with its pin map.
  Capability sets are shown to be the bounded semilattice of their bits, with
  \<open>contains\<close> as its order and \<open>caps_union\<close> as its join.
\<close>

section \<open>Definitions\<close>

subsection \<open>crates/core\<close>

datatype architecture = RiscV32 | CortexM | Xtensa | Host | Other

datatype capabilities = Capabilities (cap_bits: u64)

definition cap_NONE :: capabilities where
  "cap_NONE = Capabilities 0"

definition cap_WIFI :: capabilities where
  "cap_WIFI = Capabilities (push_bit 0 1)"

definition cap_BLE :: capabilities where
  "cap_BLE = Capabilities (push_bit 1 1)"

definition cap_IEEE_802_15_4 :: capabilities where
  "cap_IEEE_802_15_4 = Capabilities (push_bit 2 1)"

definition cap_THREAD :: capabilities where
  "cap_THREAD = Capabilities (push_bit 3 1)"

definition cap_HARDWARE_RNG :: capabilities where
  "cap_HARDWARE_RNG = Capabilities (push_bit 4 1)"

definition cap_CRYPTO_ACCELERATION :: capabilities where
  "cap_CRYPTO_ACCELERATION = Capabilities (push_bit 5 1)"

definition cap_USB :: capabilities where
  "cap_USB = Capabilities (push_bit 6 1)"

definition cap_OTA :: capabilities where
  "cap_OTA = Capabilities (push_bit 7 1)"

definition cap_PERSISTENT_STORAGE :: capabilities where
  "cap_PERSISTENT_STORAGE = Capabilities (push_bit 8 1)"

definition from_bits :: "u64 \<Rightarrow> capabilities" where
  "from_bits b = Capabilities b"

definition bits :: "capabilities \<Rightarrow> u64" where
  "bits c = cap_bits c"

definition caps_union :: "capabilities \<Rightarrow> capabilities \<Rightarrow> capabilities" where
  "caps_union a b = Capabilities (cap_bits a OR cap_bits b)"

definition contains :: "capabilities \<Rightarrow> capabilities \<Rightarrow> bool" where
  "contains a required \<longleftrightarrow> cap_bits a AND cap_bits required = cap_bits required"

record hardware_descriptor =
  hw_board :: str
  hw_chip :: str
  hw_manufacturer :: str
  hw_architecture :: architecture
  hw_capabilities :: capabilities

subsection \<open>ports/espressif/esp32c6 and boards/seeed/xiao-esp32c6\<close>

definition CHIP :: str where
  "CHIP = lit ''esp32c6''"

definition ARCHITECTURE :: architecture where
  "ARCHITECTURE = RiscV32"

definition CAPABILITIES :: capabilities where
  "CAPABILITIES =
     caps_union (caps_union (caps_union (caps_union cap_WIFI cap_BLE) cap_IEEE_802_15_4)
       cap_HARDWARE_RNG) cap_CRYPTO_ACCELERATION"

definition HARDWARE :: hardware_descriptor where
  "HARDWARE =
     \<lparr>hw_board = lit ''xiao-esp32c6'', hw_chip = CHIP, hw_manufacturer = lit ''Seeed Studio'',
      hw_architecture = ARCHITECTURE, hw_capabilities = CAPABILITIES\<rparr>"

definition BLUETOOTH_DEVICE_NAME :: str where
  "BLUETOOTH_DEVICE_NAME = lit ''XIAO ESP32C6 SDK''"

text \<open>The pin constants of the board, each with the number of its GPIO.\<close>

datatype board_pin =
    USER_LED_GPIO | BOOT_BUTTON_GPIO | D0_GPIO | D1_GPIO | D2_GPIO | D3_GPIO
  | I2C_SDA_GPIO | I2C_SCL_GPIO | UART_TX_GPIO | UART_RX_GPIO
  | SPI_SCK_GPIO | SPI_MISO_GPIO | SPI_MOSI_GPIO
  | RF_SWITCH_ENABLE_GPIO | RF_SWITCH_SELECT_GPIO

fun gpio :: "board_pin \<Rightarrow> u8" where
  "gpio USER_LED_GPIO = 15"
| "gpio BOOT_BUTTON_GPIO = 9"
| "gpio D0_GPIO = 0"
| "gpio D1_GPIO = 1"
| "gpio D2_GPIO = 2"
| "gpio D3_GPIO = 21"
| "gpio I2C_SDA_GPIO = 22"
| "gpio I2C_SCL_GPIO = 23"
| "gpio UART_TX_GPIO = 16"
| "gpio UART_RX_GPIO = 17"
| "gpio SPI_SCK_GPIO = 19"
| "gpio SPI_MISO_GPIO = 20"
| "gpio SPI_MOSI_GPIO = 18"
| "gpio RF_SWITCH_ENABLE_GPIO = 3"
| "gpio RF_SWITCH_SELECT_GPIO = 14"

text \<open>The single-capability constants, by bit position.\<close>

definition named_capabilities :: "capabilities list" where
  "named_capabilities =
     [cap_WIFI, cap_BLE, cap_IEEE_802_15_4, cap_THREAD, cap_HARDWARE_RNG,
      cap_CRYPTO_ACCELERATION, cap_USB, cap_OTA, cap_PERSISTENT_STORAGE]"

section \<open>Lemmas\<close>

lemmas cap_defs =
  cap_NONE_def cap_WIFI_def cap_BLE_def cap_IEEE_802_15_4_def cap_THREAD_def
  cap_HARDWARE_RNG_def cap_CRYPTO_ACCELERATION_def cap_USB_def cap_OTA_def
  cap_PERSISTENT_STORAGE_def

lemma word_eq_bits: "x = y \<longleftrightarrow> (\<forall>n. bit x n \<longleftrightarrow> bit y n)" for x y :: "'a::len word"
  by (auto intro: bit_eqI)

lemma contains_iff_bits: "contains a b \<longleftrightarrow> (\<forall>n. bit (cap_bits b) n \<longrightarrow> bit (cap_bits a) n)"
  unfolding contains_def word_eq_bits by (auto simp: bit_and_iff)

lemma bit_caps_union: "bit (cap_bits (caps_union a b)) n \<longleftrightarrow> bit (cap_bits a) n \<or> bit (cap_bits b) n"
  by (simp add: caps_union_def bit_or_iff)

lemma capabilities_eq_iff: "a = b \<longleftrightarrow> (\<forall>n. bit (cap_bits a) n \<longleftrightarrow> bit (cap_bits b) n)"
  unfolding word_eq_bits [symmetric] by (cases a; cases b) simp

subsection \<open>Capability sets as a bounded semilattice\<close>

instantiation capabilities :: bounded_semilattice_sup_bot
begin

definition less_eq_capabilities :: "capabilities \<Rightarrow> capabilities \<Rightarrow> bool" where
  "less_eq_capabilities a b \<longleftrightarrow> contains b a"

definition less_capabilities :: "capabilities \<Rightarrow> capabilities \<Rightarrow> bool" where
  "less_capabilities a b \<longleftrightarrow> contains b a \<and> \<not> contains a b"

definition sup_capabilities :: "capabilities \<Rightarrow> capabilities \<Rightarrow> capabilities" where
  "sup_capabilities a b = caps_union a b"

definition bot_capabilities :: capabilities where
  "bot_capabilities = cap_NONE"

instance
  by standard
    (auto simp: less_eq_capabilities_def less_capabilities_def sup_capabilities_def
      bot_capabilities_def contains_iff_bits bit_caps_union capabilities_eq_iff cap_NONE_def)

end

lemma contains_le: "contains a b \<longleftrightarrow> b \<le> a"
  by (simp add: less_eq_capabilities_def)

lemma caps_union_sup: "caps_union a b = sup a b"
  by (simp add: sup_capabilities_def)

lemma contains_trans: "contains a b \<Longrightarrow> contains b c \<Longrightarrow> contains a c"
  by (simp add: contains_le)

text \<open>
  Capability sets behave as sets: a set contains a union exactly when it contains both
  parts, two sets that contain each other are equal, the empty set is contained in every
  set, and the wire representation of a set determines it.
\<close>

lemma capability_sets:
  "(contains c (caps_union a b) \<longleftrightarrow> contains c a \<and> contains c b)
   \<and> (contains a b \<and> contains b a \<longleftrightarrow> a = b)
   \<and> contains a cap_NONE
   \<and> from_bits (bits a) = a \<and> bits (from_bits w) = w"
  by (auto simp: contains_le caps_union_sup from_bits_def bits_def bot_capabilities_def [symmetric])

text \<open>
  The XIAO ESP32C6 descriptor advertises exactly the Wi-Fi, BLE, IEEE 802.15.4,
  hardware random number and crypto capabilities of the nine the SDK names (in particular
  neither Thread, USB, OTA nor persistent storage), the nine are pairwise different single
  bits, and no two of the board's pin constants share a GPIO.
\<close>

lemma xiao_descriptor:
  "filter (contains (hw_capabilities HARDWARE)) named_capabilities =
     [cap_WIFI, cap_BLE, cap_IEEE_802_15_4, cap_HARDWARE_RNG, cap_CRYPTO_ACCELERATION]
   \<and> bits (hw_capabilities HARDWARE) = 0x37
   \<and> map bits named_capabilities = map (\<lambda>n. 2 ^ n) [0..<9]
   \<and> (gpio p = gpio q \<longleftrightarrow> p = q)"
proof (intro conjI)
  show "filter (contains (hw_capabilities HARDWARE)) named_capabilities =
     [cap_WIFI, cap_BLE, cap_IEEE_802_15_4, cap_HARDWARE_RNG, cap_CRYPTO_ACCELERATION]"
    by (simp add: named_capabilities_def HARDWARE_def CAPABILITIES_def contains_def
        caps_union_def cap_defs)
  show "bits (hw_capabilities HARDWARE) = 0x37"
    by (simp add: HARDWARE_def CAPABILITIES_def bits_def caps_union_def cap_defs)
  show "map bits named_capabilities = map (\<lambda>n. 2 ^ n) [0..<9]"
    by (simp add: named_capabilities_def bits_def cap_defs upt_rec)
  show "gpio p = gpio q \<longleftrightarrow> p = q"
    by (cases p; cases q) simp_all
qed

end
