(* ===== verification/Lifecycle.thy ===== *)
theory Lifecycle
  imports Prelude
begin

text \<open>
  The small portable contracts: \<open>crates/config\<close> (schema versions), \<open>crates/runtime\<close>
  (service health) and \<open>crates/telemetry\<close> (events). The derived \<open>Ord\<close> instances of
  \<open>SchemaVersion\<close> and \<open>Severity\<close> are instances of \<open>linorder\<close>.
\<close>

section \<open>Definitions\<close>

subsection \<open>crates/config\<close>

datatype schema_version = SchemaVersion (sv_major: u16) (sv_minor: u16)

definition is_compatible_with :: "schema_version \<Rightarrow> schema_version \<Rightarrow> bool" where
  "is_compatible_with reader encoded \<longleftrightarrow>
     sv_major reader = sv_major encoded \<and> sv_minor reader \<ge> sv_minor encoded"

subsection \<open>crates/runtime\<close>

datatype service_state = Stopped | Starting | Healthy | Degraded | Failed

record health_snapshot =
  service_id :: u16
  hs_state :: service_state
  last_progress_tick :: u64
  restart_count :: u16

definition stopped :: "u16 \<Rightarrow> health_snapshot" where
  "stopped sid =
     \<lparr>service_id = sid, hs_state = Stopped, last_progress_tick = 0, restart_count = 0\<rparr>"

definition report :: "service_state \<Rightarrow> u64 \<Rightarrow> health_snapshot \<Rightarrow> health_snapshot" where
  "report st tick h = h\<lparr>hs_state := st, last_progress_tick := tick\<rparr>"

definition is_stale :: "health_snapshot \<Rightarrow> u64 \<Rightarrow> u64 \<Rightarrow> bool" where
  "is_stale h now maximum_silence \<longleftrightarrow>
     saturating_sub now (last_progress_tick h) > maximum_silence"

subsection \<open>crates/telemetry\<close>

datatype severity = Debug | Info | Warning | Error | Critical

record event =
  event_code :: u16
  event_severity :: severity
  event_value :: i64

text \<open>The position of a variant in the enum, which is what the derived \<open>Ord\<close> compares.\<close>

fun severity_rank :: "severity \<Rightarrow> nat" where
  "severity_rank Debug = 0"
| "severity_rank Info = 1"
| "severity_rank Warning = 2"
| "severity_rank Error = 3"
| "severity_rank Critical = 4"

section \<open>Lemmas\<close>

lemma severity_rank_inj: "severity_rank a = severity_rank b \<longleftrightarrow> a = b"
  by (cases a; cases b) simp_all

instantiation severity :: linorder
begin

definition less_eq_severity :: "severity \<Rightarrow> severity \<Rightarrow> bool" where
  "less_eq_severity a b \<longleftrightarrow> severity_rank a \<le> severity_rank b"

definition less_severity :: "severity \<Rightarrow> severity \<Rightarrow> bool" where
  "less_severity a b \<longleftrightarrow> severity_rank a < severity_rank b"

instance
  by standard (auto simp: less_eq_severity_def less_severity_def severity_rank_inj)

end

instantiation schema_version :: linorder
begin

definition less_eq_schema_version :: "schema_version \<Rightarrow> schema_version \<Rightarrow> bool" where
  "less_eq_schema_version a b \<longleftrightarrow>
     sv_major a < sv_major b \<or> sv_major a = sv_major b \<and> sv_minor a \<le> sv_minor b"

definition less_schema_version :: "schema_version \<Rightarrow> schema_version \<Rightarrow> bool" where
  "less_schema_version a b \<longleftrightarrow>
     sv_major a < sv_major b \<or> sv_major a = sv_major b \<and> sv_minor a < sv_minor b"

instance
  by standard
    (auto simp: less_eq_schema_version_def less_schema_version_def intro: schema_version.expand)

end

text \<open>
  Two versions are comparable by readers exactly when they share a major version, and then
  compatibility is the derived order.
\<close>

lemma compatible_iff_le:
  "is_compatible_with reader encoded \<longleftrightarrow> sv_major reader = sv_major encoded \<and> encoded \<le> reader"
  by (auto simp: is_compatible_with_def less_eq_schema_version_def)

text \<open>
  Readers form a chain within a major version: a reader accepts exactly the versions
  of its own major that are not later in the derived order, of two versions of the same
  major one accepts the other, and two versions accept each other only when they are equal.
\<close>

lemma schema_compatibility:
  "(is_compatible_with a b \<longleftrightarrow> sv_major a = sv_major b \<and> b \<le> a)
   \<and> (is_compatible_with a b \<or> is_compatible_with b a \<longleftrightarrow> sv_major a = sv_major b)
   \<and> (is_compatible_with a b \<and> is_compatible_with b a \<longleftrightarrow> a = b)"
  by (auto simp: compatible_iff_le)

lemma is_stale_iff:
  "is_stale h now m \<longleftrightarrow> unat (last_progress_tick h) + unat m < unat now"
  by (auto simp: is_stale_def word_less_nat_alt rust_int)

text \<open>
  The watchdog verdict is exact on the full tick range: a service is stale precisely
  when more than the permitted silence has passed since its last report, so a tick source
  that has not moved past the report never makes it stale and a report at the current tick
  clears the verdict, whatever the state reported.
\<close>

lemma staleness_exact:
  "(is_stale h now m \<longleftrightarrow> unat (last_progress_tick h) + unat m < unat now)
   \<and> \<not> is_stale (report st now h) now m
   \<and> service_id (report st now h) = service_id h
   \<and> restart_count (report st now h) = restart_count h"
  by (simp add: is_stale_iff report_def)

end
