(* ===== verification/Wifi.thy ===== *)
theory Wifi
  imports Rust_Str
begin

text \<open>
  \<open>crates/wifi\<close>: SSIDs and passphrases in fixed-capacity storage, station
  configuration, scan summaries, and the exponential reconnect back-off. The back-off is
  an instance of \<open>paced_backoff\<close>, with its exact delay sequence; SSIDs and passphrases
  are instances of \<open>bounded_store\<close>.
\<close>

section \<open>Definitions\<close>

subsection \<open>Errors\<close>

definition MAX_SSID_LEN :: nat where
  "MAX_SSID_LEN = 32"

definition MAX_PASSPHRASE_LEN :: nat where
  "MAX_PASSPHRASE_LEN = 64"

datatype wifi_config_error = EmptySsid | SsidTooLong | InvalidPassphrase | InvalidReconnectPolicy

fun wifi_config_error_display :: "wifi_config_error \<Rightarrow> str" where
  "wifi_config_error_display EmptySsid = lit ''station SSID must not be empty''"
| "wifi_config_error_display SsidTooLong = lit ''SSID exceeds 32 bytes''"
| "wifi_config_error_display InvalidPassphrase =
     lit ''WPA passphrase must be 8-63 bytes, or a 64-digit hexadecimal PSK''"
| "wifi_config_error_display InvalidReconnectPolicy =
     lit ''reconnect policy requires 0 < initial <= maximum and jitter < maximum''"

subsection \<open>SSIDs\<close>

record ssid =
  ssid_bytes :: "u8 list"
  ssid_len :: u8

definition ssid_new :: "u8 list \<Rightarrow> (ssid, wifi_config_error) result" where
  "ssid_new v =
     (if length v > MAX_SSID_LEN then Err SsidTooLong
      else Ok \<lparr>ssid_bytes = copy_prefix (replicate MAX_SSID_LEN 0) v,
               ssid_len = of_nat (length v)\<rparr>)"

definition ssid_as_bytes :: "ssid \<Rightarrow> u8 list" where
  "ssid_as_bytes s = take (unat (ssid_len s)) (ssid_bytes s)"

definition ssid_as_str :: "ssid \<Rightarrow> str option" where
  "ssid_as_str s = from_utf8 (ssid_as_bytes s)"

definition ssid_length :: "ssid \<Rightarrow> nat" where
  "ssid_length s = unat (ssid_len s)"

definition ssid_is_empty :: "ssid \<Rightarrow> bool" where
  "ssid_is_empty s \<longleftrightarrow> ssid_len s = 0"

definition ssid_try_from :: "str \<Rightarrow> (ssid, wifi_config_error) result" where
  "ssid_try_from v = ssid_new v"

subsection \<open>Passphrases\<close>

record passphrase =
  pass_bytes :: "u8 list"
  pass_len :: u8

definition passphrase_valid :: "u8 list \<Rightarrow> bool" where
  "passphrase_valid b \<longleftrightarrow>
     (8 \<le> length b \<and> length b < MAX_PASSPHRASE_LEN)
     \<or> (length b = MAX_PASSPHRASE_LEN \<and> list_all is_ascii_hexdigit b)"

definition passphrase_new :: "str \<Rightarrow> (passphrase, wifi_config_error) result" where
  "passphrase_new v =
     (if \<not> passphrase_valid v then Err InvalidPassphrase
      else Ok \<lparr>pass_bytes = copy_prefix (replicate MAX_PASSPHRASE_LEN 0) v,
               pass_len = of_nat (length v)\<rparr>)"

definition passphrase_as_str :: "passphrase \<Rightarrow> str" where
  "passphrase_as_str p = unwrap_or [] (from_utf8 (take (unat (pass_len p)) (pass_bytes p)))"

definition passphrase_length :: "passphrase \<Rightarrow> nat" where
  "passphrase_length p = unat (pass_len p)"

definition passphrase_is_empty :: "passphrase \<Rightarrow> bool" where
  "passphrase_is_empty p \<longleftrightarrow> pass_len p = 0"

text \<open>What \<open>Drop\<close> leaves in the storage of a passphrase.\<close>

definition passphrase_drop :: "passphrase \<Rightarrow> passphrase" where
  "passphrase_drop p = p\<lparr>pass_bytes := map (\<lambda>_. 0) (pass_bytes p), pass_len := 0\<rparr>"

definition passphrase_debug :: "passphrase \<Rightarrow> str" where
  "passphrase_debug p = lit ''Passphrase(**REDACTED**)''"

subsection \<open>Station configuration\<close>

datatype authentication = Open | Wpa2Personal | Wpa3Personal | Wpa2Wpa3Personal

record station_config =
  sc_ssid :: ssid
  sc_authentication :: authentication
  sc_passphrase :: "passphrase option"

definition validate_ssid :: "ssid \<Rightarrow> (unit, wifi_config_error) result" where
  "validate_ssid s = (if ssid_is_empty s then Err EmptySsid else Ok ())"

definition station_open :: "ssid \<Rightarrow> (station_config, wifi_config_error) result" where
  "station_open s =
     (case validate_ssid s of
        Inl e \<Rightarrow> Err e
      | Inr _ \<Rightarrow> Ok \<lparr>sc_ssid = s, sc_authentication = Open, sc_passphrase = None\<rparr>)"

definition station_personal ::
  "ssid \<Rightarrow> passphrase \<Rightarrow> authentication \<Rightarrow> (station_config, wifi_config_error) result" where
  "station_personal s p a =
     (case validate_ssid s of
        Inl e \<Rightarrow> Err e
      | Inr _ \<Rightarrow>
          if a = Open then Err InvalidPassphrase
          else Ok \<lparr>sc_ssid = s, sc_authentication = a, sc_passphrase = Some p\<rparr>)"

subsection \<open>Scan results\<close>

datatype security = SecOpen | SecWep | SecWpa | SecWpa2Personal | SecWpa3Personal
  | SecEnterprise | SecUnknown

record access_point =
  ap_ssid :: ssid
  ap_bssid :: "u8 list"
  ap_channel :: u8
  ap_signal_strength_dbm :: i8
  ap_security :: security

record connected_station =
  cs_ssid :: ssid
  cs_bssid :: "u8 list"
  cs_channel :: u8
  cs_security :: security

record scan_summary =
  ss_access_points :: u16
  ss_strongest_signal_dbm :: "i8 option"

text \<open>\<open>Iterator::max\<close> on signed bytes: of equal elements the later one is kept.\<close>

definition signed_max :: "i8 \<Rightarrow> i8 \<Rightarrow> i8" where
  "signed_max a b = (if sint a \<le> sint b then b else a)"

fun iter_max :: "i8 list \<Rightarrow> i8 option" where
  "iter_max [] = None"
| "iter_max (x # xs) = Some (foldl signed_max x xs)"

definition from_access_points :: "access_point list \<Rightarrow> scan_summary" where
  "from_access_points aps =
     \<lparr>ss_access_points = (if length aps < 2 ^ 16 then of_nat (length aps) else umax),
      ss_strongest_signal_dbm = iter_max (map ap_signal_strength_dbm aps)\<rparr>"

datatype wifi_state =
  WsDisabled | WsStarting | WsReady | WsScanning | WsConnecting | WsConnected
  | WsDisconnected | WsFailed

subsection \<open>Reconnect policy and back-off\<close>

record reconnect_policy =
  initial_delay_ms :: u32
  maximum_delay_ms :: u32
  maximum_jitter_ms :: u32

definition reconnect_policy_new ::
  "u32 \<Rightarrow> u32 \<Rightarrow> u32 \<Rightarrow> (reconnect_policy, wifi_config_error) result" where
  "reconnect_policy_new initial maximum jitter =
     (if initial = 0 \<or> initial > maximum \<or> jitter \<ge> maximum then Err InvalidReconnectPolicy
      else Ok \<lparr>initial_delay_ms = initial, maximum_delay_ms = maximum,
               maximum_jitter_ms = jitter\<rparr>)"

definition reconnect_policy_default :: reconnect_policy where
  "reconnect_policy_default =
     \<lparr>initial_delay_ms = 1000, maximum_delay_ms = 60000, maximum_jitter_ms = 500\<rparr>"

record reconnect_backoff =
  rb_policy :: reconnect_policy
  next_base_delay_ms :: u32
  rb_attempts :: u32

definition reconnect_backoff_new :: "reconnect_policy \<Rightarrow> reconnect_backoff" where
  "reconnect_backoff_new p =
     \<lparr>rb_policy = p, next_base_delay_ms = initial_delay_ms p, rb_attempts = 0\<rparr>"

definition next_delay_ms :: "u32 \<Rightarrow> reconnect_backoff \<Rightarrow> u32 \<times> reconnect_backoff" where
  "next_delay_ms entropy b =
     (let p = rb_policy b;
          maximum_base = saturating_sub (maximum_delay_ms p) (maximum_jitter_ms p);
          base = min (next_base_delay_ms b) maximum_base;
          jitter = (if maximum_jitter_ms p = 0 then 0
                    else entropy mod (maximum_jitter_ms p + 1))
      in (min (saturating_add base jitter) (maximum_delay_ms p),
          b\<lparr>next_base_delay_ms := min (saturating_mul base 2) maximum_base,
            rb_attempts := saturating_add (rb_attempts b) 1\<rparr>))"

definition backoff_reset :: "reconnect_backoff \<Rightarrow> reconnect_backoff" where
  "backoff_reset b =
     b\<lparr>next_base_delay_ms := initial_delay_ms (rb_policy b), rb_attempts := 0\<rparr>"

definition reconnect_backoff_default :: reconnect_backoff where
  "reconnect_backoff_default = reconnect_backoff_new reconnect_policy_default"

subsection \<open>Well-formedness\<close>

definition ssid_wf :: "ssid \<Rightarrow> bool" where
  "ssid_wf s \<longleftrightarrow> length (ssid_bytes s) = MAX_SSID_LEN \<and> unat (ssid_len s) \<le> MAX_SSID_LEN"

definition passphrase_wf :: "passphrase \<Rightarrow> bool" where
  "passphrase_wf p \<longleftrightarrow>
     length (pass_bytes p) = MAX_PASSPHRASE_LEN
     \<and> passphrase_valid (take (unat (pass_len p)) (pass_bytes p))"

definition station_wf :: "station_config \<Rightarrow> bool" where
  "station_wf c \<longleftrightarrow>
     \<not> ssid_is_empty (sc_ssid c) \<and> (sc_authentication c = Open \<longleftrightarrow> sc_passphrase c = None)"

definition policy_wf :: "reconnect_policy \<Rightarrow> bool" where
  "policy_wf p \<longleftrightarrow>
     0 < initial_delay_ms p \<and> initial_delay_ms p \<le> maximum_delay_ms p
     \<and> maximum_jitter_ms p < maximum_delay_ms p"

definition backoff_limit :: "reconnect_backoff \<Rightarrow> nat" where
  "backoff_limit b = unat (maximum_delay_ms (rb_policy b))"

text \<open>The least base delay of a policy: the initial delay unless the jitter leaves less room.\<close>

definition backoff_floor :: "reconnect_backoff \<Rightarrow> nat" where
  "backoff_floor b =
     min (unat (initial_delay_ms (rb_policy b)))
         (unat (maximum_delay_ms (rb_policy b)) - unat (maximum_jitter_ms (rb_policy b)))"

definition backoff_wf :: "reconnect_backoff \<Rightarrow> bool" where
  "backoff_wf b \<longleftrightarrow> policy_wf (rb_policy b) \<and> backoff_floor b \<le> unat (next_base_delay_ms b)"

definition backoff_attempts :: "reconnect_backoff \<Rightarrow> nat" where
  "backoff_attempts b = unat (rb_attempts b)"

section \<open>Lemmas\<close>

subsection \<open>Bounded storage\<close>

lemma ssid_store:
  assumes "ssid_new v = Inr s"
  shows "ssid_as_bytes s = v" "ssid_length s = length v" "ssid_wf s" "length v \<le> MAX_SSID_LEN"
  using assms
  by (auto simp: ssid_new_def ssid_as_bytes_def ssid_length_def ssid_wf_def MAX_SSID_LEN_def
      unat_of_nat_id split: if_splits)

interpretation ssid_store: bounded_store MAX_SSID_LEN "\<lambda>_. True" "\<lambda>v. length v \<le> MAX_SSID_LEN"
  ssid_new ssid_as_bytes ssid_length
  by unfold_locales (auto simp: ssid_store, auto simp: ssid_new_def split: if_splits)

lemma passphrase_valid_length: "passphrase_valid v \<Longrightarrow> 8 \<le> length v \<and> length v \<le> MAX_PASSPHRASE_LEN"
  by (auto simp: passphrase_valid_def MAX_PASSPHRASE_LEN_def)

lemma passphrase_store:
  assumes "passphrase_new v = Inr p"
  shows "take (unat (pass_len p)) (pass_bytes p) = v" "passphrase_length p = length v"
    "passphrase_wf p" "passphrase_valid v"
proof -
  from assms have v: "passphrase_valid v"
    and p: "p = \<lparr>pass_bytes = copy_prefix (replicate MAX_PASSPHRASE_LEN 0) v,
                 pass_len = of_nat (length v)\<rparr>"
    by (auto simp: passphrase_new_def split: if_splits)
  from v have "length v \<le> 64"
    using passphrase_valid_length by (auto simp: MAX_PASSPHRASE_LEN_def)
  then have len: "unat (of_nat (length v) :: u8) = length v"
    by (simp add: unat_of_nat_id)
  show "take (unat (pass_len p)) (pass_bytes p) = v" "passphrase_length p = length v"
    "passphrase_wf p" "passphrase_valid v"
    using v \<open>length v \<le> 64\<close> by (simp_all add: p len passphrase_length_def passphrase_wf_def MAX_PASSPHRASE_LEN_def)
qed

interpretation passphrase_store: bounded_store MAX_PASSPHRASE_LEN utf8_valid passphrase_valid
  passphrase_new passphrase_as_str passphrase_length
proof unfold_locales
  show "is_ok (passphrase_new v) \<longleftrightarrow> passphrase_valid v" for v
    by (simp add: passphrase_new_def)
  show "length v \<le> MAX_PASSPHRASE_LEN" if "passphrase_valid v" for v
    using passphrase_valid_length [OF that] by simp
  show "passphrase_as_str b = v" if "utf8_valid v" "passphrase_new v = Inr b" for v b
    using that passphrase_store [OF that(2)] by (simp add: passphrase_as_str_def)
  show "passphrase_length b = length v" if "passphrase_new v = Inr b" for v b
    using that by (rule passphrase_store)
qed

subsection \<open>Back-off\<close>

lemma reconnect_policy_new_ok:
  assumes "reconnect_policy_new i m j = Inr p"
  shows "p = \<lparr>initial_delay_ms = i, maximum_delay_ms = m, maximum_jitter_ms = j\<rparr>" "policy_wf p"
  using assms
  by (auto simp: reconnect_policy_new_def policy_wf_def word_neq_0_conv split: if_splits)

lemma policy_wf_default: "policy_wf reconnect_policy_default"
  by (simp add: policy_wf_def reconnect_policy_default_def)

text \<open>The jitter divisor \<open>maximum_jitter_ms + 1\<close> cannot overflow under a valid policy.\<close>

lemma jitter_divisor:
  "policy_wf p \<Longrightarrow> unat (maximum_jitter_ms p + 1) = Suc (unat (maximum_jitter_ms p))"
proof -
  assume "policy_wf p"
  then have "unat (maximum_jitter_ms p) < unat (maximum_delay_ms p)"
    by (simp add: policy_wf_def word_less_nat_alt)
  moreover have "unat (maximum_delay_ms p) < 2 ^ 32"
    using unsigned_less [of "maximum_delay_ms p"] by simp
  ultimately show ?thesis
    by (simp add: unat_word_ariths)
qed

text \<open>One step on a valid policy, read without wrap-around; no clipping is ever needed.\<close>

lemma next_delay_ms_unat:
  assumes "policy_wf (rb_policy b)"
  defines "p \<equiv> rb_policy b"
  defines "mb \<equiv> unat (maximum_delay_ms p) - unat (maximum_jitter_ms p)"
  shows "unat (fst (next_delay_ms r b)) =
      min (unat (next_base_delay_ms b)) mb + unat r mod Suc (unat (maximum_jitter_ms p))"
    and "unat (next_base_delay_ms (snd (next_delay_ms r b))) =
      min (2 * min (unat (next_base_delay_ms b)) mb) mb"
    and "rb_policy (snd (next_delay_ms r b)) = p"
    and "unat (rb_attempts (snd (next_delay_ms r b))) = min (Suc (unat (rb_attempts b))) (2 ^ 32 - 1)"
proof -
  have wf: "policy_wf p" using assms(1) by (simp add: p_def)
  have j: "unat (maximum_jitter_ms p) < unat (maximum_delay_ms p)"
    using wf by (simp add: policy_wf_def word_less_nat_alt)
  have m: "unat (maximum_delay_ms p) < 2 ^ 32"
    using unsigned_less [of "maximum_delay_ms p"] by simp
  define jit where "jit = (if maximum_jitter_ms p = 0 then 0 else r mod (maximum_jitter_ms p + 1))"
  have jit: "unat jit = unat r mod Suc (unat (maximum_jitter_ms p))"
    using jitter_divisor [OF wf] by (simp add: jit_def unat_mod)
  then have jit_le: "unat jit \<le> unat (maximum_jitter_ms p)"
    by (simp add: less_Suc_eq_le [symmetric])
  define base where
    "base = min (next_base_delay_ms b) (saturating_sub (maximum_delay_ms p) (maximum_jitter_ms p))"
  have base: "unat base = min (unat (next_base_delay_ms b)) mb"
    by (simp add: base_def mb_def rust_int)
  have "unat base \<le> mb" by (simp add: base)
  then have sum: "unat base + unat jit \<le> unat (maximum_delay_ms p)"
    using jit_le j by (simp add: mb_def)
  have fst: "fst (next_delay_ms r b) = min (saturating_add base jit) (maximum_delay_ms p)"
    and snd: "snd (next_delay_ms r b) =
      b\<lparr>next_base_delay_ms := min (saturating_mul base 2)
          (saturating_sub (maximum_delay_ms p) (maximum_jitter_ms p)),
        rb_attempts := saturating_add (rb_attempts b) 1\<rparr>"
    by (simp_all add: next_delay_ms_def Let_def base_def jit_def p_def)
  show "unat (fst (next_delay_ms r b)) =
      min (unat (next_base_delay_ms b)) mb + unat r mod Suc (unat (maximum_jitter_ms p))"
    using sum m by (simp add: fst rust_int base [symmetric] jit [symmetric])
  show "unat (next_base_delay_ms (snd (next_delay_ms r b))) =
      min (2 * min (unat (next_base_delay_ms b)) mb) mb"
    using m by (simp add: snd rust_int base [symmetric]) (simp add: mb_def min_def, linarith)
  show "rb_policy (snd (next_delay_ms r b)) = p"
    by (simp add: snd p_def)
  show "unat (rb_attempts (snd (next_delay_ms r b))) = min (Suc (unat (rb_attempts b))) (2 ^ 32 - 1)"
    by (simp add: snd rust_int)
qed

lemma backoff_limit_next: "backoff_limit (snd (next_delay_ms r b)) = backoff_limit b"
  by (simp add: backoff_limit_def next_delay_ms_def Let_def)

lemma backoff_floor_next: "backoff_floor (snd (next_delay_ms r b)) = backoff_floor b"
  by (simp add: backoff_floor_def next_delay_ms_def Let_def)

lemma backoff_floor_le_base:
  "backoff_wf b \<Longrightarrow>
     backoff_floor b \<le> min (unat (next_base_delay_ms b))
       (unat (maximum_delay_ms (rb_policy b)) - unat (maximum_jitter_ms (rb_policy b)))"
  by (auto simp: backoff_wf_def backoff_floor_def)

lemma backoff_wf_next: "backoff_wf b \<Longrightarrow> backoff_wf (snd (next_delay_ms r b))"
  using next_delay_ms_unat(2,3) [of b r] backoff_floor_next [of r b] backoff_floor_le_base [of b]
  by (auto simp: backoff_wf_def)

lemma backoff_wf_new: "policy_wf p \<Longrightarrow> backoff_wf (reconnect_backoff_new p)"
  by (simp add: backoff_wf_def reconnect_backoff_new_def backoff_floor_def)

interpretation wifi_retry: paced_backoff backoff_wf backoff_limit backoff_attempts "2 ^ 32 - 1"
  next_delay_ms backoff_reset backoff_floor
proof unfold_locales
  fix b :: reconnect_backoff and r :: u32
  show "unat (fst (next_delay_ms r b)) \<le> backoff_limit b" if "backoff_wf b"
    unfolding backoff_limit_def next_delay_ms_def Let_def by (simp add: rust_int)
  show "backoff_floor b \<le> unat (fst (next_delay_ms r b))" if "backoff_wf b"
    using that backoff_floor_le_base [OF that] next_delay_ms_unat(1) [of b r]
    by (auto simp: backoff_wf_def intro: trans_le_add1)
  show "0 < backoff_floor b" if "backoff_wf b"
    using that by (simp add: backoff_wf_def policy_wf_def backoff_floor_def word_less_nat_alt)
  show "backoff_attempts (snd (next_delay_ms r b)) = min (Suc (backoff_attempts b)) (2 ^ 32 - 1)"
    by (simp add: backoff_attempts_def next_delay_ms_def Let_def rust_int)
  show "backoff_reset (snd (next_delay_ms r b)) = backoff_reset b"
    by (simp add: backoff_reset_def next_delay_ms_def Let_def)
  show "backoff_wf (backoff_reset b)" if "backoff_wf b"
    using that by (simp add: backoff_wf_def backoff_reset_def backoff_floor_def)
qed (simp_all add: backoff_wf_next backoff_limit_next backoff_floor_next backoff_reset_def,
    simp_all add: backoff_limit_def backoff_attempts_def)

lemma delays_closed_form:
  assumes "policy_wf (rb_policy b)" and "k < length rs"
  shows "unat (delays next_delay_ms rs b ! k) =
      min (unat (next_base_delay_ms b) * 2 ^ k)
          (unat (maximum_delay_ms (rb_policy b)) - unat (maximum_jitter_ms (rb_policy b)))
      + unat (rs ! k) mod Suc (unat (maximum_jitter_ms (rb_policy b)))"
  using assms
proof (induction rs arbitrary: b k)
  case (Cons r rs)
  note step = next_delay_ms_unat [OF Cons.prems(1), of r]
  show ?case
  proof (cases k)
    case 0
    then show ?thesis by (simp add: step(1))
  next
    case (Suc n)
    have scale: "min (min (2 * min a m) m * 2 ^ n) m = min (a * (2 * 2 ^ n)) m" for a m :: nat
      using min_scale [of "2 ^ n" "2 * min a m" m] min_scale [of "2 * 2 ^ n" a m]
      by (simp add: mult.assoc mult.left_commute)
    have "n < length rs" using Cons.prems(2) Suc by simp
    with Cons.IH [of "snd (next_delay_ms r b)" n] Cons.prems(1) show ?thesis
      by (simp add: Suc step(2,3) scale)
  qed
qed simp

subsection \<open>Scan summaries\<close>

lemma foldl_signed_max:
  "sint x \<le> sint (foldl signed_max x ys)
   \<and> (\<forall>y \<in> set ys. sint y \<le> sint (foldl signed_max x ys))
   \<and> foldl signed_max x ys \<in> insert x (set ys)"
proof (induction ys arbitrary: x)
  case (Cons y ys)
  show ?case
    using Cons.IH [of "signed_max x y"] by (auto simp: signed_max_def split: if_splits)
qed simp

lemma iter_max_Some:
  "iter_max xs = Some m \<Longrightarrow> m \<in> set xs \<and> (\<forall>x \<in> set xs. sint x \<le> sint m)"
  using foldl_signed_max by (cases xs) auto

lemma iter_max_None [simp]: "iter_max xs = None \<longleftrightarrow> xs = []"
  by (cases xs) simp_all

section \<open>Properties\<close>

text \<open>
  C12. The Wi-Fi reconnect delays, exactly: under an accepted policy the \<open>k\<close>-th delay after
  construction is the initial delay doubled \<open>k\<close> times, cut off at the maximum less the
  jitter bound, plus the entropy modulo the jitter bound plus one. No intermediate value
  wraps and the final clamp never loses anything.
\<close>

theorem wifi_delay_sequence:
  assumes "reconnect_policy_new i m j = Inr p" and "k < length rs"
  shows "unat (delays next_delay_ms rs (reconnect_backoff_new p) ! k) =
      min (unat i * 2 ^ k) (unat m - unat j) + unat (rs ! k) mod (unat j + 1)"
  using delays_closed_form [of "reconnect_backoff_new p" k rs] assms(2)
    reconnect_policy_new_ok [OF assms(1)]
  by (simp add: reconnect_backoff_new_def)

theorem wifi_delay_sequence_witness:
  "is_ok (reconnect_policy_new 1000 5000 500)
   \<and> unat (delays next_delay_ms [250, 0, 500, 500] (reconnect_backoff_new
        \<lparr>initial_delay_ms = 1000, maximum_delay_ms = 5000, maximum_jitter_ms = 500\<rparr>) ! 2) = 4500"
proof -
  have p: "reconnect_policy_new 1000 5000 500 =
      Inr \<lparr>initial_delay_ms = 1000, maximum_delay_ms = 5000, maximum_jitter_ms = 500\<rparr>"
    by (simp add: reconnect_policy_new_def)
  show ?thesis
    using wifi_delay_sequence [OF p, of 2 "[250, 0, 500, 500]"] by (simp add: p)
qed

text \<open>
  Retries are paced and bounded, and a reset forgets the past: any sequence of retries
  under an accepted policy waits in total at least its length times the least base delay
  (which is positive) and at most its length times the maximum, and after a reset the
  calculator issues the same delays as a fresh one.
\<close>

lemma wifi_retry_paced:
  assumes "reconnect_policy_new i m j = Inr p"
  shows "length rs * min (unat i) (unat m - unat j)
        \<le> sum_list (map unat (delays next_delay_ms rs (reconnect_backoff_new p)))
    \<and> sum_list (map unat (delays next_delay_ms rs (reconnect_backoff_new p))) \<le> length rs * unat m
    \<and> 0 < min (unat i) (unat m - unat j)
    \<and> delays next_delay_ms rs (backoff_reset (advance next_delay_ms qs (reconnect_backoff_new p)))
        = delays next_delay_ms rs (reconnect_backoff_new p)"
proof -
  let ?b = "reconnect_backoff_new p"
  from assms have p: "p = \<lparr>initial_delay_ms = i, maximum_delay_ms = m, maximum_jitter_ms = j\<rparr>"
    and wf: "policy_wf p"
    using reconnect_policy_new_ok [OF assms] by blast+
  from wf have b: "backoff_wf ?b"
    by (rule backoff_wf_new)
  have lim: "backoff_limit ?b = unat m" and flo: "backoff_floor ?b = min (unat i) (unat m - unat j)"
    by (simp_all add: backoff_limit_def backoff_floor_def reconnect_backoff_new_def p)
  have "backoff_reset ?b = ?b"
    by (simp add: backoff_reset_def reconnect_backoff_new_def)
  then show ?thesis
    using wifi_retry.total_delay_paced [OF b, of rs] wifi_retry.total_delay_bounded [OF b, of rs]
      wifi_retry.floor_pos [OF b] wifi_retry.replay_after_reset [of rs qs ?b]
    by (simp add: lim flo)
qed

text \<open>
  Wi-Fi credentials are stored faithfully: for a UTF-8 input the SSID constructor
  accepts exactly the inputs of at most 32 bytes and the passphrase constructor exactly
  those of 8 to 63 bytes or 64 hexadecimal digits; an accepted value is returned unchanged
  by the accessors, and what a dropped passphrase leaves behind is all zeroes.
\<close>

lemma wifi_credentials_roundtrip:
  assumes "utf8_valid v"
  shows "(is_ok (ssid_try_from v) \<longleftrightarrow> length v \<le> 32)
    \<and> (is_ok (passphrase_new v) \<longleftrightarrow>
         length v \<in> {8..63} \<or> length v = 64 \<and> list_all is_ascii_hexdigit v)
    \<and> (\<forall>s. ssid_try_from v = Inr s \<longrightarrow> ssid_as_str s = Some v \<and> ssid_length s = length v)
    \<and> (\<forall>p. passphrase_new v = Inr p \<longrightarrow>
         passphrase_as_str p = v \<and> passphrase_length p = length v
         \<and> set (pass_bytes (passphrase_drop p)) = {0} \<and> passphrase_as_str (passphrase_drop p) = [])"
proof (intro conjI allI impI)
  show "is_ok (ssid_try_from v) \<longleftrightarrow> length v \<le> 32"
    using ssid_store.new_accepts [of v] by (simp add: ssid_try_from_def MAX_SSID_LEN_def)
  show "is_ok (passphrase_new v) \<longleftrightarrow>
      length v \<in> {8..63} \<or> length v = 64 \<and> list_all is_ascii_hexdigit v"
    by (auto simp: passphrase_store.new_accepts passphrase_valid_def MAX_PASSPHRASE_LEN_def)
next
  fix s assume "ssid_try_from v = Inr s"
  then show "ssid_as_str s = Some v" "ssid_length s = length v"
    using assms ssid_store [of v s] by (simp_all add: ssid_try_from_def ssid_as_str_def)
next
  fix p assume p: "passphrase_new v = Inr p"
  show "passphrase_as_str p = v" "passphrase_length p = length v"
    using passphrase_store.contents_new [OF assms p] passphrase_store.len_new [OF p] by simp_all
  have "length (pass_bytes p) = 64"
    using passphrase_store(3) [OF p] by (simp add: passphrase_wf_def MAX_PASSPHRASE_LEN_def)
  then have "pass_bytes p \<noteq> []"
    by auto
  then show "set (pass_bytes (passphrase_drop p)) = {0}"
    by (simp add: passphrase_drop_def image_constant_conv)
  show "passphrase_as_str (passphrase_drop p) = []"
    by (simp add: passphrase_drop_def passphrase_as_str_def)
qed

text \<open>
  A station configuration can only be obtained for a non-empty SSID, carries a
  passphrase exactly when its authentication mode is not open, and both constructors
  succeed in every other case.
\<close>

lemma station_configurations:
  "(is_ok (station_open s) \<longleftrightarrow> \<not> ssid_is_empty s)
   \<and> (is_ok (station_personal s p a) \<longleftrightarrow> \<not> ssid_is_empty s \<and> a \<noteq> Open)
   \<and> (station_open s = Inr c \<or> station_personal s p a = Inr c \<longrightarrow> station_wf c \<and> sc_ssid c = s)"
  by (auto simp: station_open_def station_personal_def validate_ssid_def station_wf_def
      split: if_splits)

text \<open>
  A scan summary reports the number of access points, saturating at 65535, and as
  strongest signal an observed value that no observed signed value exceeds; there is none
  exactly when nothing was observed.
\<close>

lemma scan_summary_correct:
  "unat (ss_access_points (from_access_points aps)) = min (length aps) 65535
   \<and> (ss_strongest_signal_dbm (from_access_points aps) = None \<longleftrightarrow> aps = [])
   \<and> (\<forall>m. ss_strongest_signal_dbm (from_access_points aps) = Some m \<longrightarrow>
        m \<in> ap_signal_strength_dbm ` set aps
        \<and> (\<forall>ap \<in> set aps. sint (ap_signal_strength_dbm ap) \<le> sint m))"
proof (intro conjI allI impI)
  show "unat (ss_access_points (from_access_points aps)) = min (length aps) 65535"
    by (simp add: from_access_points_def unat_umax unat_of_nat_id)
  show "ss_strongest_signal_dbm (from_access_points aps) = None \<longleftrightarrow> aps = []"
    by (simp add: from_access_points_def)
next
  fix m assume "ss_strongest_signal_dbm (from_access_points aps) = Some m"
  then have "iter_max (map ap_signal_strength_dbm aps) = Some m"
    by (simp add: from_access_points_def)
  from iter_max_Some [OF this]
  show "m \<in> ap_signal_strength_dbm ` set aps"
    "\<forall>ap \<in> set aps. sint (ap_signal_strength_dbm ap) \<le> sint m"
    by auto
qed

end
