(* ===== verification/Bluetooth.thy ===== *)
theory Bluetooth
  imports Rust_Str
begin

text \<open>
  \<open>crates/bluetooth\<close>: device names, beacon UUIDs with their text form, advertising
  intervals, iBeacon frames and static random addresses; and the ESP32-C6 port's adapter
  around the BLE controller. The indexed parsing loop of a UUID is shown to decode the 16
  pairs of digits around the dashes, and to be inverse to the formatter.
\<close>

section \<open>Definitions\<close>

subsection \<open>Constants and errors\<close>

definition MAX_DEVICE_NAME_LEN :: nat where
  "MAX_DEVICE_NAME_LEN = 22"

definition IBEACON_COMPANY_IDENTIFIER :: u16 where
  "IBEACON_COMPANY_IDENTIFIER = 0x004c"

definition IBEACON_PAYLOAD_LEN :: nat where
  "IBEACON_PAYLOAD_LEN = 23"

datatype bt_config_error =
  EmptyDeviceName | DeviceNameTooLong | InvalidBeaconUuid | AdvertisingIntervalOutOfRange

fun bt_config_error_display :: "bt_config_error \<Rightarrow> str" where
  "bt_config_error_display EmptyDeviceName = lit ''Bluetooth device name must not be empty''"
| "bt_config_error_display DeviceNameTooLong = lit ''Bluetooth device name exceeds 22 bytes''"
| "bt_config_error_display InvalidBeaconUuid =
     lit ''beacon UUID must use canonical 8-4-4-4-12 hexadecimal form''"
| "bt_config_error_display AdvertisingIntervalOutOfRange =
     lit ''advertising interval must be between 20 and 10240 milliseconds''"

subsection \<open>Device names\<close>

record device_name =
  dn_bytes :: "u8 list"
  dn_len :: u8

definition device_name_new :: "str \<Rightarrow> (device_name, bt_config_error) result" where
  "device_name_new v =
     (if v = [] then Err EmptyDeviceName
      else if length v > MAX_DEVICE_NAME_LEN then Err DeviceNameTooLong
      else Ok \<lparr>dn_bytes = copy_prefix (replicate MAX_DEVICE_NAME_LEN 0) v,
               dn_len = of_nat (length v)\<rparr>)"

definition device_name_as_str :: "device_name \<Rightarrow> str" where
  "device_name_as_str n = unwrap_or [] (from_utf8 (take (unat (dn_len n)) (dn_bytes n)))"

definition device_name_length :: "device_name \<Rightarrow> nat" where
  "device_name_length n = unat (dn_len n)"

definition device_name_is_empty :: "device_name \<Rightarrow> bool" where
  "device_name_is_empty n \<longleftrightarrow> dn_len n = 0"

subsection \<open>Beacon UUIDs\<close>

datatype beacon_uuid = BeaconUuid (uuid_bytes: "u8 list")

definition decode_hex :: "u8 \<Rightarrow> (u8, bt_config_error) result" where
  "decode_hex v =
     (if 0x30 \<le> v \<and> v \<le> 0x39 then Ok (v - 0x30)
      else if 0x61 \<le> v \<and> v \<le> 0x66 then Ok (v - 0x61 + 10)
      else if 0x41 \<le> v \<and> v \<le> 0x46 then Ok (v - 0x41 + 10)
      else Err InvalidBeaconUuid)"

definition is_dash_index :: "nat \<Rightarrow> bool" where
  "is_dash_index i \<longleftrightarrow> i = 8 \<or> i = 13 \<or> i = 18 \<or> i = 23"

text \<open>The loop over the source bytes, with the index of the next byte to write.\<close>

function uuid_loop ::
  "u8 list \<Rightarrow> nat \<Rightarrow> nat \<Rightarrow> u8 list \<Rightarrow> (u8 list, bt_config_error) result" where
  "uuid_loop source source_index byte_index bytes =
     (if source_index < length source then
        if is_dash_index source_index
        then uuid_loop source (source_index + 1) byte_index bytes
        else case decode_hex (source ! source_index) of
               Inl e \<Rightarrow> Err e
             | Inr high \<Rightarrow>
                 (case decode_hex (source ! (source_index + 1)) of
                    Inl e \<Rightarrow> Err e
                  | Inr low \<Rightarrow>
                      uuid_loop source (source_index + 2) (byte_index + 1)
                        (bytes[byte_index := push_bit 4 high OR low]))
      else Ok bytes)"
  by pat_completeness auto
termination
  by (relation "measure (\<lambda>(source, i, _, _). length source - i)") auto

declare uuid_loop.simps [simp del]

definition beacon_uuid_parse :: "str \<Rightarrow> (beacon_uuid, bt_config_error) result" where
  "beacon_uuid_parse source =
     (if length source \<noteq> 36 \<or> source ! 8 \<noteq> 0x2D \<or> source ! 13 \<noteq> 0x2D
         \<or> source ! 18 \<noteq> 0x2D \<or> source ! 23 \<noteq> 0x2D
      then Err InvalidBeaconUuid
      else case uuid_loop source 0 0 (replicate 16 0) of
             Inl e \<Rightarrow> Err e
           | Inr bytes \<Rightarrow> Ok (BeaconUuid bytes))"

fun uuid_display_from :: "nat \<Rightarrow> u8 list \<Rightarrow> str" where
  "uuid_display_from index [] = []"
| "uuid_display_from index (byte # rest) =
     (if index = 4 \<or> index = 6 \<or> index = 8 \<or> index = 10 then [0x2D] else [])
     @ fmt_02x byte @ uuid_display_from (index + 1) rest"

definition beacon_uuid_display :: "beacon_uuid \<Rightarrow> str" where
  "beacon_uuid_display u = uuid_display_from 0 (uuid_bytes u)"

subsection \<open>Advertising intervals\<close>

datatype advertising_interval = AdvertisingInterval (as_millis: u16)

definition MIN_MILLIS :: u16 where
  "MIN_MILLIS = 20"

definition MAX_MILLIS :: u16 where
  "MAX_MILLIS = 10240"

definition from_millis :: "u16 \<Rightarrow> (advertising_interval, bt_config_error) result" where
  "from_millis ms =
     (if ms < MIN_MILLIS \<or> ms > MAX_MILLIS then Err AdvertisingIntervalOutOfRange
      else Ok (AdvertisingInterval ms))"

definition advertising_interval_default :: advertising_interval where
  "advertising_interval_default = AdvertisingInterval 250"

subsection \<open>iBeacon frames\<close>

record ibeacon =
  ib_uuid :: beacon_uuid
  ib_major :: u16
  ib_minor :: u16
  ib_measured_power :: i8

definition ibeacon_new :: "beacon_uuid \<Rightarrow> u16 \<Rightarrow> u16 \<Rightarrow> i8 \<Rightarrow> ibeacon" where
  "ibeacon_new u ma mi mp =
     \<lparr>ib_uuid = u, ib_major = ma, ib_minor = mi, ib_measured_power = mp\<rparr>"

definition to_be_bytes :: "u16 \<Rightarrow> u8 list" where
  "to_be_bytes w = [ucast (drop_bit 8 w), ucast w]"

definition from_be_bytes :: "u8 \<Rightarrow> u8 \<Rightarrow> u16" where
  "from_be_bytes hi lo = push_bit 8 (ucast hi) OR ucast lo"

definition manufacturer_payload :: "ibeacon \<Rightarrow> u8 list" where
  "manufacturer_payload b =
     (let uuid = uuid_bytes (ib_uuid b);
          major = to_be_bytes (ib_major b);
          minor = to_be_bytes (ib_minor b)
      in [0x02, 0x15,
          uuid ! 0, uuid ! 1, uuid ! 2, uuid ! 3, uuid ! 4, uuid ! 5, uuid ! 6, uuid ! 7,
          uuid ! 8, uuid ! 9, uuid ! 10, uuid ! 11, uuid ! 12, uuid ! 13, uuid ! 14, uuid ! 15,
          major ! 0, major ! 1, minor ! 0, minor ! 1, ib_measured_power b])"

subsection \<open>Static random addresses\<close>

datatype static_random_address = StaticRandomAddress (sra_bytes: "u8 list")

definition from_seed :: "u8 list \<Rightarrow> static_random_address" where
  "from_seed seed0 =
     (let seed = seed0[0 := seed0 ! 0 OR 0xC0];
          all_zeroes = (seed ! 0 = 0xC0 \<and> seed ! 1 = 0 \<and> seed ! 2 = 0 \<and> seed ! 3 = 0
                        \<and> seed ! 4 = 0 \<and> seed ! 5 = 0);
          all_ones = (seed ! 0 = 0xFF \<and> seed ! 1 = 0xFF \<and> seed ! 2 = 0xFF \<and> seed ! 3 = 0xFF
                      \<and> seed ! 4 = 0xFF \<and> seed ! 5 = 0xFF)
      in StaticRandomAddress
           (if all_zeroes \<or> all_ones then seed[5 := seed ! 5 XOR 1] else seed))"

definition to_hci_bytes :: "static_random_address \<Rightarrow> u8 list" where
  "to_hci_bytes a =
     [sra_bytes a ! 5, sra_bytes a ! 4, sra_bytes a ! 3,
      sra_bytes a ! 2, sra_bytes a ! 1, sra_bytes a ! 0]"

definition sra_display :: "static_random_address \<Rightarrow> str" where
  "sra_display a =
     fmt_02X (sra_bytes a ! 0) @ [0x3A] @ fmt_02X (sra_bytes a ! 1) @ [0x3A]
     @ fmt_02X (sra_bytes a ! 2) @ [0x3A] @ fmt_02X (sra_bytes a ! 3) @ [0x3A]
     @ fmt_02X (sra_bytes a ! 4) @ [0x3A] @ fmt_02X (sra_bytes a ! 5)"

subsection \<open>Peripheral settings and lifecycle\<close>

record peripheral_config =
  pc_name :: device_name
  pc_address :: static_random_address

definition peripheral_config_new ::
  "device_name \<Rightarrow> static_random_address \<Rightarrow> peripheral_config" where
  "peripheral_config_new n a = \<lparr>pc_name = n, pc_address = a\<rparr>"

datatype bluetooth_state = BtDisabled | BtReady | BtAdvertising | BtConnected | BtFailed

subsection \<open>The ESP32-C6 controller adapter\<close>

text \<open>
  The controller's configuration belongs to the driver; what counts here is what an image
  sets of it, with \<^const>\<open>None\<close> where the driver's default stays. The constructor is the
  driver's too; it is the argument \<open>init\<close>, with the outcome of bringing the radio up.
\<close>

datatype controller_tx_power_level =
  N15 | N12 | N9 | N6 | N3 | N0 | P3 | P6 | P9 | P12 | P15 | P18 | P20

record controller_config =
  cc_max_connections :: "nat option"
  cc_default_tx_power :: "controller_tx_power_level option"

definition controller_config_default :: controller_config where
  "controller_config_default = \<lparr>cc_max_connections = None, cc_default_tx_power = None\<rparr>"

datatype 'e esp_bt_error = Controller 'e

fun esp_bt_error_display :: "('e \<Rightarrow> str) \<Rightarrow> 'e esp_bt_error \<Rightarrow> str" where
  "esp_bt_error_display show_init (Controller error) =
     lit ''ESP BLE controller init failed: '' @ show_init error"

record 'c esp32c6_bluetooth =
  eb_connector :: 'c
  eb_state :: bluetooth_state

definition esp_bt_new_with_config ::
  "(controller_config \<Rightarrow> ('c, 'e) result) \<Rightarrow> controller_config
   \<Rightarrow> ('c esp32c6_bluetooth, 'e esp_bt_error) result" where
  "esp_bt_new_with_config init config =
     (case init config of
        Inl e \<Rightarrow> Err (Controller e)
      | Inr connector \<Rightarrow> Ok \<lparr>eb_connector = connector, eb_state = BtReady\<rparr>)"

definition esp_bt_new ::
  "(controller_config \<Rightarrow> ('c, 'e) result) \<Rightarrow> ('c esp32c6_bluetooth, 'e esp_bt_error) result" where
  "esp_bt_new init = esp_bt_new_with_config init controller_config_default"

definition esp_bt_into_connector :: "'c esp32c6_bluetooth \<Rightarrow> 'c" where
  "esp_bt_into_connector b = eb_connector b"

definition esp_static_random_address :: "u8 list \<Rightarrow> static_random_address" where
  "esp_static_random_address mac = from_seed (copy_prefix (replicate 6 0) mac)"

subsection \<open>Specifications\<close>

text \<open>The reference reading of a UUID text: the pairs of digits with the dashes left out.\<close>

fun decode_pairs :: "u8 list \<Rightarrow> (u8 list, bt_config_error) result" where
  "decode_pairs (h # l # rest) =
     (case decode_hex h of
        Inl e \<Rightarrow> Err e
      | Inr high \<Rightarrow>
          (case decode_hex l of
             Inl e \<Rightarrow> Err e
           | Inr low \<Rightarrow>
               (case decode_pairs rest of
                  Inl e \<Rightarrow> Err e
                | Inr bs \<Rightarrow> Ok ((push_bit 4 high OR low) # bs))))"
| "decode_pairs _ = Ok []"

definition without_dashes :: "str \<Rightarrow> str" where
  "without_dashes s =
     take 8 s @ take 4 (drop 9 s) @ take 4 (drop 14 s) @ take 4 (drop 19 s) @ take 12 (drop 24 s)"

definition dashes_ok :: "str \<Rightarrow> bool" where
  "dashes_ok s \<longleftrightarrow>
     length s = 36 \<and> s ! 8 = 0x2D \<and> s ! 13 = 0x2D \<and> s ! 18 = 0x2D \<and> s ! 23 = 0x2D"

definition to_lower :: "u8 \<Rightarrow> u8" where
  "to_lower b = (if is_ascii_upper b then b + 0x20 else b)"

text \<open>
  What the Bluetooth Core specification asks of a static random address: six bytes, the two
  most significant bits set, and the 46 random bits neither all zero nor all one.
\<close>

definition static_random_valid :: "u8 list \<Rightarrow> bool" where
  "static_random_valid a \<longleftrightarrow>
     length a = 6 \<and> a ! 0 AND 0xC0 = 0xC0
     \<and> (a ! 0 AND 0x3F) # tl a \<noteq> replicate 6 0
     \<and> (a ! 0 AND 0x3F) # tl a \<noteq> 0x3F # replicate 5 0xFF"

section \<open>Lemmas\<close>

subsection \<open>Device names\<close>

definition device_name_accepts :: "str \<Rightarrow> bool" where
  "device_name_accepts v \<longleftrightarrow> v \<noteq> [] \<and> length v \<le> MAX_DEVICE_NAME_LEN"

lemma device_name_store:
  assumes "device_name_new v = Inr n"
  shows "take (unat (dn_len n)) (dn_bytes n) = v" "device_name_length n = length v"
  using assms
  by (auto simp: device_name_new_def device_name_length_def MAX_DEVICE_NAME_LEN_def unat_of_nat_id
      split: if_splits)

interpretation device_name_store: bounded_store MAX_DEVICE_NAME_LEN utf8_valid device_name_accepts
  device_name_new device_name_as_str device_name_length
  by unfold_locales
    (auto simp: device_name_store device_name_as_str_def,
     auto simp: device_name_accepts_def device_name_new_def split: if_splits)

subsection \<open>Hexadecimal text\<close>

lemma nibbles_join: "push_bit 4 (drop_bit 4 b) OR (b AND 0x0F) = b" for b :: u8
proof (rule bit_word_eqI)
  fix n assume n: "n < LENGTH(8)"
  have "(0x0F :: u8) = mask 4"
    by (simp add: mask_eq_exp_minus_1)
  then have "bit (0x0F :: u8) n \<longleftrightarrow> n < 4"
    using n by (simp only: bit_mask_iff) simp
  then show "bit (push_bit 4 (drop_bit 4 b) OR (b AND 0x0F)) n = bit b n"
    using n by (auto simp: bit_simps)
qed

lemma high_nibble_less: "drop_bit 4 b < (16 :: u8)" for b :: u8
proof -
  have "unat b < 256" using unsigned_less [of b] by simp
  then have "unat (drop_bit 4 b) < 16"
    by (simp only: unat_drop_bit_eq) (simp add: drop_bit_eq_div)
  then show ?thesis by (simp add: word_less_nat_alt)
qed

lemma low_nibble_less: "b AND 0x0F < (16 :: u8)" for b :: u8
proof -
  have "b AND 0x0F \<le> 0x0F" by (rule word_and_le1)
  then show ?thesis by (simp add: word_less_nat_alt word_le_nat_alt)
qed

lemma decode_hex_lower: "n < 16 \<Longrightarrow> decode_hex (hex_lower n) = Inr n"
proof -
  assume "n < 16"
  then have "unat n < 16" by (simp add: word_less_nat_alt)
  then show ?thesis
    by (auto simp: decode_hex_def hex_lower_def word_less_nat_alt word_le_nat_alt unat_word_ariths
        unat_sub_if_size word_size)
qed

lemma decode_pairs_fmt:
  "decode_pairs (fmt_02x b @ rest) =
     (case decode_pairs rest of Inl e \<Rightarrow> Err e | Inr bs \<Rightarrow> Ok (b # bs))"
  by (simp add: fmt_02x_def decode_hex_lower high_nibble_less low_nibble_less nibbles_join
      split: sum.splits)

lemma decode_pairs_append:
  "even (length xs) \<Longrightarrow>
     decode_pairs (xs @ ys) =
       (case decode_pairs xs of
          Inl e \<Rightarrow> Err e
        | Inr bs \<Rightarrow> (case decode_pairs ys of Inl e \<Rightarrow> Err e | Inr cs \<Rightarrow> Ok (bs @ cs)))"
  by (induction xs rule: decode_pairs.induct) (auto split: sum.splits)

lemma decode_pairs_length: "decode_pairs xs = Inr bs \<Longrightarrow> length bs = length xs div 2"
  by (induction xs arbitrary: bs rule: decode_pairs.induct) (auto split: sum.splits)

subsection \<open>The UUID loop\<close>

lemma take_two_drop:
  "si + 1 < length src \<Longrightarrow>
     take (2 * Suc n) (drop si src) = src ! si # src ! (si + 1) # take (2 * n) (drop (si + 2) src)"
  by (simp add: Cons_nth_drop_Suc [symmetric])

lemma update_splice:
  "bi < length bytes \<Longrightarrow>
     take (bi + 1) (bytes[bi := x]) @ bs @ drop (bi + 1 + n) (bytes[bi := x])
       = take bi bytes @ (x # bs) @ drop (bi + Suc n) bytes"
  by (simp add: take_Suc_conv_app_nth)

text \<open>A run of \<open>n\<close> pairs without a dash position in between is decoded pair by pair.\<close>

lemma uuid_loop_pairs:
  assumes "\<forall>i \<in> {si..<si + 2 * n}. \<not> is_dash_index i"
    and "si + 2 * n \<le> length src" and "bi + n \<le> length bytes"
  shows "uuid_loop src si bi bytes =
     (case decode_pairs (take (2 * n) (drop si src)) of
        Inl e \<Rightarrow> Err e
      | Inr bs \<Rightarrow> uuid_loop src (si + 2 * n) (bi + n) (take bi bytes @ bs @ drop (bi + n) bytes))"
  using assms
proof (induction n arbitrary: si bi bytes)
  case (Suc n)
  let ?b = "\<lambda>x. bytes[bi := x]"
  have si: "si + 1 < length src" "\<not> is_dash_index si" and bi: "bi < length bytes"
    using Suc.prems by auto
  have step: "uuid_loop src si bi bytes =
      (case decode_hex (src ! si) of
         Inl e \<Rightarrow> Err e
       | Inr high \<Rightarrow>
           (case decode_hex (src ! (si + 1)) of
              Inl e \<Rightarrow> Err e
            | Inr low \<Rightarrow> uuid_loop src (si + 2) (bi + 1) (?b (push_bit 4 high OR low))))"
    using si by (subst uuid_loop.simps) simp
  have IH: "uuid_loop src (si + 2) (bi + 1) (?b x) =
     (case decode_pairs (take (2 * n) (drop (si + 2) src)) of
        Inl e \<Rightarrow> Err e
      | Inr bs \<Rightarrow> uuid_loop src (si + 2 * Suc n) (bi + Suc n)
          (take bi bytes @ (x # bs) @ drop (bi + Suc n) bytes))" for x
    using Suc.IH [of "si + 2" "bi + 1" "?b x"] Suc.prems
    by (simp only: update_splice [OF bi]) (auto simp: ac_simps split: sum.splits)
  show ?case
    unfolding step IH take_two_drop [OF si(1)] by (auto split: sum.splits)
qed simp

lemma uuid_loop_dash:
  "is_dash_index si \<Longrightarrow> si < length src \<Longrightarrow> uuid_loop src si bi bytes = uuid_loop src (si + 1) bi bytes"
  by (subst uuid_loop.simps) simp

lemma uuid_loop_end: "length src \<le> si \<Longrightarrow> uuid_loop src si bi bytes = Inr bytes"
  by (subst uuid_loop.simps) simp

text \<open>
  One group followed by the rest of the text: if from the end of the group on the loop
  appends what \<open>decode_pairs\<close> reads in \<open>rest\<close>, then from its start it appends what
  \<open>decode_pairs\<close> reads in the group and \<open>rest\<close>.
\<close>

definition appended :: "(u8 list, bt_config_error) result \<Rightarrow> u8 list \<Rightarrow> (u8 list, bt_config_error) result" where
  "appended r acc = (case r of Inl e \<Rightarrow> Err e | Inr cs \<Rightarrow> Ok (acc @ cs))"

lemma uuid_group:
  assumes "\<forall>i \<in> {si..<si + 2 * n}. \<not> is_dash_index i" and "si + 2 * n \<le> length src" and "n \<le> m"
    and rest: "\<And>acc. length acc = bi + n \<Longrightarrow>
      uuid_loop src (si + 2 * n) (bi + n) (acc @ replicate (m - n) 0) = appended (decode_pairs rest) acc"
    and "length acc = bi"
  shows "uuid_loop src si bi (acc @ replicate m 0) =
      appended (decode_pairs (take (2 * n) (drop si src) @ rest)) acc"
proof -
  let ?grp = "take (2 * n) (drop si src)"
  have even: "even (length ?grp)" and len: "length ?grp = 2 * n"
    using assms(2) by simp_all
  have loop: "uuid_loop src si bi (acc @ replicate m 0) =
     (case decode_pairs ?grp of
        Inl e \<Rightarrow> Err e
      | Inr bs \<Rightarrow> uuid_loop src (si + 2 * n) (bi + n)
          (take bi (acc @ replicate m 0) @ bs @ drop (bi + n) (acc @ replicate m 0)))"
    using assms by (intro uuid_loop_pairs) simp_all
  show ?thesis
  proof (cases "decode_pairs ?grp")
    case (Inl e)
    then show ?thesis
      unfolding loop by (simp add: decode_pairs_append [OF even] appended_def)
  next
    case (Inr bs)
    then have bs: "length (acc @ bs) = bi + n"
      using decode_pairs_length [OF Inr] len assms(5) by simp
    have "take bi (acc @ replicate m 0) @ bs @ drop (bi + n) (acc @ replicate m 0)
        = (acc @ bs) @ replicate (m - n) 0"
      using assms(3,5) by simp
    then show ?thesis
      unfolding loop using Inr rest [OF bs]
      by (simp add: decode_pairs_append [OF even] appended_def split: sum.splits)
  qed
qed

lemma uuid_loop_groups:
  assumes "dashes_ok src"
  shows "uuid_loop src 0 0 (replicate 16 0) = decode_pairs (without_dashes src)"
proof -
  let ?t = "\<lambda>n i. take n (drop i src)"
  have len: "length src = 36"
    using assms by (simp add: dashes_ok_def)
  have dash: "uuid_loop src i bi b = uuid_loop src (i + 1) bi b"
    if "i = 8 \<or> i = 13 \<or> i = 18 \<or> i = 23" for i bi b
    using that len by (intro uuid_loop_dash) (auto simp: is_dash_index_def)
  have g5: "uuid_loop src 24 10 (acc @ replicate 6 0) = appended (decode_pairs (?t 12 24)) acc"
    if "length acc = 10" for acc
    using uuid_group [of 24 6 src 6 10 "[]" acc] that len
    by (simp add: uuid_loop_end appended_def is_dash_index_def)
  have g4: "uuid_loop src 19 8 (acc @ replicate 8 0) =
      appended (decode_pairs (?t 4 19 @ ?t 12 24)) acc" if "length acc = 8" for acc
    using uuid_group [of 19 2 src 8 8 "?t 12 24" acc] that len g5 dash [of 23]
    by (simp add: is_dash_index_def)
  have g3: "uuid_loop src 14 6 (acc @ replicate 10 0) =
      appended (decode_pairs (?t 4 14 @ ?t 4 19 @ ?t 12 24)) acc" if "length acc = 6" for acc
    using uuid_group [of 14 2 src 10 6 "?t 4 19 @ ?t 12 24" acc] that len g4 dash [of 18]
    by (simp add: is_dash_index_def)
  have g2: "uuid_loop src 9 4 (acc @ replicate 12 0) =
      appended (decode_pairs (?t 4 9 @ ?t 4 14 @ ?t 4 19 @ ?t 12 24)) acc" if "length acc = 4" for acc
    using uuid_group [of 9 2 src 12 4 "?t 4 14 @ ?t 4 19 @ ?t 12 24" acc] that len g3 dash [of 13]
    by (simp add: is_dash_index_def)
  have "uuid_loop src 0 0 ([] @ replicate 16 0) =
      appended (decode_pairs (take 8 src @ ?t 4 9 @ ?t 4 14 @ ?t 4 19 @ ?t 12 24)) []"
    using uuid_group [of 0 4 src 16 0 "?t 4 9 @ ?t 4 14 @ ?t 4 19 @ ?t 12 24" "[]"] len g2 dash [of 8]
    by (simp add: is_dash_index_def)
  then show ?thesis
    by (simp add: without_dashes_def appended_def split: sum.splits)
qed

subsection \<open>Text form of a UUID\<close>

definition with_dashes :: "str \<Rightarrow> str" where
  "with_dashes w =
     take 8 w @ 0x2D # take 4 (drop 8 w) @ 0x2D # take 4 (drop 12 w) @ 0x2D
     # take 4 (drop 16 w) @ 0x2D # drop 20 w"

lemma parse_reference:
  "beacon_uuid_parse s =
     (if dashes_ok s
      then (case decode_pairs (without_dashes s) of
              Inl e \<Rightarrow> Err e
            | Inr bytes \<Rightarrow> Ok (BeaconUuid bytes))
      else Err InvalidBeaconUuid)"
  by (auto simp: beacon_uuid_parse_def dashes_ok_def uuid_loop_groups)

lemma length_16: "length xs = 16 \<Longrightarrow> \<exists>a b c d e f g h i j k l m n p q. xs = [a, b, c, d, e, f, g, h, i, j, k, l, m, n, p, q]"
  by (auto simp: numeral_eq_Suc length_Suc_conv)

lemma display_with_dashes:
  assumes "length bs = 16"
  shows "uuid_display_from 0 bs = with_dashes (concat (map fmt_02x bs))"
  using length_16 [OF assms] by (auto simp: with_dashes_def fmt_02x_def)

lemma split_at_dashes:
  assumes "dashes_ok s"
  shows "with_dashes (without_dashes s) = s"
proof -
  have len: "length s = 36" and d: "s ! 8 = 0x2D" "s ! 13 = 0x2D" "s ! 18 = 0x2D" "s ! 23 = 0x2D"
    using assms by (simp_all add: dashes_ok_def)
  have cut: "drop i s = take n (drop i s) @ s ! (i + n) # drop (i + n + 1) s" if "i + n < 36" for i n
    using that len append_take_drop_id [of n "drop i s", symmetric]
    by (simp add: Cons_nth_drop_Suc add.commute)
  have "s = take 8 s @ 0x2D # take 4 (drop 9 s) @ 0x2D # take 4 (drop 14 s) @ 0x2D
      # take 4 (drop 19 s) @ 0x2D # drop 24 s"
    using cut [of 0 8] cut [of 9 4] cut [of 14 4] cut [of 19 4] d by simp
  then show ?thesis
    using len by (simp add: with_dashes_def without_dashes_def)
qed

lemma dashes_inserted:
  assumes "length w = 32"
  shows "dashes_ok (with_dashes w)" "without_dashes (with_dashes w) = w"
proof -
  have parts: "w = take 8 w @ take 4 (drop 8 w) @ take 4 (drop 12 w) @ take 4 (drop 16 w) @ drop 20 w"
    using append_take_drop_id [of 8 w] append_take_drop_id [of 4 "drop 8 w"]
      append_take_drop_id [of 4 "drop 12 w"] append_take_drop_id [of 4 "drop 16 w"] by simp
  show "dashes_ok (with_dashes w)"
    using assms by (simp add: dashes_ok_def with_dashes_def nth_append)
  have "without_dashes (with_dashes w) =
      take 8 w @ take 4 (drop 8 w) @ take 4 (drop 12 w) @ take 4 (drop 16 w) @ drop 20 w"
    using assms by (simp add: without_dashes_def with_dashes_def)
  with parts show "without_dashes (with_dashes w) = w" by simp
qed

lemma decode_pairs_fmt_all: "decode_pairs (concat (map fmt_02x bs)) = Inr bs"
  by (induction bs) (simp_all add: decode_pairs_fmt)

lemma decode_hex_ok:
  assumes "decode_hex c = Inr n"
  shows "n < 16" "hex_lower n = to_lower c"
proof -
  have c: "unat c < 256" using unsigned_less [of c] by simp
  show "n < 16" "hex_lower n = to_lower c"
    using assms c
    by (auto simp: decode_hex_def hex_lower_def to_lower_def is_ascii_upper_def word_less_nat_alt
        word_le_nat_alt unat_word_ariths unat_sub_if_size word_size split: if_splits)
qed

lemma nibbles_split:
  assumes "h < 16" "l < (16 :: u8)"
  shows "drop_bit 4 (push_bit 4 h OR l) = h" "(push_bit 4 h OR l) AND 0x0F = l"
proof -
  have low: "bit x n \<Longrightarrow> n < 4" if "x < 16" for x :: u8 and n
  proof -
    have "take_bit 4 x = x"
    proof (rule word_unat_eq_iff [THEN iffD2])
      have "unat x < 2 ^ 4" using that by (simp add: word_less_nat_alt)
      then show "unat (take_bit 4 x) = unat x"
        by (simp add: unsigned_take_bit_eq take_bit_nat_eq_self)
    qed
    then show "bit x n \<Longrightarrow> n < 4"
      by (metis bit_take_bit_iff)
  qed
  have m: "(0x0F :: u8) = mask 4"
    by (simp add: mask_eq_exp_minus_1)
  have mask: "bit (0x0F :: u8) n \<longleftrightarrow> n < 4" if "n < 8" for n
    using that by (simp only: m bit_mask_iff) simp
  show "drop_bit 4 (push_bit 4 h OR l) = h"
    by (rule bit_word_eqI) (auto simp: bit_simps dest: low [OF assms(1)] low [OF assms(2)])
  show "(push_bit 4 h OR l) AND 0x0F = l"
  proof (rule bit_word_eqI)
    fix n assume "n < LENGTH(8)"
    then have n: "n < 8" by simp
    show "bit ((push_bit 4 h OR l) AND 0x0F) n = bit l n"
      using low [OF assms(2), of n] mask [OF n] n by (auto simp: bit_simps)
  qed
qed

lemma fmt_nibbles:
  "h < 16 \<Longrightarrow> l < 16 \<Longrightarrow> fmt_02x (push_bit 4 h OR l) = [hex_lower h, hex_lower l]"
  by (simp only: fmt_02x_def nibbles_split)

lemma decode_pairs_lower:
  "decode_pairs xs = Inr bs \<Longrightarrow> even (length xs) \<Longrightarrow> concat (map fmt_02x bs) = map to_lower xs"
proof (induction xs arbitrary: bs rule: decode_pairs.induct)
  case (1 h l rest)
  then obtain hi lo cs where "decode_hex h = Inr hi" "decode_hex l = Inr lo"
    "decode_pairs rest = Inr cs" "bs = (push_bit 4 hi OR lo) # cs"
    by (auto split: sum.splits)
  with 1 show ?case
    by (simp add: fmt_nibbles decode_hex_ok)
qed auto

lemma map_to_lower_dashes: "map to_lower (with_dashes w) = with_dashes (map to_lower w)"
  by (simp add: with_dashes_def take_map drop_map to_lower_def is_ascii_upper_def)

lemma length_without_dashes: "dashes_ok s \<Longrightarrow> length (without_dashes s) = 32"
  by (simp add: dashes_ok_def without_dashes_def)

subsection \<open>Byte order\<close>

lemma be_bytes_join: "from_be_bytes (ucast (drop_bit 8 w)) (ucast w) = w"
  unfolding from_be_bytes_def by (rule bit_word_eqI) (auto simp: bit_simps)

lemma length_to_be_bytes: "length (to_be_bytes w) = 2"
  by (simp add: to_be_bytes_def)

subsection \<open>Static random addresses\<close>

lemma replicate_bytes:
  "replicate 6 x = [x, x, x, x, x, x]" "replicate 5 x = [x, x, x, x, x]"
  by (simp_all add: numeral_eq_Suc)

lemma length_6: "length xs = 6 \<Longrightarrow> \<exists>a b c d e f. xs = [a, b, c, d, e, f]"
  by (auto simp: numeral_eq_Suc length_Suc_conv)

lemma index_8: "n < 8 \<Longrightarrow> n = 0 \<or> n = 1 \<or> n = 2 \<or> n = 3 \<or> n = 4 \<or> n = 5 \<or> n = 6 \<or> n = (7 :: nat)"
  by linarith

lemma type_bits:
  "(x OR 0xC0) AND 0xC0 = (0xC0 :: u8)"
  "(x OR 0xC0) AND 0x3F = x AND (0x3F :: u8)"
  by (rule bit_word_eqI; fastforce dest: index_8 simp: bit_simps)+

lemma type_bits_set: "x AND 0xC0 = 0xC0 \<Longrightarrow> x OR 0xC0 = (x :: u8)"
  by (metis word_ao_absorbs(8) or.commute)

lemma type_bits_low: "x OR 0xC0 = (x AND 0x3F) OR (0xC0 :: u8)"
  by (rule bit_word_eqI; fastforce dest: index_8 simp: bit_simps)

lemma random_part_zero: "x OR 0xC0 = (0xC0 :: u8) \<longleftrightarrow> x AND 0x3F = 0"
proof
  assume "x OR 0xC0 = 0xC0"
  then have "(x OR 0xC0) AND 0x3F = 0xC0 AND (0x3F :: u8)" by simp
  then show "x AND 0x3F = 0" by (simp only: type_bits) simp
next
  assume "x AND 0x3F = 0"
  then show "x OR 0xC0 = 0xC0" by (simp only: type_bits_low [of x]) simp
qed

lemma random_part_ones: "x OR 0xC0 = (0xFF :: u8) \<longleftrightarrow> x AND 0x3F = 0x3F"
proof
  assume "x OR 0xC0 = 0xFF"
  then have "(x OR 0xC0) AND 0x3F = 0xFF AND (0x3F :: u8)" by simp
  then show "x AND 0x3F = 0x3F" by (simp only: type_bits) simp
next
  assume "x AND 0x3F = 0x3F"
  then show "x OR 0xC0 = 0xFF" by (simp only: type_bits_low [of x]) simp
qed

lemma from_seed_cases:
  "sra_bytes (from_seed [a, b, c, d, e, f]) =
     (if (a AND 0x3F = 0 \<and> b = 0 \<and> c = 0 \<and> d = 0 \<and> e = 0 \<and> f = 0)
         \<or> (a AND 0x3F = 0x3F \<and> b = 0xFF \<and> c = 0xFF \<and> d = 0xFF \<and> e = 0xFF \<and> f = 0xFF)
      then [a OR 0xC0, b, c, d, e, f XOR 1]
      else [a OR 0xC0, b, c, d, e, f])"
  by (simp add: from_seed_def Let_def random_part_zero random_part_ones)

lemma from_seed_valid:
  assumes "length seed = 6"
  shows "static_random_valid (sra_bytes (from_seed seed))"
proof -
  obtain a b c d e f where s: "seed = [a, b, c, d, e, f]"
    using length_6 [OF assms] by blast
  show ?thesis
    unfolding s from_seed_cases by (auto simp: static_random_valid_def type_bits replicate_bytes)
qed

lemma from_seed_keeps:
  assumes "static_random_valid a"
  shows "from_seed a = StaticRandomAddress a"
proof -
  obtain p q r s t u where a: "a = [p, q, r, s, t, u]"
    using length_6 assms unfolding static_random_valid_def by blast
  with assms have "p OR 0xC0 = p"
    using type_bits_set [of p] by (simp add: static_random_valid_def)
  with assms have "sra_bytes (from_seed a) = a"
    unfolding a from_seed_cases by (auto simp: static_random_valid_def replicate_bytes)
  then show ?thesis
    by (metis static_random_address.collapse)
qed

section \<open>Properties\<close>

text \<open>
  Parsing and printing beacon UUIDs are inverse: every 16-byte UUID is parsed back from
  its printed form, and every text the parser accepts prints as the same text in lower case.
\<close>

lemma beacon_uuid_roundtrip:
  "(length bytes = 16 \<longrightarrow>
      beacon_uuid_parse (beacon_uuid_display (BeaconUuid bytes)) = Inr (BeaconUuid bytes))
   \<and> (beacon_uuid_parse s = Inr u \<longrightarrow>
      length (uuid_bytes u) = 16 \<and> beacon_uuid_display u = map to_lower s)"
proof (intro conjI impI)
  assume len: "length bytes = 16"
  have c: "length (concat (map fmt_02x bytes)) = 32"
    using length_16 [OF len] by (auto simp: fmt_02x_def)
  show "beacon_uuid_parse (beacon_uuid_display (BeaconUuid bytes)) = Inr (BeaconUuid bytes)"
    by (simp add: parse_reference beacon_uuid_display_def display_with_dashes [OF len]
        dashes_inserted [OF c] decode_pairs_fmt_all)
next
  assume "beacon_uuid_parse s = Inr u"
  then obtain bs where d: "dashes_ok s" and bs: "decode_pairs (without_dashes s) = Inr bs"
    and u: "u = BeaconUuid bs"
    by (auto simp: parse_reference split: if_splits sum.splits)
  have len: "length bs = 16"
    using decode_pairs_length [OF bs] length_without_dashes [OF d] by simp
  have "concat (map fmt_02x bs) = map to_lower (without_dashes s)"
    using bs length_without_dashes [OF d] by (intro decode_pairs_lower) simp_all
  then show "length (uuid_bytes u) = 16" "beacon_uuid_display u = map to_lower s"
    using len by (simp_all add: u beacon_uuid_display_def display_with_dashes
        map_to_lower_dashes [symmetric] split_at_dashes [OF d])
qed

lemma decode_hex_hexdigit: "is_ok (decode_hex c) \<longleftrightarrow> is_ascii_hexdigit c"
  by (auto simp: decode_hex_def is_ascii_hexdigit_def is_ascii_digit_def)

lemma decode_pairs_hexdigits:
  "even (length xs) \<Longrightarrow> is_ok (decode_pairs xs) \<longleftrightarrow> list_all is_ascii_hexdigit xs"
proof (induction xs rule: decode_pairs.induct)
  case (1 h l rest)
  then show ?case
    using decode_hex_hexdigit [of h] decode_hex_hexdigit [of l]
    by (cases "decode_hex h"; cases "decode_hex l"; cases "decode_pairs rest") simp_all
qed simp_all

lemma decode_hex_error: "decode_hex c = Inl e \<Longrightarrow> e = InvalidBeaconUuid"
  by (auto simp: decode_hex_def split: if_splits)

lemma decode_pairs_error: "decode_pairs xs = Inl e \<Longrightarrow> e = InvalidBeaconUuid"
  by (induction xs rule: decode_pairs.induct) (auto dest: decode_hex_error split: sum.splits)

text \<open>
  The UUID parser accepts exactly the canonical 8-4-4-4-12 texts: 36 bytes with dashes
  at the four positions and hexadecimal digits everywhere else. Any other input is the
  error \<open>InvalidBeaconUuid\<close>.
\<close>

lemma beacon_uuid_accepts:
  "(is_ok (beacon_uuid_parse s) \<longleftrightarrow>
      length s = 36 \<and> s ! 8 = 0x2D \<and> s ! 13 = 0x2D \<and> s ! 18 = 0x2D \<and> s ! 23 = 0x2D
      \<and> list_all is_ascii_hexdigit
          (take 8 s @ take 4 (drop 9 s) @ take 4 (drop 14 s) @ take 4 (drop 19 s) @ drop 24 s))
   \<and> (is_ok (beacon_uuid_parse s) \<or> beacon_uuid_parse s = Inl InvalidBeaconUuid)"
proof
  have ok: "is_ok (beacon_uuid_parse s) \<longleftrightarrow> dashes_ok s \<and> list_all is_ascii_hexdigit (without_dashes s)"
    using decode_pairs_hexdigits [of "without_dashes s"] length_without_dashes [of s]
    by (auto simp: parse_reference is_ok_iff split: sum.splits)
  show "is_ok (beacon_uuid_parse s) \<longleftrightarrow>
      length s = 36 \<and> s ! 8 = 0x2D \<and> s ! 13 = 0x2D \<and> s ! 18 = 0x2D \<and> s ! 23 = 0x2D
      \<and> list_all is_ascii_hexdigit
          (take 8 s @ take 4 (drop 9 s) @ take 4 (drop 14 s) @ take 4 (drop 19 s) @ drop 24 s)"
    unfolding ok by (auto simp: dashes_ok_def without_dashes_def)
  show "is_ok (beacon_uuid_parse s) \<or> beacon_uuid_parse s = Inl InvalidBeaconUuid"
    by (cases "decode_pairs (without_dashes s)") (auto simp: parse_reference dest: decode_pairs_error)
qed

text \<open>
  An iBeacon frame is the iBeacon prefix, the UUID, the big-endian major and minor
  values and the power byte, 23 bytes in all, and every field is recovered from it: two
  frames with 16-byte UUIDs and the same payload are equal.
\<close>

lemma ibeacon_payload_layout:
  assumes "length (uuid_bytes (ib_uuid b)) = 16" and "length (uuid_bytes (ib_uuid c)) = 16"
  shows "manufacturer_payload b =
      [0x02, 0x15] @ uuid_bytes (ib_uuid b) @ to_be_bytes (ib_major b) @ to_be_bytes (ib_minor b)
      @ [ib_measured_power b]
    \<and> length (manufacturer_payload b) = IBEACON_PAYLOAD_LEN
    \<and> from_be_bytes (manufacturer_payload b ! 18) (manufacturer_payload b ! 19) = ib_major b
    \<and> from_be_bytes (manufacturer_payload b ! 20) (manufacturer_payload b ! 21) = ib_minor b
    \<and> (manufacturer_payload b = manufacturer_payload c \<longleftrightarrow> b = c)"
proof (intro conjI)
  have layout: "manufacturer_payload x =
      [0x02, 0x15] @ uuid_bytes (ib_uuid x) @ to_be_bytes (ib_major x) @ to_be_bytes (ib_minor x)
      @ [ib_measured_power x]" if "length (uuid_bytes (ib_uuid x)) = 16" for x :: ibeacon
    using length_16 [OF that] by (auto simp: manufacturer_payload_def Let_def to_be_bytes_def)
  show "manufacturer_payload b =
      [0x02, 0x15] @ uuid_bytes (ib_uuid b) @ to_be_bytes (ib_major b) @ to_be_bytes (ib_minor b)
      @ [ib_measured_power b]"
    by (rule layout [OF assms(1)])
  show "length (manufacturer_payload b) = IBEACON_PAYLOAD_LEN"
    by (simp add: manufacturer_payload_def Let_def IBEACON_PAYLOAD_LEN_def)
  show "from_be_bytes (manufacturer_payload b ! 18) (manufacturer_payload b ! 19) = ib_major b"
    "from_be_bytes (manufacturer_payload b ! 20) (manufacturer_payload b ! 21) = ib_minor b"
    by (simp_all add: manufacturer_payload_def Let_def to_be_bytes_def be_bytes_join)
  have be: "to_be_bytes v = to_be_bytes w \<longleftrightarrow> v = w" for v w
    by (metis be_bytes_join list.inject to_be_bytes_def)
  show "manufacturer_payload b = manufacturer_payload c \<longleftrightarrow> b = c"
    unfolding layout [OF assms(1)] layout [OF assms(2)] using assms
    by (cases b; cases c) (auto simp: be length_to_be_bytes intro: beacon_uuid.expand)
qed

text \<open>
  Every six-byte seed yields a valid static random address (type bits set, random part
  neither all zero nor all one), a seed that already is one is kept, the random part of the
  seed is kept unless it is degenerate, and the HCI order is the reverse of the canonical
  order.
\<close>

lemma static_random_address_valid:
  assumes "length seed = 6"
  shows "static_random_valid (sra_bytes (from_seed seed))
    \<and> (static_random_valid seed \<longrightarrow> from_seed seed = StaticRandomAddress seed)
    \<and> (static_random_valid ((seed ! 0 OR 0xC0) # tl seed) \<longrightarrow>
         sra_bytes (from_seed seed) = (seed ! 0 OR 0xC0) # tl seed)
    \<and> to_hci_bytes (from_seed seed) = rev (sra_bytes (from_seed seed))"
proof -
  obtain a b c d e f where s: "seed = [a, b, c, d, e, f]"
    using length_6 [OF assms] by blast
  have "sra_bytes (from_seed seed) = (seed ! 0 OR 0xC0) # tl seed"
    if "static_random_valid ((seed ! 0 OR 0xC0) # tl seed)"
    using that unfolding s from_seed_cases
    by (auto simp: static_random_valid_def type_bits replicate_bytes)
  moreover have "to_hci_bytes (from_seed seed) = rev (sra_bytes (from_seed seed))"
    unfolding s to_hci_bytes_def from_seed_cases by simp
  ultimately show ?thesis
    using from_seed_keeps from_seed_valid [OF assms] by blast
qed

text \<open>
  Device names and advertising intervals are what was validated: a UTF-8 name is
  accepted exactly when it has 1 to 22 bytes and is then returned unchanged, and an interval
  is accepted exactly between 20 and 10240 milliseconds and is then returned unchanged.
\<close>

lemma bluetooth_values_validated:
  assumes "utf8_valid v"
  shows "(is_ok (device_name_new v) \<longleftrightarrow> length v \<in> {1..22})
    \<and> (device_name_new v = Inr n \<longrightarrow> device_name_as_str n = v \<and> device_name_length n = length v)
    \<and> (is_ok (from_millis ms) \<longleftrightarrow> unat ms \<in> {20..10240})
    \<and> (from_millis ms = Inr i \<longrightarrow> as_millis i = ms)"
proof (intro conjI impI)
  have "1 \<le> length v \<longleftrightarrow> v \<noteq> []" by (cases v) simp_all
  then show "is_ok (device_name_new v) \<longleftrightarrow> length v \<in> {1..22}"
    by (simp add: device_name_store.new_accepts device_name_accepts_def MAX_DEVICE_NAME_LEN_def)
  show "device_name_as_str n = v" "device_name_length n = length v" if "device_name_new v = Inr n"
    using device_name_store.contents_new [OF assms that] device_name_store.len_new [OF that] by simp_all
  show "is_ok (from_millis ms) \<longleftrightarrow> unat ms \<in> {20..10240}"
    by (auto simp: from_millis_def MIN_MILLIS_def MAX_MILLIS_def word_less_nat_alt)
  show "as_millis i = ms" if "from_millis ms = Inr i"
    using that by (auto simp: from_millis_def split: if_splits)
qed

text \<open>
  C26. Beacon UUIDs have one canonical text: a text is accepted exactly when it has 36 bytes
  with dashes at positions 8, 13, 18 and 23 and hexadecimal digits everywhere else, and every
  other text is rejected with the one error; printing 16 bytes and parsing the text gives the
  bytes back, and printing a parsed UUID gives the text in lower case.
\<close>

theorem beacon_uuid_codec:
  "(is_ok (beacon_uuid_parse s) \<longleftrightarrow>
      length s = 36 \<and> s ! 8 = 0x2D \<and> s ! 13 = 0x2D \<and> s ! 18 = 0x2D \<and> s ! 23 = 0x2D
      \<and> list_all is_ascii_hexdigit
          (take 8 s @ take 4 (drop 9 s) @ take 4 (drop 14 s) @ take 4 (drop 19 s) @ drop 24 s))
   \<and> (is_ok (beacon_uuid_parse s) \<or> beacon_uuid_parse s = Inl InvalidBeaconUuid)
   \<and> (length bytes = 16 \<longrightarrow>
        beacon_uuid_parse (beacon_uuid_display (BeaconUuid bytes)) = Inr (BeaconUuid bytes))
   \<and> (beacon_uuid_parse s = Inr u \<longrightarrow>
        length (uuid_bytes u) = 16 \<and> beacon_uuid_display u = map to_lower s)"
  using beacon_uuid_accepts [of s] beacon_uuid_roundtrip [of bytes s u] by blast

theorem beacon_uuid_codec_witness:
  "beacon_uuid_parse (beacon_uuid_display (BeaconUuid (replicate 16 0xA5))) = Inr (BeaconUuid (replicate 16 0xA5))"
  using beacon_uuid_codec [of "[]" "replicate 16 0xA5"] by simp

end
