(* ===== verification/Networking.thy ===== *)
theory Networking
  imports Rust_Str
begin

text \<open>
  \<open>crates/networking\<close> (link and IPv4 state) and \<open>crates/networking-embassy-net\<close> (the
  adapter from the Embassy stack). The stack is third-party code: what the adapter reads
  from it (link state, configuration, DNS answers) are arguments of the definitions.
\<close>

section \<open>Definitions\<close>

subsection \<open>crates/networking\<close>

text \<open>\<open>core::net::Ipv4Addr\<close>, as its 32 bits.\<close>

type_synonym ipv4_addr = u32

definition UNSPECIFIED :: ipv4_addr where
  "UNSPECIFIED = 0"

definition MAX_DNS_SERVERS :: nat where
  "MAX_DNS_SERVERS = 3"

datatype net_config_error = InvalidIpv4PrefixLength | TooManyDnsServers

fun net_config_error_display :: "net_config_error \<Rightarrow> str" where
  "net_config_error_display InvalidIpv4PrefixLength = lit ''IPv4 prefix length exceeds 32 bits''"
| "net_config_error_display TooManyDnsServers = lit ''too many IPv4 DNS servers''"

datatype link_state = Down | Up

record dns_servers =
  ds_addresses :: "ipv4_addr list"
  ds_len :: u8

definition dns_servers_new :: "ipv4_addr list \<Rightarrow> (dns_servers, net_config_error) result" where
  "dns_servers_new addresses =
     (if length addresses > MAX_DNS_SERVERS then Err TooManyDnsServers
      else Ok \<lparr>ds_addresses = copy_prefix (replicate MAX_DNS_SERVERS UNSPECIFIED) addresses,
               ds_len = of_nat (length addresses)\<rparr>)"

definition dns_as_slice :: "dns_servers \<Rightarrow> ipv4_addr list" where
  "dns_as_slice d = take (unat (ds_len d)) (ds_addresses d)"

definition dns_len :: "dns_servers \<Rightarrow> nat" where
  "dns_len d = unat (ds_len d)"

definition dns_is_empty :: "dns_servers \<Rightarrow> bool" where
  "dns_is_empty d \<longleftrightarrow> ds_len d = 0"

definition dns_servers_default :: dns_servers where
  "dns_servers_default =
     \<lparr>ds_addresses = replicate MAX_DNS_SERVERS UNSPECIFIED, ds_len = 0\<rparr>"

record ipv4_configuration =
  ic_address :: ipv4_addr
  ic_prefix_len :: u8
  ic_gateway :: "ipv4_addr option"
  ic_dns_servers :: dns_servers

definition ipv4_configuration_new ::
  "ipv4_addr \<Rightarrow> u8 \<Rightarrow> ipv4_addr option \<Rightarrow> dns_servers
   \<Rightarrow> (ipv4_configuration, net_config_error) result" where
  "ipv4_configuration_new address prefix_len gateway dns =
     (if prefix_len > 32 then Err InvalidIpv4PrefixLength
      else Ok \<lparr>ic_address = address, ic_prefix_len = prefix_len, ic_gateway = gateway,
               ic_dns_servers = dns\<rparr>)"

record network_snapshot =
  ns_link :: link_state
  ns_ipv4 :: "ipv4_configuration option"

definition network_snapshot_new :: "link_state \<Rightarrow> ipv4_configuration option \<Rightarrow> network_snapshot" where
  "network_snapshot_new link ipv4 = \<lparr>ns_link = link, ns_ipv4 = ipv4\<rparr>"

definition is_ip_ready :: "network_snapshot \<Rightarrow> bool" where
  "is_ip_ready s \<longleftrightarrow> ns_link s = Up \<and> ns_ipv4 s \<noteq> None"

definition is_dns_ready :: "network_snapshot \<Rightarrow> bool" where
  "is_dns_ready s \<longleftrightarrow>
     (case ns_ipv4 s of
        Some configuration \<Rightarrow> is_ip_ready s \<and> \<not> dns_is_empty (ic_dns_servers configuration)
      | None \<Rightarrow> False)"

subsection \<open>crates/networking-embassy-net\<close>

datatype resolve_error = InvalidName | NameTooLong | ResolveFailed | OutputTooSmall nat

fun resolve_error_display :: "resolve_error \<Rightarrow> str" where
  "resolve_error_display InvalidName = lit ''invalid DNS name''"
| "resolve_error_display NameTooLong = lit ''DNS name is too long''"
| "resolve_error_display ResolveFailed = lit ''DNS lookup failed''"
| "resolve_error_display (OutputTooSmall required) =
     lit ''DNS output buffer requires '' @ fmt_dec required @ lit '' entries''"

text \<open>The DNS client's error type.\<close>

datatype dns_error = DnsInvalidName | DnsNameTooLong | DnsFailed

fun resolve_error_from :: "dns_error \<Rightarrow> resolve_error" where
  "resolve_error_from DnsInvalidName = InvalidName"
| "resolve_error_from DnsNameTooLong = NameTooLong"
| "resolve_error_from DnsFailed = ResolveFailed"

text \<open>The stack's static IPv4 configuration; its only address family here is IPv4.\<close>

record static_config_v4 =
  sc4_address :: ipv4_addr
  sc4_prefix_len :: u8
  sc4_gateway :: "ipv4_addr option"
  sc4_dns_servers :: "ipv4_addr list"

datatype ip_address = Ipv4 (ipv4_of: ipv4_addr)

definition convert_ipv4_configuration ::
  "static_config_v4 \<Rightarrow> (ipv4_configuration, net_config_error) result" where
  "convert_ipv4_configuration c =
     (case dns_servers_new (sc4_dns_servers c) of
        Inl e \<Rightarrow> Err e
      | Inr dns \<Rightarrow>
          ipv4_configuration_new (sc4_address c) (sc4_prefix_len c) (sc4_gateway c) dns)"

definition snapshot_from_parts ::
  "bool \<Rightarrow> static_config_v4 option \<Rightarrow> (network_snapshot, net_config_error) result" where
  "snapshot_from_parts link_up configuration =
     (let link = (if link_up then Up else Down)
      in case configuration of
           None \<Rightarrow> Ok (network_snapshot_new link None)
         | Some c \<Rightarrow>
             (case convert_ipv4_configuration c of
                Inl e \<Rightarrow> Err e
              | Inr ipv4 \<Rightarrow> Ok (network_snapshot_new link (Some ipv4))))"

text \<open>
  \<open>wait_ip_ready\<close> waits for link and configuration, then looks at the stack, and goes
  round again unless both are (still) there. The argument lists what the stack shows on
  each round; \<^const>\<open>None\<close> is a wait that is still pending when the list ends.
\<close>

fun wait_ip_ready ::
  "(bool \<times> static_config_v4 option) list \<Rightarrow> (network_snapshot, net_config_error) result option" where
  "wait_ip_ready [] = None"
| "wait_ip_ready ((link_up, configuration) # rounds) =
     (case snapshot_from_parts link_up configuration of
        Inl e \<Rightarrow> Some (Err e)
      | Inr snapshot \<Rightarrow>
          if is_ip_ready snapshot then Some (Ok snapshot) else wait_ip_ready rounds)"

text \<open>
  \<open>EmbassyNetwork\<close> around the stack, of which it reads whether the link is up and the active
  configuration. \<open>wait_ip_down\<close> waits for the stack to lose its configuration and then takes
  the snapshot; the list is what the stack shows whenever the wait looks.
\<close>

record network_stack =
  nk_link_up :: bool
  nk_config_v4 :: "static_config_v4 option"

datatype embassy_network = EmbassyNetwork (en_stack: network_stack)

definition embassy_snapshot :: "embassy_network \<Rightarrow> (network_snapshot, net_config_error) result" where
  "embassy_snapshot n = snapshot_from_parts (nk_link_up (en_stack n)) (nk_config_v4 (en_stack n))"

fun wait_ip_down :: "network_stack list \<Rightarrow> (network_snapshot, net_config_error) result option" where
  "wait_ip_down [] = None"
| "wait_ip_down (stack # later) =
     (if nk_config_v4 stack = None then Some (embassy_snapshot (EmbassyNetwork stack)) else wait_ip_down later)"

text \<open>The copying loop, with the number of addresses written so far.\<close>

fun copy_loop :: "ip_address list \<Rightarrow> nat \<Rightarrow> ipv4_addr list \<Rightarrow> nat \<times> ipv4_addr list" where
  "copy_loop [] len output = (len, output)"
| "copy_loop (Ipv4 a # addresses) len output = copy_loop addresses (len + 1) (output[len := a])"

definition copy_ipv4_addresses ::
  "ip_address list \<Rightarrow> ipv4_addr list \<Rightarrow> (nat, resolve_error) result \<times> ipv4_addr list" where
  "copy_ipv4_addresses addresses output =
     (let required = length (filter (\<lambda>a. case a of Ipv4 _ \<Rightarrow> True) addresses)
      in if required = 0 then (Err ResolveFailed, output)
         else if required > length output then (Err (OutputTooSmall required), output)
         else let (len, output') = copy_loop addresses 0 output in (Ok len, output'))"

definition resolve_ipv4 ::
  "(str \<Rightarrow> (ip_address list, dns_error) result) \<Rightarrow> str \<Rightarrow> ipv4_addr list
   \<Rightarrow> (nat, resolve_error) result \<times> ipv4_addr list" where
  "resolve_ipv4 dns_query name output =
     (case dns_query name of
        Inl e \<Rightarrow> (Err (resolve_error_from e), output)
      | Inr addresses \<Rightarrow> copy_ipv4_addresses addresses output)"

section \<open>Lemmas\<close>

lemma dns_store:
  assumes "dns_servers_new v = Inr d"
  shows "dns_as_slice d = v" "dns_len d = length v" "length v \<le> MAX_DNS_SERVERS"
    "dns_is_empty d \<longleftrightarrow> v = []"
proof -
  from assms have len: "length v \<le> 3"
    and d: "d = \<lparr>ds_addresses = copy_prefix (replicate MAX_DNS_SERVERS UNSPECIFIED) v,
                 ds_len = of_nat (length v)\<rparr>"
    by (auto simp: dns_servers_new_def MAX_DNS_SERVERS_def split: if_splits)
  have un: "unat (of_nat (length v) :: u8) = length v"
    using len by (simp add: unat_of_nat_id)
  show "dns_as_slice d = v" "dns_len d = length v" "length v \<le> MAX_DNS_SERVERS"
    using len by (simp_all add: d un dns_as_slice_def dns_len_def MAX_DNS_SERVERS_def)
  show "dns_is_empty d \<longleftrightarrow> v = []"
    using un by (simp add: d dns_is_empty_def unat_eq_zero [symmetric] del: of_nat_eq_0_iff)
qed

interpretation dns_store: bounded_store MAX_DNS_SERVERS "\<lambda>_. True"
  "\<lambda>v. length v \<le> MAX_DNS_SERVERS" dns_servers_new dns_as_slice dns_len
  by unfold_locales (auto simp: dns_store, auto simp: dns_servers_new_def split: if_splits)

lemma is_dns_ready_iff:
  "is_dns_ready s \<longleftrightarrow>
     ns_link s = Up \<and> (\<exists>c. ns_ipv4 s = Some c \<and> \<not> dns_is_empty (ic_dns_servers c))"
  by (auto simp: is_dns_ready_def is_ip_ready_def split: option.splits)

lemma convert_ok_iff:
  "is_ok (convert_ipv4_configuration c) \<longleftrightarrow>
     length (sc4_dns_servers c) \<le> MAX_DNS_SERVERS \<and> sc4_prefix_len c \<le> 32"
  using dns_store.new_accepts [of "sc4_dns_servers c"]
  by (auto simp: convert_ipv4_configuration_def ipv4_configuration_new_def is_ok_iff
      split: sum.splits)

lemma convert_ok:
  assumes "convert_ipv4_configuration c = Inr i"
  shows "ic_address i = sc4_address c" "ic_prefix_len i = sc4_prefix_len c"
    "ic_gateway i = sc4_gateway c" "dns_as_slice (ic_dns_servers i) = sc4_dns_servers c"
  using assms
  by (auto simp: convert_ipv4_configuration_def ipv4_configuration_new_def dns_store
      split: sum.splits if_splits)

lemma copy_loop_correct:
  "len + length addresses \<le> length out \<Longrightarrow>
     copy_loop addresses len out =
       (len + length addresses,
        take len out @ map ipv4_of addresses @ drop (len + length addresses) out)"
proof (induction addresses len out rule: copy_loop.induct)
  case (2 a addresses len out)
  then show ?case
    by (simp add: take_Suc_conv_app_nth upd_conv_take_nth_drop add.commute)
qed simp

lemma filter_ipv4 [simp]: "filter (\<lambda>a. case a of Ipv4 _ \<Rightarrow> True) addresses = addresses"
  by (rule filter_True) (simp split: ip_address.splits)

lemma copy_ipv4_cases:
  "copy_ipv4_addresses addresses out =
     (if addresses = [] then (Err ResolveFailed, out)
      else if length addresses > length out then (Err (OutputTooSmall (length addresses)), out)
      else (Ok (length addresses), map ipv4_of addresses @ drop (length addresses) out))"
  by (simp add: copy_ipv4_addresses_def Let_def copy_loop_correct)

lemma snapshot_from_parts_ready:
  "snapshot_from_parts up cfg = Inr s \<Longrightarrow> is_ip_ready s \<longleftrightarrow> up \<and> cfg \<noteq> None"
  by (auto simp: snapshot_from_parts_def Let_def network_snapshot_new_def is_ip_ready_def
      split: option.splits sum.splits if_splits)

text \<open>
  The end of \<open>wait_ip_down\<close>: it returns as soon as the configuration is gone, with a snapshot
  that is not ready and shows the link; it cannot fail, so a caller's error branch is never
  taken.
\<close>

lemma wait_ip_down_result:
  "wait_ip_down stacks =
     map_option (\<lambda>stack. Inr \<lparr>ns_link = (if nk_link_up stack then Up else Down), ns_ipv4 = None\<rparr>)
       (List.find (\<lambda>stack. nk_config_v4 stack = None) stacks)"
  "wait_ip_down stacks = Some (Inr s) \<Longrightarrow> \<not> is_ip_ready s"
proof -
  show eq: "wait_ip_down stacks =
     map_option (\<lambda>stack. Inr \<lparr>ns_link = (if nk_link_up stack then Up else Down), ns_ipv4 = None\<rparr>)
       (List.find (\<lambda>stack. nk_config_v4 stack = None) stacks)"
    by (induction stacks) (simp_all add: embassy_snapshot_def snapshot_from_parts_def network_snapshot_new_def)
  show "\<not> is_ip_ready s" if "wait_ip_down stacks = Some (Inr s)"
    using that by (auto simp: eq is_ip_ready_def)
qed

section \<open>Properties\<close>

text \<open>
  Link, address and DNS readiness are separate and ordered: a snapshot is DNS-ready
  exactly when the link is up and an IPv4 configuration with at least one server is present,
  which makes it IP-ready; a configuration kept over a link loss is never ready; and at most
  three servers are stored, returned as given.
\<close>

lemma readiness:
  "(is_dns_ready s \<longleftrightarrow>
      ns_link s = Up \<and> (\<exists>c. ns_ipv4 s = Some c \<and> \<not> dns_is_empty (ic_dns_servers c)))
   \<and> (is_dns_ready s \<longrightarrow> is_ip_ready s)
   \<and> \<not> is_ip_ready (s\<lparr>ns_link := Down\<rparr>)
   \<and> (is_ok (dns_servers_new v) \<longleftrightarrow> length v \<le> 3)
   \<and> (dns_servers_new v = Inr d \<longrightarrow>
        dns_as_slice d = v \<and> dns_len d = length v \<and> (dns_is_empty d \<longleftrightarrow> v = []))"
  by (auto simp: is_dns_ready_iff is_ip_ready_def dns_store.new_accepts MAX_DNS_SERVERS_def dns_store)

text \<open>
  The Embassy adapter is faithful: a configuration is converted exactly when it has at
  most three DNS servers and a prefix of at most 32 bits, every field survives the
  conversion, and the snapshot is IP-ready exactly when the stack reports the link up with a
  configuration.
\<close>

lemma snapshot_faithful:
  "(is_ok (snapshot_from_parts up cfg) \<longleftrightarrow>
      (case cfg of None \<Rightarrow> True
       | Some c \<Rightarrow> length (sc4_dns_servers c) \<le> 3 \<and> sc4_prefix_len c \<le> 32))
   \<and> (snapshot_from_parts up cfg = Inr s \<longrightarrow>
        (is_ip_ready s \<longleftrightarrow> up \<and> cfg \<noteq> None)
        \<and> (is_dns_ready s \<longleftrightarrow> up \<and> (\<exists>c. cfg = Some c \<and> sc4_dns_servers c \<noteq> []))
        \<and> map_option (\<lambda>i. (ic_address i, ic_prefix_len i, ic_gateway i,
             dns_as_slice (ic_dns_servers i))) (ns_ipv4 s)
          = map_option (\<lambda>c. (sc4_address c, sc4_prefix_len c, sc4_gateway c, sc4_dns_servers c)) cfg)"
proof (cases cfg)
  case None
  then show ?thesis
    by (auto simp: snapshot_from_parts_def Let_def network_snapshot_new_def is_ip_ready_def
        is_dns_ready_def)
next
  case (Some c)
  have nonempty: "dns_is_empty (ic_dns_servers i) \<longleftrightarrow> sc4_dns_servers c = []"
    if "convert_ipv4_configuration c = Inr i" for i
    using that dns_store(4) [of "sc4_dns_servers c"]
    by (auto simp: convert_ipv4_configuration_def ipv4_configuration_new_def
        split: sum.splits if_splits)
  show ?thesis
    using convert_ok_iff [of c] convert_ok [of c] nonempty
    by (cases "convert_ipv4_configuration c")
      (auto simp: Some snapshot_from_parts_def Let_def network_snapshot_new_def is_ip_ready_def
        is_dns_ready_def MAX_DNS_SERVERS_def)
qed

text \<open>
  DNS results are copied completely or not at all: the resolver succeeds exactly when
  the query does, returns at least one address and the buffer holds them all, and then the
  buffer starts with all of them and is otherwise unchanged; in every other case the buffer
  is untouched and a buffer that is too small is told the size it needs.
\<close>

lemma resolve_complete_or_error:
  "resolve_ipv4 dns_query name out =
     (case dns_query name of
        Inl e \<Rightarrow> (Err (resolve_error_from e), out)
      | Inr addresses \<Rightarrow>
          if addresses = [] then (Err ResolveFailed, out)
          else if length addresses > length out
          then (Err (OutputTooSmall (length addresses)), out)
          else (Ok (length addresses), map ipv4_of addresses @ drop (length addresses) out))"
  by (simp add: resolve_ipv4_def copy_ipv4_cases split: sum.split)



end
