(* ===== verification/Storage.thy ===== *)
theory Storage
  imports Rust_Str
begin

text \<open>
  \<open>crates/storage\<close>: keys, the encoding of stored values, and \<open>SequentialStore\<close>, the
  key-value store over the third-party engine \<open>sequential_storage::map\<close>. The engine is a
  parameter of the model (the record \<open>map_engine_ops\<close>) and what the store relies on is the
  locale \<open>map_engine\<close>. The contract of the trait \<open>KeyValueStore\<close> is the locale
  \<open>key_value_store\<close>; a sublocale proves that \<open>SequentialStore\<close> implements it over
  every engine that keeps its contract.
\<close>

section \<open>Definitions\<close>

subsection \<open>Keys\<close>

datatype key = Key (key_namespace: u16) (key_record: u16)

definition key_new :: "u16 \<Rightarrow> u16 \<Rightarrow> key" where
  "key_new ns r = Key ns r"

definition from_raw :: "u32 \<Rightarrow> key" where
  "from_raw raw = Key (ucast (drop_bit 16 raw)) (ucast raw)"

definition to_raw :: "key \<Rightarrow> u32" where
  "to_raw k = push_bit 16 (ucast (key_namespace k)) OR ucast (key_record k)"

text \<open>The derived order: lexicographic in the declaration order of the fields.\<close>

instantiation key :: linorder
begin

definition less_eq_key :: "key \<Rightarrow> key \<Rightarrow> bool" where
  "less_eq_key a b \<longleftrightarrow>
     key_namespace a < key_namespace b
     \<or> (key_namespace a = key_namespace b \<and> key_record a \<le> key_record b)"

definition less_key :: "key \<Rightarrow> key \<Rightarrow> bool" where
  "less_key a b \<longleftrightarrow> a \<le> b \<and> \<not> b \<le> (a :: key)"

instance
proof
  fix a b c :: key
  show "a < b \<longleftrightarrow> a \<le> b \<and> \<not> b \<le> a"
    by (simp add: less_key_def)
  show "a \<le> a"
    by (simp add: less_eq_key_def)
  show "a \<le> b \<Longrightarrow> b \<le> c \<Longrightarrow> a \<le> c"
    by (auto simp: less_eq_key_def)
  show "a \<le> b \<Longrightarrow> b \<le> a \<Longrightarrow> a = b"
    by (cases a; cases b) (auto simp: less_eq_key_def)
  show "a \<le> b \<or> b \<le> a"
    by (auto simp: less_eq_key_def)
qed

end

subsection \<open>Results and errors\<close>

datatype fetch = NotFound | Found (fetched_len: nat)

fun found_len :: "fetch \<Rightarrow> nat option" where
  "found_len NotFound = None"
| "found_len (Found len) = Some len"

fun is_not_found :: "fetch \<Rightarrow> bool" where
  "is_not_found NotFound = True"
| "is_not_found (Found _) = False"

datatype storage_error_kind =
  KBackend | KFull | KCorrupted | KBufferTooSmall | KValueTooLarge | KInvalidData | KInternal

datatype 'e storage_error =
  Backend 'e
| Full
| Corrupted
| BufferTooSmall nat
| ValueTooLarge
| InvalidData
| Internal

fun storage_kind :: "'e storage_error \<Rightarrow> storage_error_kind" where
  "storage_kind (Backend _) = KBackend"
| "storage_kind Full = KFull"
| "storage_kind Corrupted = KCorrupted"
| "storage_kind (BufferTooSmall _) = KBufferTooSmall"
| "storage_kind ValueTooLarge = KValueTooLarge"
| "storage_kind InvalidData = KInvalidData"
| "storage_kind Internal = KInternal"

text \<open>\<open>Display\<close>; the first argument is the \<open>Debug\<close> output of the backend's error type.\<close>

fun storage_error_display :: "('e \<Rightarrow> str) \<Rightarrow> 'e storage_error \<Rightarrow> str" where
  "storage_error_display debug (Backend e) = lit ''storage backend failed: '' @ debug e"
| "storage_error_display debug Full = lit ''persistent storage is full''"
| "storage_error_display debug Corrupted = lit ''persistent storage is corrupt''"
| "storage_error_display debug (BufferTooSmall required) =
     lit ''destination buffer needs '' @ fmt_dec required @ lit '' bytes''"
| "storage_error_display debug ValueTooLarge = lit ''value is too large for this store''"
| "storage_error_display debug InvalidData = lit ''stored value has an invalid encoding''"
| "storage_error_display debug Internal = lit ''storage engine invariant failed''"

datatype storage_config_error =
  ScratchTooSmall | RangeOutOfBounds | UnalignedStart | UnalignedEnd | RangeTooSmall
| PageTooSmall | WordTooLarge

fun storage_config_error_display :: "storage_config_error \<Rightarrow> str" where
  "storage_config_error_display ScratchTooSmall = lit ''storage scratch buffer is too small''"
| "storage_config_error_display RangeOutOfBounds = lit ''storage range is outside the flash''"
| "storage_config_error_display UnalignedStart = lit ''storage range start is not erase-aligned''"
| "storage_config_error_display UnalignedEnd = lit ''storage range end is not erase-aligned''"
| "storage_config_error_display RangeTooSmall = lit ''storage range needs at least two pages''"
| "storage_config_error_display PageTooSmall = lit ''flash erase page is too small''"
| "storage_config_error_display WordTooLarge = lit ''flash word exceeds the supported size''"

text \<open>
  The engine's error types, as far as the conversions distinguish their values: the
  constructors \<open>SerOther\<close> and \<open>SeqOther\<close> stand for the ones a wildcard arm covers.
\<close>

datatype map_config_error =
  StartRangeNotAtPageBoundary | EndRangeNotAtPageBoundary | MapRangeTooSmall
| PagesTooSmall | WordSizeTooLarge

datatype serialization_error = SerBufferTooSmall | SerInvalidFormat | SerOther

datatype 'e seq_error =
  SeqStorage 'e
| SeqFullStorage
| SeqCorrupted
| SeqBufferTooSmall nat
| SeqItemTooBig
| SeqBufferTooBig
| SeqSerialization serialization_error
| SeqLogicBug
| SeqOther

fun config_error_from :: "map_config_error \<Rightarrow> storage_config_error" where
  "config_error_from StartRangeNotAtPageBoundary = UnalignedStart"
| "config_error_from EndRangeNotAtPageBoundary = UnalignedEnd"
| "config_error_from MapRangeTooSmall = RangeTooSmall"
| "config_error_from PagesTooSmall = PageTooSmall"
| "config_error_from WordSizeTooLarge = WordTooLarge"

fun storage_error_from :: "'e seq_error \<Rightarrow> 'e storage_error" where
  "storage_error_from (SeqStorage e) = Backend e"
| "storage_error_from SeqFullStorage = Full"
| "storage_error_from SeqCorrupted = Corrupted"
| "storage_error_from (SeqBufferTooSmall _) = ValueTooLarge"
| "storage_error_from SeqItemTooBig = ValueTooLarge"
| "storage_error_from SeqBufferTooBig = ValueTooLarge"
| "storage_error_from (SeqSerialization SerBufferTooSmall) = ValueTooLarge"
| "storage_error_from (SeqSerialization _) = InvalidData"
| "storage_error_from SeqLogicBug = Internal"
| "storage_error_from SeqOther = Internal"

subsection \<open>BlockingFlash\<close>

text \<open>
  The adapter from a blocking to an asynchronous NOR flash. The wrapped driver's operations
  are arguments; they take and return the driver's state.
\<close>

record 's blocking_flash =
  bf_inner :: 's

definition bf_new :: "'s \<Rightarrow> 's blocking_flash" where
  "bf_new inner = \<lparr>bf_inner = inner\<rparr>"

definition bf_read ::
  "('s \<Rightarrow> u32 \<Rightarrow> u8 list \<Rightarrow> (unit, 'e) result \<times> 's \<times> u8 list)
   \<Rightarrow> 's blocking_flash \<Rightarrow> u32 \<Rightarrow> u8 list \<Rightarrow> (unit, 'e) result \<times> 's blocking_flash \<times> u8 list" where
  "bf_read driver_read f offset bytes =
     (let (r, inner', bytes') = driver_read (bf_inner f) offset bytes
      in (r, f\<lparr>bf_inner := inner'\<rparr>, bytes'))"

definition bf_capacity :: "('s \<Rightarrow> nat) \<Rightarrow> 's blocking_flash \<Rightarrow> nat" where
  "bf_capacity driver_capacity f = driver_capacity (bf_inner f)"

definition bf_erase ::
  "('s \<Rightarrow> u32 \<Rightarrow> u32 \<Rightarrow> (unit, 'e) result \<times> 's)
   \<Rightarrow> 's blocking_flash \<Rightarrow> u32 \<Rightarrow> u32 \<Rightarrow> (unit, 'e) result \<times> 's blocking_flash" where
  "bf_erase driver_erase f from_offset to_offset =
     (let (r, inner') = driver_erase (bf_inner f) from_offset to_offset
      in (r, f\<lparr>bf_inner := inner'\<rparr>))"

definition bf_write ::
  "('s \<Rightarrow> u32 \<Rightarrow> u8 list \<Rightarrow> (unit, 'e) result \<times> 's)
   \<Rightarrow> 's blocking_flash \<Rightarrow> u32 \<Rightarrow> u8 list \<Rightarrow> (unit, 'e) result \<times> 's blocking_flash" where
  "bf_write driver_write f offset bytes =
     (let (r, inner') = driver_write (bf_inner f) offset bytes
      in (r, f\<lparr>bf_inner := inner'\<rparr>))"

subsection \<open>The record encoding\<close>

datatype stored_value = Live "u8 list" | Tombstone

text \<open>Writing into a buffer: the number of bytes written, and the buffer afterwards.\<close>

definition serialize_into ::
  "stored_value \<Rightarrow> u8 list \<Rightarrow> (nat, serialization_error) result \<times> u8 list" where
  "serialize_into sv buffer =
     (let (tag, v) = (case sv of Live v \<Rightarrow> (1, v) | Tombstone \<Rightarrow> (0, []))
      in if length v + 1 > length buffer then (Err SerBufferTooSmall, buffer)
         else (Ok (length v + 1), copy_prefix buffer (tag # v)))"

definition deserialize_from ::
  "u8 list \<Rightarrow> (stored_value \<times> nat, serialization_error) result" where
  "deserialize_from buffer =
     (case buffer of
        [] \<Rightarrow> Err SerInvalidFormat
      | tag # v \<Rightarrow>
          if tag = 0 \<and> v = [] then Ok (Tombstone, 1)
          else if tag = 1 then Ok (Live v, length buffer)
          else Err SerInvalidFormat)"

subsection \<open>SequentialStore\<close>

text \<open>
  The engine's operations, from the map's state and the scratch buffer to the same:
  \<open>fetch_item\<close> and \<open>store_item\<close> are given the value type's decoder and encoder, as the
  engine's generic functions are.
\<close>

record ('m, 'e) map_engine_ops =
  fetch_item :: "(u8 list \<Rightarrow> (stored_value \<times> nat, serialization_error) result)
     \<Rightarrow> 'm \<Rightarrow> u8 list \<Rightarrow> u32
     \<Rightarrow> (stored_value option, 'e seq_error) result \<times> 'm \<times> u8 list"
  store_item :: "(stored_value \<Rightarrow> u8 list \<Rightarrow> (nat, serialization_error) result \<times> u8 list)
     \<Rightarrow> 'm \<Rightarrow> u8 list \<Rightarrow> u32 \<Rightarrow> stored_value
     \<Rightarrow> (unit, 'e seq_error) result \<times> 'm \<times> u8 list"
  erase_all :: "'m \<Rightarrow> (unit, 'e seq_error) result \<times> 'm"

record 'm sequential_store =
  ss_map :: 'm
  ss_scratch :: "u8 list"

definition ENCODING_OVERHEAD :: nat where
  "ENCODING_OVERHEAD = 4 + 1"

definition MAX_VALUE_SIZE :: "nat \<Rightarrow> nat" where
  "MAX_VALUE_SIZE SCRATCH = SCRATCH - ENCODING_OVERHEAD"

text \<open>
  \<open>SequentialStore::new\<close>. The engine's constructor is split as in the code:
  \<open>try_new\<close> checks the range and \<open>map_new\<close> takes the flash and the configuration.
  \<open>usize\<close> has at least 32 bits on the supported targets, so the conversion of the
  range's end is exact.
\<close>

definition sequential_store_new ::
  "(u32 \<times> u32 \<Rightarrow> ('cfg, map_config_error) result) \<Rightarrow> ('flash \<Rightarrow> 'cfg \<Rightarrow> 'm)
   \<Rightarrow> ('flash \<Rightarrow> nat) \<Rightarrow> nat \<Rightarrow> 'flash \<Rightarrow> u32 \<times> u32
   \<Rightarrow> ('m sequential_store, storage_config_error) result" where
  "sequential_store_new try_new map_new flash_capacity SCRATCH flash flash_range =
     (if SCRATCH < ENCODING_OVERHEAD then Err ScratchTooSmall
      else let range_end = unat (snd flash_range)
        in if fst flash_range > snd flash_range \<or> range_end > flash_capacity flash then Err RangeOutOfBounds
           else case map_err config_error_from (try_new flash_range) of
                  Inl e \<Rightarrow> Err e
                | Inr config \<Rightarrow>
                    Ok \<lparr>ss_map = map_new flash config, ss_scratch = replicate SCRATCH 0\<rparr>)"

definition store_get ::
  "('m, 'e) map_engine_ops \<Rightarrow> key \<Rightarrow> u8 list \<Rightarrow> 'm sequential_store
   \<Rightarrow> (fetch, 'e storage_error) result \<times> u8 list \<times> 'm sequential_store" where
  "store_get eng k out s =
     (let (stored, m, scratch) = fetch_item eng deserialize_from (ss_map s) (ss_scratch s) (to_raw k);
          s' = \<lparr>ss_map = m, ss_scratch = scratch\<rparr>
      in case map_err storage_error_from stored of
           Inl e \<Rightarrow> (Err e, out, s')
         | Inr None \<Rightarrow> (Ok NotFound, out, s')
         | Inr (Some Tombstone) \<Rightarrow> (Ok NotFound, out, s')
         | Inr (Some (Live v)) \<Rightarrow>
             if length out < length v then (Err (BufferTooSmall (length v)), out, s')
             else (Ok (Found (length v)), copy_prefix out v, s'))"

text \<open>A call of the engine's \<open>store_item\<close> with the errors converted.\<close>

definition store_stored ::
  "('m, 'e) map_engine_ops \<Rightarrow> key \<Rightarrow> stored_value \<Rightarrow> 'm sequential_store
   \<Rightarrow> (unit, 'e storage_error) result \<times> 'm sequential_store" where
  "store_stored eng k sv s =
     (let (r, m, scratch) = store_item eng serialize_into (ss_map s) (ss_scratch s) (to_raw k) sv
      in (map_err storage_error_from r, \<lparr>ss_map = m, ss_scratch = scratch\<rparr>))"

definition store_put ::
  "nat \<Rightarrow> ('m, 'e) map_engine_ops \<Rightarrow> key \<Rightarrow> u8 list \<Rightarrow> 'm sequential_store
   \<Rightarrow> (unit, 'e storage_error) result \<times> 'm sequential_store" where
  "store_put SCRATCH eng k v s =
     (if length v > MAX_VALUE_SIZE SCRATCH then (Err ValueTooLarge, s)
      else store_stored eng k (Live v) s)"

definition store_delete ::
  "('m, 'e) map_engine_ops \<Rightarrow> key \<Rightarrow> 'm sequential_store
   \<Rightarrow> (unit, 'e storage_error) result \<times> 'm sequential_store" where
  "store_delete eng k s = store_stored eng k Tombstone s"

definition store_clear ::
  "('m, 'e) map_engine_ops \<Rightarrow> 'm sequential_store
   \<Rightarrow> (unit, 'e storage_error) result \<times> 'm sequential_store" where
  "store_clear eng s =
     (let (r, m) = erase_all eng (ss_map s)
      in (map_err storage_error_from r, s\<lparr>ss_map := m\<rparr>))"

text \<open>
  What a store holds for a key: the live value of the record the engine keeps under the
  key's raw form. A tombstone, like no record, is no value.
\<close>

definition store_abs ::
  "('m \<Rightarrow> u32 \<Rightarrow> u8 list option) \<Rightarrow> 'm sequential_store \<Rightarrow> key \<Rightarrow> u8 list option" where
  "store_abs items s k =
     (case items (ss_map s) (to_raw k) of
        None \<Rightarrow> None
      | Some bytes \<Rightarrow> (case deserialize_from bytes of Inr (Live v, _) \<Rightarrow> Some v | _ \<Rightarrow> None))"

text \<open>The value a record stands for.\<close>

fun live :: "stored_value \<Rightarrow> u8 list option" where
  "live (Live v) = Some v"
| "live Tombstone = None"

text \<open>Mutations as data, to state what a history of them does.\<close>

datatype mutation = MPut key "u8 list" | MDelete key | MClear

fun spec_mutation :: "mutation \<Rightarrow> (key \<Rightarrow> u8 list option) \<Rightarrow> key \<Rightarrow> u8 list option" where
  "spec_mutation (MPut k v) m = m(k \<mapsto> v)"
| "spec_mutation (MDelete k) m = m(k := None)"
| "spec_mutation MClear m = Map.empty"

fun mutate ::
  "(key \<Rightarrow> u8 list \<Rightarrow> 's \<Rightarrow> (unit, 'err) result \<times> 's) \<Rightarrow> (key \<Rightarrow> 's \<Rightarrow> (unit, 'err) result \<times> 's)
   \<Rightarrow> ('s \<Rightarrow> (unit, 'err) result \<times> 's) \<Rightarrow> mutation \<Rightarrow> 's \<Rightarrow> (unit, 'err) result \<times> 's" where
  "mutate put delete clear (MPut k v) s = put k v s"
| "mutate put delete clear (MDelete k) s = delete k s"
| "mutate put delete clear MClear s = clear s"

fun apply_all :: "('x \<Rightarrow> 's \<Rightarrow> 'r \<times> 's) \<Rightarrow> 'x list \<Rightarrow> 's \<Rightarrow> 'r list \<times> 's" where
  "apply_all step [] s = ([], s)"
| "apply_all step (x # xs) s =
     (let (r, s1) = step x s; (rs, s2) = apply_all step xs s1 in (r # rs, s2))"

text \<open>An engine in memory, with room for a bounded number of keys.\<close>

definition ram_fetch ::
  "(u8 list \<Rightarrow> (stored_value \<times> nat, serialization_error) result) \<Rightarrow> (u32 \<Rightarrow> u8 list option)
   \<Rightarrow> u8 list \<Rightarrow> u32
   \<Rightarrow> (stored_value option, unit seq_error) result \<times> (u32 \<Rightarrow> u8 list option) \<times> u8 list" where
  "ram_fetch decode m scratch k =
     (case m k of
        None \<Rightarrow> (Ok None, m, scratch)
      | Some bytes \<Rightarrow>
          (case decode bytes of
             Inl e \<Rightarrow> (Err (SeqSerialization e), m, scratch)
           | Inr (v, _) \<Rightarrow> (Ok (Some v), m, scratch)))"

definition ram_store ::
  "(stored_value \<Rightarrow> u8 list \<Rightarrow> (nat, serialization_error) result \<times> u8 list)
   \<Rightarrow> (u32 \<Rightarrow> u8 list option) \<Rightarrow> u8 list \<Rightarrow> u32 \<Rightarrow> stored_value
   \<Rightarrow> (unit, unit seq_error) result \<times> (u32 \<Rightarrow> u8 list option) \<times> u8 list" where
  "ram_store encode m scratch k v =
     (case encode v (drop 4 scratch) of
        (Inl e, _) \<Rightarrow> (Err (SeqSerialization e), m, scratch)
      | (Inr n, buffer) \<Rightarrow> (Ok (), m(k \<mapsto> take n buffer), take 4 scratch @ buffer))"

definition ram_engine :: "(u32 \<Rightarrow> u8 list option, unit) map_engine_ops" where
  "ram_engine = \<lparr>fetch_item = ram_fetch, store_item = ram_store, erase_all = \<lambda>m. (Ok (), Map.empty)\<rparr>"

definition ram_store_new :: "nat \<Rightarrow> (u32 \<Rightarrow> u8 list option) sequential_store" where
  "ram_store_new SCRATCH = \<lparr>ss_map = Map.empty, ss_scratch = replicate SCRATCH 0\<rparr>"

section \<open>Interfaces\<close>

subsection \<open>The storage engine\<close>

text \<open>
  What \<open>sequential_storage::map\<close> documents of an uncached map, over the records it keeps
  (\<open>items\<close>): a lookup decodes the newest record of the key and changes none; a store
  that succeeds has replaced the key's record by the encoded bytes, and one that fails has
  left the old or the new record in place; erasing removes all records.
\<close>

locale map_engine =
  fixes eng :: "('m, 'e) map_engine_ops"
    and items :: "'m \<Rightarrow> u32 \<Rightarrow> u8 list option"
  assumes fetch_keeps: "fetch_item eng decode m scratch k = (r, m', scratch') \<Longrightarrow> items m' = items m"
    and fetch_none:
      "fetch_item eng decode m scratch k = (Inr None, m', scratch') \<Longrightarrow> items m k = None"
    and fetch_some:
      "fetch_item eng decode m scratch k = (Inr (Some v), m', scratch') \<Longrightarrow>
         \<exists>bytes n. items m k = Some bytes \<and> decode bytes = Inr (v, n)"
    and store_done:
      "store_item eng encode m scratch k v = (Inr u, m', scratch') \<Longrightarrow>
         \<exists>buffer n buffer'. encode v buffer = (Inr n, buffer')
           \<and> items m' = (items m)(k \<mapsto> take n buffer')"
    and store_failed:
      "store_item eng encode m scratch k v = (Inl err, m', scratch') \<Longrightarrow>
         items m' = items m
         \<or> (\<exists>buffer n buffer'. encode v buffer = (Inr n, buffer')
              \<and> items m' = (items m)(k \<mapsto> take n buffer'))"
    and erase_done: "erase_all eng m = (Inr u, m') \<Longrightarrow> items m' = Map.empty"

subsection \<open>The key-value store\<close>

text \<open>
  The contract of the trait \<open>KeyValueStore\<close>, over what the store holds (\<open>abs\<close>): a
  read returns the complete value or nothing and changes nothing; a mutation that succeeds
  has its effect, and a \<open>put\<close> or \<open>delete\<close> that fails shows the complete old or the
  complete new value.
\<close>

locale key_value_store =
  fixes get :: "key \<Rightarrow> u8 list \<Rightarrow> 's \<Rightarrow> (fetch, 'err) result \<times> u8 list \<times> 's"
    and put :: "key \<Rightarrow> u8 list \<Rightarrow> 's \<Rightarrow> (unit, 'err) result \<times> 's"
    and delete :: "key \<Rightarrow> 's \<Rightarrow> (unit, 'err) result \<times> 's"
    and clear :: "'s \<Rightarrow> (unit, 'err) result \<times> 's"
    and abs :: "'s \<Rightarrow> key \<Rightarrow> u8 list option"
  assumes get_keeps: "get k out s = (r, out', s') \<Longrightarrow> abs s' = abs s"
    and get_not_found: "get k out s = (Inr NotFound, out', s') \<Longrightarrow> abs s k = None \<and> out' = out"
    and get_found:
      "get k out s = (Inr (Found n), out', s') \<Longrightarrow>
         n \<le> length out \<and> abs s k = Some (take n out')
         \<and> length out' = length out \<and> drop n out' = drop n out"
    and get_failed: "get k out s = (Inl err, out', s') \<Longrightarrow> out' = out"
    and put_done: "put k v s = (Inr u, s') \<Longrightarrow> abs s' = (abs s)(k \<mapsto> v)"
    and put_failed:
      "put k v s = (Inl err, s') \<Longrightarrow> abs s' = abs s \<or> abs s' = (abs s)(k \<mapsto> v)"
    and delete_done: "delete k s = (Inr u, s') \<Longrightarrow> abs s' = (abs s)(k := None)"
    and delete_failed:
      "delete k s = (Inl err, s') \<Longrightarrow> abs s' = abs s \<or> abs s' = (abs s)(k := None)"
    and clear_done: "clear s = (Inr u, s') \<Longrightarrow> abs s' = Map.empty"
begin

lemma read_after_write:
  assumes "put k v s = (Inr u, s1)" and "get k out s1 = (Inr f, out', s2)"
  shows "f = Found (length v) \<and> take (length v) out' = v \<and> abs s2 = abs s1"
proof (cases f)
  case NotFound
  with assms get_not_found [of k out s1 out' s2] put_done [OF assms(1)] show ?thesis
    by simp
next
  case (Found n)
  with assms(2) get_found [of k out s1 n out' s2] put_done [OF assms(1)]
  have v: "v = take n out'" and len: "n \<le> length out'"
    by auto
  from len have "length (take n out') = n"
    by simp
  with v Found get_keeps [OF assms(2)] show ?thesis
    by simp
qed

lemma read_other:
  assumes "put k v s = (r, s1)" and "j \<noteq> k"
  shows "abs s1 j = abs s j"
  using assms put_done [of k v s _ s1] put_failed [of k v s _ s1] by (cases r) force+

lemma absent_after_delete:
  assumes "delete k s = (Inr u, s1)" and "get k out s1 = (Inr f, out', s2)"
  shows "f = NotFound"
  using assms delete_done [OF assms(1)] get_found [of k out s1 _ out' s2] by (cases f) auto

lemma delete_idempotent:
  "\<lbrakk>delete k s = (Inr u, s1); delete k s1 = (Inr u', s2)\<rbrakk> \<Longrightarrow> abs s2 = abs s1"
  using delete_done [of k s] delete_done [of k s1] by simp

lemma mutate_done: "mutate put delete clear x s = (Inr u, s') \<Longrightarrow> abs s' = spec_mutation x (abs s)"
  by (cases x) (auto dest: put_done delete_done clear_done)

lemma mutations_done:
  "\<lbrakk>apply_all (mutate put delete clear) xs s = (rs, s'); list_all is_ok rs\<rbrakk> \<Longrightarrow> abs s' = fold spec_mutation xs (abs s)"
proof (induction xs arbitrary: s rs)
  case (Cons x xs)
  obtain r s1 where x: "mutate put delete clear x s = (r, s1)"
    by fastforce
  obtain rs1 s2 where xs: "apply_all (mutate put delete clear) xs s1 = (rs1, s2)"
    by fastforce
  from Cons.prems x xs obtain u where "r = Inr u" "rs = r # rs1" "s2 = s'"
    by (auto simp: is_ok_iff)
  with Cons x xs show ?case
    using mutate_done [of x s u s1] by simp
qed simp

text \<open>Whatever failed on the way, no value is read that was not put under its key.\<close>

lemma mutate_values:
  assumes "mutate put delete clear x s = (r, s')" and "x \<noteq> MClear" and "abs s' k = Some v"
  shows "abs s k = Some v \<or> x = MPut k v"
proof (cases x)
  case (MPut j w)
  with assms put_done [of j w s _ s'] put_failed [of j w s _ s'] show ?thesis
    by (cases r) (fastforce split: if_splits)+
next
  case (MDelete j)
  with assms delete_done [of j s _ s'] delete_failed [of j s _ s'] show ?thesis
    by (cases r) (fastforce split: if_splits)+
qed (use assms in simp)

lemma mutations_values:
  "\<lbrakk>apply_all (mutate put delete clear) xs s = (rs, s'); MClear \<notin> set xs; abs s' k = Some v\<rbrakk> \<Longrightarrow>
     abs s k = Some v \<or> MPut k v \<in> set xs"
proof (induction xs arbitrary: s rs)
  case (Cons x xs)
  obtain r s1 where x: "mutate put delete clear x s = (r, s1)"
    by fastforce
  obtain rs1 s2 where xs: "apply_all (mutate put delete clear) xs s1 = (rs1, s2)"
    by fastforce
  from Cons.prems x xs have "s2 = s'"
    by simp
  with Cons.prems Cons.IH [of s1 rs1] xs have "abs s1 k = Some v \<or> MPut k v \<in> set xs"
    by simp
  with mutate_values [OF x] Cons.prems show ?case
    by auto
qed simp

end

section \<open>Lemmas\<close>

subsection \<open>Keys\<close>

lemma from_raw_to_raw [simp]: "from_raw (to_raw k) = k"
proof (rule key.expand, intro conjI)
  show "key_namespace (from_raw (to_raw k)) = key_namespace k"
    by (rule bit_word_eqI) (auto simp: from_raw_def to_raw_def bit_simps dest: bit_imp_le_length)
  show "key_record (from_raw (to_raw k)) = key_record k"
    by (rule bit_word_eqI) (auto simp: from_raw_def to_raw_def bit_simps dest: bit_imp_le_length)
qed

lemma to_raw_from_raw [simp]: "to_raw (from_raw r) = r"
  by (rule bit_word_eqI) (auto simp: from_raw_def to_raw_def bit_simps dest: bit_imp_le_length)

lemma to_raw_eq_iff [simp]: "to_raw a = to_raw b \<longleftrightarrow> a = b"
  by (metis from_raw_to_raw)

lemma unat_to_raw: "unat (to_raw k) = unat (key_namespace k) * 65536 + unat (key_record k)"
proof -
  have disjoint: "push_bit 16 (ucast (key_namespace k)) AND ucast (key_record k) = (0 :: u32)"
    by (rule bit_word_eqI) (auto simp: bit_simps dest: bit_imp_le_length)
  have bounds: "unat (key_namespace k) < 65536" "unat (key_record k) < 65536"
    using unsigned_less [of "key_namespace k"] unsigned_less [of "key_record k"] by simp_all
  have "to_raw k = push_bit 16 (ucast (key_namespace k)) + ucast (key_record k)"
    using disjoint by (simp add: to_raw_def disjunctive_add_eq_or)
  moreover have "unat (push_bit 16 (ucast (key_namespace k)) :: u32) = unat (key_namespace k) * 65536"
    using bounds by (simp add: unat_push_bit_mod unsigned_ucast_eq take_bit_nat_eq_self)
  ultimately show ?thesis
    using bounds by (simp add: unat_word_ariths unsigned_ucast_eq take_bit_nat_eq_self)
qed

lemma to_raw_le_iff: "to_raw a \<le> to_raw b \<longleftrightarrow> a \<le> b"
proof -
  have "unat (key_record a) < 65536" "unat (key_record b) < 65536"
    using unsigned_less [of "key_record a"] unsigned_less [of "key_record b"] by simp_all
  then show ?thesis
    using unsigned_word_eqI [of "key_namespace a" "key_namespace b", where 'a = nat]
    by (auto simp: word_le_nat_alt word_less_nat_alt unat_to_raw less_eq_key_def)
qed

subsection \<open>The record encoding\<close>

lemma serialize_fits:
  "serialize_into sv buffer =
     (if length buffer \<le> length (case sv of Live v \<Rightarrow> v | Tombstone \<Rightarrow> [])
      then (Inl SerBufferTooSmall, buffer)
      else (Inr (Suc (length (case sv of Live v \<Rightarrow> v | Tombstone \<Rightarrow> []))),
            copy_prefix buffer (case sv of Live v \<Rightarrow> 1 # v | Tombstone \<Rightarrow> [0])))"
  by (auto simp: serialize_into_def split: stored_value.splits)

lemma deserialize_serialize:
  "serialize_into sv buffer = (Inr n, buffer') \<Longrightarrow> deserialize_from (take n buffer') = Inr (sv, n)"
  by (cases sv)
    (auto simp: serialize_into_def deserialize_from_def copy_prefix_def split: if_splits)

lemma deserialize_total: "deserialize_from bytes = Inr (sv, n) \<Longrightarrow> n = length bytes"
  by (auto simp: deserialize_from_def split: list.splits if_splits)

subsection \<open>SequentialStore implements the contract\<close>

lemma store_abs_update:
  assumes "serialize_into sv buffer = (Inr n, buffer')"
    and "items m' = (items (ss_map s))(to_raw k \<mapsto> take n buffer')"
  shows "store_abs items \<lparr>ss_map = m', ss_scratch = scratch\<rparr> = (store_abs items s)(k := live sv)"
  using deserialize_serialize [OF assms(1)] assms(2)
  by (cases sv) (auto simp: store_abs_def fun_eq_iff)

lemma store_abs_same:
  "items m' = items (ss_map s) \<Longrightarrow> store_abs items \<lparr>ss_map = m', ss_scratch = scratch\<rparr> = store_abs items s"
  by (simp add: store_abs_def fun_eq_iff)

context map_engine
begin

lemma store_stored_done:
  assumes "store_stored eng k sv s = (Inr u, s')"
  shows "store_abs items s' = (store_abs items s)(k := live sv)"
proof -
  obtain r m sc where c: "store_item eng serialize_into (ss_map s) (ss_scratch s) (to_raw k) sv = (r, m, sc)"
    by (rule prod_cases3)
  with assms have "r = Inr u" "s' = \<lparr>ss_map = m, ss_scratch = sc\<rparr>"
    by (auto simp: store_stored_def)
  with c store_done [of serialize_into "ss_map s" "ss_scratch s" "to_raw k" sv u m sc]
  obtain buffer n buffer' where "serialize_into sv buffer = (Inr n, buffer')"
      "items m = (items (ss_map s))(to_raw k \<mapsto> take n buffer')"
    by blast
  from store_abs_update [of _ _ _ _ items, OF this] \<open>s' = _\<close> show ?thesis
    by simp
qed

lemma store_stored_failed:
  assumes "store_stored eng k sv s = (Inl err, s')"
  shows "store_abs items s' = store_abs items s
    \<or> store_abs items s' = (store_abs items s)(k := live sv)"
proof -
  obtain r m sc where c: "store_item eng serialize_into (ss_map s) (ss_scratch s) (to_raw k) sv = (r, m, sc)"
    by (rule prod_cases3)
  with assms obtain e where "r = Inl e" "s' = \<lparr>ss_map = m, ss_scratch = sc\<rparr>"
    by (auto simp: store_stored_def map_err_eq_Err)
  with c store_failed [of serialize_into "ss_map s" "ss_scratch s" "to_raw k" sv e m sc]
  consider "items m = items (ss_map s)" | buffer n buffer' where
      "serialize_into sv buffer = (Inr n, buffer')"
      "items m = (items (ss_map s))(to_raw k \<mapsto> take n buffer')"
    by blast
  then show ?thesis
  proof cases
    case 1
    then show ?thesis
      using store_abs_same [of items m s] \<open>s' = _\<close> by simp
  next
    case 2
    then show ?thesis
      using store_abs_update [of _ _ _ _ items, OF 2] \<open>s' = _\<close> by simp
  qed
qed

lemma store_get_cases:
  assumes "store_get eng k out s = (r, out', s')"
  shows "store_abs items s' = store_abs items s"
    and "r = Inr NotFound \<Longrightarrow> store_abs items s k = None \<and> out' = out"
    and "r = Inr (Found n) \<Longrightarrow> \<exists>v. store_abs items s k = Some v \<and> n = length v
           \<and> length v \<le> length out \<and> out' = copy_prefix out v"
    and "r = Inl err \<Longrightarrow> out' = out"
proof -
  obtain q m sc where c: "fetch_item eng deserialize_from (ss_map s) (ss_scratch s) (to_raw k) = (q, m, sc)"
    by (rule prod_cases3)
  have s': "s' = \<lparr>ss_map = m, ss_scratch = sc\<rparr>"
    using assms c
    by (auto simp: store_get_def Let_def split: sum.splits option.splits stored_value.splits if_splits)
  show "store_abs items s' = store_abs items s"
    using fetch_keeps [OF c] by (simp add: s' store_abs_same)
  show "store_abs items s k = None \<and> out' = out" if "r = Inr NotFound"
    using assms c that fetch_none [of deserialize_from] fetch_some [of deserialize_from]
    by (fastforce simp: store_get_def Let_def store_abs_def
        split: sum.splits option.splits stored_value.splits if_splits)
  show "\<exists>v. store_abs items s k = Some v \<and> n = length v
           \<and> length v \<le> length out \<and> out' = copy_prefix out v" if "r = Inr (Found n)"
    using assms c that fetch_some [of deserialize_from]
    by (fastforce simp: store_get_def Let_def store_abs_def
        split: sum.splits option.splits stored_value.splits if_splits)
  show "out' = out" if "r = Inl err"
    using assms c that
    by (auto simp: store_get_def Let_def split: sum.splits option.splits stored_value.splits if_splits)
qed

end

sublocale map_engine \<subseteq> kv: key_value_store "store_get eng" "store_put SCRATCH eng"
  "store_delete eng" "store_clear eng" "store_abs items"
proof
  fix k v out out' s s' u err n r
  show "store_get eng k out s = (r, out', s') \<Longrightarrow> store_abs items s' = store_abs items s"
    by (rule store_get_cases)
  show "store_get eng k out s = (Inr NotFound, out', s') \<Longrightarrow> store_abs items s k = None \<and> out' = out"
    by (rule store_get_cases(2)) simp_all
  show "store_get eng k out s = (Inl err, out', s') \<Longrightarrow> out' = out"
    by (rule store_get_cases(4)) simp_all
  show "store_get eng k out s = (Inr (Found n), out', s') \<Longrightarrow>
     n \<le> length out \<and> store_abs items s k = Some (take n out')
     \<and> length out' = length out \<and> drop n out' = drop n out"
    using store_get_cases(3) [of k out s "Inr (Found n)" out' s' n] by auto
  show "store_put SCRATCH eng k v s = (Inr u, s') \<Longrightarrow>
      store_abs items s' = (store_abs items s)(k \<mapsto> v)"
    using store_stored_done [of k "Live v"] by (auto simp: store_put_def split: if_splits)
  show "store_put SCRATCH eng k v s = (Inl err, s') \<Longrightarrow>
      store_abs items s' = store_abs items s \<or> store_abs items s' = (store_abs items s)(k \<mapsto> v)"
    using store_stored_failed [of k "Live v"] by (auto simp: store_put_def split: if_splits)
  show "store_delete eng k s = (Inr u, s') \<Longrightarrow> store_abs items s' = (store_abs items s)(k := None)"
    using store_stored_done [of k Tombstone] by (auto simp: store_delete_def)
  show "store_delete eng k s = (Inl err, s') \<Longrightarrow>
      store_abs items s' = store_abs items s \<or> store_abs items s' = (store_abs items s)(k := None)"
    using store_stored_failed [of k Tombstone] by (auto simp: store_delete_def)
  show "store_clear eng s = (Inr u, s') \<Longrightarrow> store_abs items s' = Map.empty"
    using erase_done [of "ss_map s"]
    by (auto simp: store_clear_def store_abs_def fun_eq_iff split: prod.splits)
qed

interpretation ram: map_engine ram_engine "\<lambda>m. m"
proof
  fix encode decode m m' scratch scratch' k v u err r
  show "fetch_item ram_engine decode m scratch k = (r, m', scratch') \<Longrightarrow> m' = m"
    by (auto simp: ram_engine_def ram_fetch_def split: option.splits sum.splits)
  show "fetch_item ram_engine decode m scratch k = (Inr None, m', scratch') \<Longrightarrow> m k = None"
    by (auto simp: ram_engine_def ram_fetch_def split: option.splits sum.splits)
  show "fetch_item ram_engine decode m scratch k = (Inr (Some v), m', scratch') \<Longrightarrow>
      \<exists>bytes n. m k = Some bytes \<and> decode bytes = Inr (v, n)"
    by (auto simp: ram_engine_def ram_fetch_def split: option.splits sum.splits)
  show "store_item ram_engine encode m scratch k v = (Inr u, m', scratch') \<Longrightarrow>
      \<exists>buffer n buffer'. encode v buffer = (Inr n, buffer') \<and> m' = m(k \<mapsto> take n buffer')"
    by (auto simp: ram_engine_def ram_store_def split: prod.splits sum.splits)
  show "store_item ram_engine encode m scratch k v = (Inl err, m', scratch') \<Longrightarrow>
      m' = m \<or> (\<exists>buffer n buffer'. encode v buffer = (Inr n, buffer') \<and> m' = m(k \<mapsto> take n buffer'))"
    by (auto simp: ram_engine_def ram_store_def split: prod.splits sum.splits)
  show "erase_all ram_engine m = (Inr u, m') \<Longrightarrow> m' = Map.empty"
    by (simp add: ram_engine_def)
qed

context map_engine
begin

lemma store_history:
  "\<lbrakk>apply_all (mutate (store_put SCRATCH eng) (store_delete eng) (store_clear eng)) xs s = (rs, s');
    list_all is_ok rs\<rbrakk> \<Longrightarrow> store_abs items s' = fold spec_mutation xs (store_abs items s)"
  by (rule kv.mutations_done)

lemma store_values:
  "\<lbrakk>apply_all (mutate (store_put SCRATCH eng) (store_delete eng) (store_clear eng)) xs s = (rs, s');
    MClear \<notin> set xs; store_get eng k out s' = (Inr (Found n), out', s'')\<rbrakk> \<Longrightarrow>
     store_abs items s k = Some (take n out') \<or> MPut k (take n out') \<in> set xs"
  using kv.mutations_values [of SCRATCH xs s rs s'] kv.get_found [of k out s' n out' s''] by blast

lemma store_read_back:
  assumes "store_put SCRATCH eng k v s = (Inr u, s1)"
    and "store_get eng k out s1 = (Inr f, out', s2)"
  shows "f = Found (length v)" "out' = v @ drop (length v) out"
    "store_abs items s2 = (store_abs items s)(k \<mapsto> v)"
proof -
  from kv.read_after_write [OF assms] show f: "f = Found (length v)"
    by simp
  from kv.read_after_write [OF assms] kv.get_found [of k out s1 "length v" out' s2] assms f
  show "out' = v @ drop (length v) out"
    by (metis append_take_drop_id)
  from kv.read_after_write [OF assms] kv.put_done [OF assms(1)]
  show "store_abs items s2 = (store_abs items s)(k \<mapsto> v)"
    by simp
qed

end

lemma sequential_store_new_cases:
  "sequential_store_new try_new map_new capacity SCRATCH flash r =
     (if SCRATCH < 5 then Inl ScratchTooSmall
      else if snd r < fst r \<or> capacity flash < unat (snd r) then Inl RangeOutOfBounds
      else case try_new r of
             Inl e \<Rightarrow> Inl (config_error_from e)
           | Inr config \<Rightarrow> Inr \<lparr>ss_map = map_new flash config, ss_scratch = replicate SCRATCH 0\<rparr>)"
  by (simp add: sequential_store_new_def ENCODING_OVERHEAD_def Let_def split: sum.split)

lemmas ram_eval = ram_store_new_def store_put_def store_get_def store_delete_def store_clear_def
  store_stored_def ram_engine_def ram_store_def ram_fetch_def serialize_into_def
  deserialize_from_def copy_prefix_def MAX_VALUE_SIZE_def ENCODING_OVERHEAD_def Let_def

section \<open>Properties\<close>

text \<open>
  C1. The store implements a map. Over any engine that keeps its contract, a history of
  \<open>put\<close>, \<open>delete\<close> and \<open>clear\<close> calls that all succeed leaves exactly the values
  the same history leaves in an abstract map from keys to byte strings.
\<close>

theorem store_refines_map:
  assumes "map_engine eng items"
    and "apply_all (mutate (store_put SCRATCH eng) (store_delete eng) (store_clear eng)) xs s = (rs, s')"
    and "list_all is_ok rs"
  shows "store_abs items s' = fold spec_mutation xs (store_abs items s)"
  by (rule map_engine.store_history [OF assms])

theorem store_refines_map_witness:
  "\<exists>rs s'. apply_all (mutate (store_put 8 ram_engine) (store_delete ram_engine) (store_clear ram_engine))
       [MPut (Key 1 2) [7, 8], MPut (Key 3 4) [9], MDelete (Key 1 2)] (ram_store_new 8) = (rs, s')
     \<and> store_abs (\<lambda>m. m) s' (Key 1 2) = None \<and> store_abs (\<lambda>m. m) s' (Key 3 4) = Some [9]"
proof -
  let ?ops = "[MPut (Key 1 2) [7, 8], MPut (Key 3 4) [9], MDelete (Key 1 2)]"
  obtain rs s' where run: "apply_all (mutate (store_put 8 ram_engine) (store_delete ram_engine)
      (store_clear ram_engine)) ?ops (ram_store_new 8) = (rs, s')"
    by fastforce
  then have "list_all is_ok rs"
    by (auto simp: ram_eval eval_nat_numeral)
  then have "store_abs (\<lambda>m. m) s' = fold spec_mutation ?ops (store_abs (\<lambda>m. m) (ram_store_new 8))"
    by (rule store_refines_map [OF ram.map_engine_axioms run])
  with run show ?thesis
    by simp
qed

text \<open>
  No torn values: after any history of \<open>put\<close> and \<open>delete\<close> calls, whichever of them
  failed or were interrupted, a read that finds a value returns a complete value that was put
  under the same key, or the complete value that was there at the start.
\<close>

lemma store_no_torn_values:
  assumes "map_engine eng items"
    and "apply_all (mutate (store_put SCRATCH eng) (store_delete eng) (store_clear eng)) xs s = (rs, s')"
    and "MClear \<notin> set xs"
    and "store_get eng k out s' = (Inr (Found n), out', s'')"
  shows "store_abs items s k = Some (take n out') \<or> MPut k (take n out') \<in> set xs"
  by (rule map_engine.store_values [OF assms])

text \<open>
  Reading back: after a successful \<open>put\<close> a successful \<open>get\<close> of the key reports the
  length of the value and fills exactly that much of the caller's buffer with it, and neither
  operation has touched any other key.
\<close>

lemma store_read_after_write:
  assumes "map_engine eng items"
    and "store_put SCRATCH eng k v s = (Inr (), s1)"
    and "store_get eng k out s1 = (Inr f, out', s2)"
  shows "f = Found (length v) \<and> out' = v @ drop (length v) out
    \<and> store_abs items s2 = (store_abs items s)(k \<mapsto> v)"
  using map_engine.store_read_back [OF assms] by blast

text \<open>
  C15. The persistent encoding loses nothing: an encoded record decodes to the value and the
  length that were written; encoding succeeds exactly when the buffer has one byte more than
  the value; and for a scratch buffer that the constructor accepts, the published
  \<open>MAX_VALUE_SIZE\<close> is exactly the largest value that fits beside the four-byte key.
\<close>

theorem stored_value_roundtrip:
  "(serialize_into sv buffer = (Inr n, buffer') \<longrightarrow> deserialize_from (take n buffer') = Inr (sv, n))
   \<and> (is_ok (fst (serialize_into (Live v) buffer)) \<longleftrightarrow> length v < length buffer)
   \<and> (5 \<le> SCRATCH \<longrightarrow>
        (is_ok (fst (serialize_into (Live v) (replicate (SCRATCH - 4) 0)))
         \<longleftrightarrow> length v \<le> MAX_VALUE_SIZE SCRATCH))"
proof (intro conjI impI)
  show "deserialize_from (take n buffer') = Inr (sv, n)"
    if "serialize_into sv buffer = (Inr n, buffer')"
    using that by (rule deserialize_serialize)
  show "is_ok (fst (serialize_into (Live v) buffer)) \<longleftrightarrow> length v < length buffer"
    by (simp add: serialize_fits)
  show "is_ok (fst (serialize_into (Live v) (replicate (SCRATCH - 4) 0)))
         \<longleftrightarrow> length v \<le> MAX_VALUE_SIZE SCRATCH" if "5 \<le> SCRATCH"
    using that by (auto simp: serialize_fits MAX_VALUE_SIZE_def ENCODING_OVERHEAD_def)
qed

theorem stored_value_roundtrip_witness:
  "deserialize_from [1, 7, 8] = Inr (Live [7, 8], 3) \<and> MAX_VALUE_SIZE 8 = 3"
  using stored_value_roundtrip [of "Live [7, 8]" "[0, 0, 0, 0]" 3 "[1, 7, 8, 0]" "[7, 8]" 8]
  by (simp add: serialize_into_def copy_prefix_def MAX_VALUE_SIZE_def ENCODING_OVERHEAD_def
      eval_nat_numeral)

text \<open>
  A key's persistent form is stable: the raw form and the key determine each other, and
  the order of keys is the numeric order of their raw forms.
\<close>

lemma key_raw_bijection:
  "from_raw (to_raw k) = k \<and> to_raw (from_raw r) = r
   \<and> (k \<le> j \<longleftrightarrow> to_raw k \<le> to_raw j) \<and> unat (to_raw k) = unat (key_namespace k) * 2 ^ 16 + unat (key_record k)"
  by (simp add: to_raw_le_iff unat_to_raw)

text \<open>
  The guards of the store: \<open>new\<close> succeeds exactly when the scratch buffer holds a key
  and a tag, the range is ordered and inside the flash and the engine accepts it; a value
  over the limit is refused without touching the engine; a fetch into a buffer that is too
  small reports the size needed.
\<close>

lemma store_guards:
  "(is_ok (sequential_store_new try_new map_new capacity SCRATCH flash r) \<longleftrightarrow>
      5 \<le> SCRATCH \<and> fst r \<le> snd r \<and> unat (snd r) \<le> capacity flash \<and> is_ok (try_new r))
   \<and> (MAX_VALUE_SIZE SCRATCH < length v \<longrightarrow> store_put SCRATCH eng k v s = (Inl ValueTooLarge, s))
   \<and> (fetch_item eng deserialize_from (ss_map s) (ss_scratch s) (to_raw k) = (Inr (Some (Live v)), m, sc)
        \<and> length out < length v \<longrightarrow>
      fst (store_get eng k out s) = Inl (BufferTooSmall (length v)) \<and> fst (snd (store_get eng k out s)) = out)"
proof (intro conjI impI)
  show "is_ok (sequential_store_new try_new map_new capacity SCRATCH flash r) \<longleftrightarrow>
      5 \<le> SCRATCH \<and> fst r \<le> snd r \<and> unat (snd r) \<le> capacity flash \<and> is_ok (try_new r)"
    by (auto simp: sequential_store_new_cases is_ok_def split: sum.splits)
qed (auto simp: store_put_def store_get_def Let_def)

end
