(* ===== verification/Storage_Flash.thy ===== *)
theory Storage_Flash
  imports Storage
begin

text \<open>
  What lies below and around the store of \<open>crates/storage\<close>. The NOR flash a store is built
  on is the locale \<open>nor_flash\<close>; the RAM flash with power failures that the crate's tests use
  provides it, and \<open>BlockingFlash\<close> provides it again over every driver that does. Handing the
  flash back (\<open>into_flash\<close>) and opening it again is a restart of the device: the locale
  \<open>persistent_engine\<close> adds to \<open>map_engine\<close> what the engine keeps in the flash itself, and
  over it histories of calls, failures and restarts are followed.
\<close>

section \<open>Definitions\<close>

subsection \<open>The RAM flash\<close>

definition RAM_CAPACITY :: nat where
  "RAM_CAPACITY = 1024"

definition RAM_PAGE_SIZE :: nat where
  "RAM_PAGE_SIZE = 256"

datatype flash_error = OutOfBounds | NotAligned | NotErased | Interrupted

datatype nor_flash_error_kind = NFNotAligned | NFOutOfBounds | NFOther

fun flash_error_kind :: "flash_error \<Rightarrow> nor_flash_error_kind" where
  "flash_error_kind OutOfBounds = NFOutOfBounds"
| "flash_error_kind NotAligned = NFNotAligned"
| "flash_error_kind NotErased = NFOther"
| "flash_error_kind Interrupted = NFOther"

record ram_flash =
  rf_bytes :: "u8 list"
  rf_bytes_until_failure :: "nat option"

definition ram_flash_erased :: ram_flash where
  "ram_flash_erased = \<lparr>rf_bytes = replicate RAM_CAPACITY umax, rf_bytes_until_failure = None\<rparr>"

definition interrupt_after :: "nat \<Rightarrow> ram_flash \<Rightarrow> ram_flash" where
  "interrupt_after bytes f = f\<lparr>rf_bytes_until_failure := Some bytes\<rparr>"

text \<open>
  The power supply of the simulation, which \<open>write_byte\<close> and \<open>erase\<close> consult for every byte:
  when the remaining bytes are used up, the operation is interrupted and the supply is back.
\<close>

definition consume_byte :: "ram_flash \<Rightarrow> (unit, flash_error) result \<times> ram_flash" where
  "consume_byte f =
     (case rf_bytes_until_failure f of
        None \<Rightarrow> (Ok (), f)
      | Some remaining \<Rightarrow>
          if remaining = 0 then (Err Interrupted, f\<lparr>rf_bytes_until_failure := None\<rparr>)
          else (Ok (), f\<lparr>rf_bytes_until_failure := Some (remaining - 1)\<rparr>))"

text \<open>The callers have checked that the address is inside the array.\<close>

definition write_byte :: "nat \<Rightarrow> u8 \<Rightarrow> ram_flash \<Rightarrow> (unit, flash_error) result \<times> ram_flash" where
  "write_byte address v f =
     (case consume_byte f of
        (Inl e, f) \<Rightarrow> (Err e, f)
      | (Inr _, f) \<Rightarrow>
          if rf_bytes f ! address AND v \<noteq> v then (Err NotErased, f)
          else (Ok (), f\<lparr>rf_bytes := (rf_bytes f)[address := rf_bytes f ! address AND v]\<rparr>))"

definition ram_read ::
  "ram_flash \<Rightarrow> u32 \<Rightarrow> u8 list \<Rightarrow> (unit, flash_error) result \<times> ram_flash \<times> u8 list" where
  "ram_read f offset bytes =
     (let start = unat offset
      in if start + length bytes \<le> length (rf_bytes f)
         then (Ok (), f, take (length bytes) (drop start (rf_bytes f)))
         else (Err OutOfBounds, f, bytes))"

definition ram_capacity :: "ram_flash \<Rightarrow> nat" where
  "ram_capacity f = length (rf_bytes f)"

text \<open>The loop of \<open>erase\<close> over the addresses from \<open>address\<close> on, \<open>n\<close> of them.\<close>

fun erase_bytes :: "nat \<Rightarrow> nat \<Rightarrow> ram_flash \<Rightarrow> (unit, flash_error) result \<times> ram_flash" where
  "erase_bytes address 0 f = (Ok (), f)"
| "erase_bytes address (Suc n) f =
     (case consume_byte f of
        (Inl e, f) \<Rightarrow> (Err e, f)
      | (Inr _, f) \<Rightarrow> erase_bytes (Suc address) n (f\<lparr>rf_bytes := (rf_bytes f)[address := umax]\<rparr>))"

definition ram_erase :: "ram_flash \<Rightarrow> u32 \<Rightarrow> u32 \<Rightarrow> (unit, flash_error) result \<times> ram_flash" where
  "ram_erase f from_offset to_offset =
     (let first = unat from_offset; stop = unat to_offset
      in if first > stop \<or> stop > length (rf_bytes f) then (Err OutOfBounds, f)
         else if first mod RAM_PAGE_SIZE \<noteq> 0 \<or> stop mod RAM_PAGE_SIZE \<noteq> 0 then (Err NotAligned, f)
         else erase_bytes first (stop - first) f)"

text \<open>The loop of \<open>write\<close>: byte after byte, up to the first that fails.\<close>

fun write_bytes :: "nat \<Rightarrow> u8 list \<Rightarrow> ram_flash \<Rightarrow> (unit, flash_error) result \<times> ram_flash" where
  "write_bytes address [] f = (Ok (), f)"
| "write_bytes address (v # vs) f =
     (case write_byte address v f of
        (Inl e, f) \<Rightarrow> (Err e, f)
      | (Inr _, f) \<Rightarrow> write_bytes (Suc address) vs f)"

definition ram_write :: "ram_flash \<Rightarrow> u32 \<Rightarrow> u8 list \<Rightarrow> (unit, flash_error) result \<times> ram_flash" where
  "ram_write f offset bytes =
     (let start = unat offset
      in if start + length bytes > length (rf_bytes f) then (Err OutOfBounds, f)
         else write_bytes start bytes f)"

subsection \<open>Access to a wrapped driver\<close>

definition bf_get_ref :: "'s blocking_flash \<Rightarrow> 's" where
  "bf_get_ref f = bf_inner f"

text \<open>What a caller does through the mutable reference is the function applied to the driver.\<close>

definition bf_get_mut :: "('s \<Rightarrow> 's) \<Rightarrow> 's blocking_flash \<Rightarrow> 's blocking_flash" where
  "bf_get_mut change f = f\<lparr>bf_inner := change (bf_inner f)\<rparr>"

definition bf_into_inner :: "'s blocking_flash \<Rightarrow> 's" where
  "bf_into_inner f = bf_inner f"

subsection \<open>Closing and opening a store\<close>

text \<open>
  The engine's functions beside the ones of \<open>map_engine_ops\<close>: the range a map was configured
  with, the flash it gives back, and access to the flash inside.
\<close>

record ('m, 'flash, 'cfg) map_storage_ops =
  try_new :: "u32 \<times> u32 \<Rightarrow> ('cfg, map_config_error) result"
  map_new :: "'flash \<Rightarrow> 'cfg \<Rightarrow> 'm"
  flash_range :: "'m \<Rightarrow> u32 \<times> u32"
  destroy :: "'m \<Rightarrow> 'flash"
  flash_update :: "('flash \<Rightarrow> 'flash) \<Rightarrow> 'm \<Rightarrow> 'm"

definition store_range :: "('m, 'flash, 'cfg) map_storage_ops \<Rightarrow> 'm sequential_store \<Rightarrow> u32 \<times> u32" where
  "store_range ops s = flash_range ops (ss_map s)"

definition store_flash_mut ::
  "('m, 'flash, 'cfg) map_storage_ops \<Rightarrow> ('flash \<Rightarrow> 'flash) \<Rightarrow> 'm sequential_store \<Rightarrow> 'm sequential_store" where
  "store_flash_mut ops change s = s\<lparr>ss_map := flash_update ops change (ss_map s)\<rparr>"

definition store_into_flash :: "('m, 'flash, 'cfg) map_storage_ops \<Rightarrow> 'm sequential_store \<Rightarrow> 'flash" where
  "store_into_flash ops s = destroy ops (ss_map s)"

abbreviation store_open ::
  "('m, 'flash, 'cfg) map_storage_ops \<Rightarrow> ('flash \<Rightarrow> nat) \<Rightarrow> nat \<Rightarrow> 'flash \<Rightarrow> u32 \<times> u32
   \<Rightarrow> ('m sequential_store, storage_config_error) result" where
  "store_open ops \<equiv> sequential_store_new (try_new ops) (map_new ops)"

text \<open>
  A life of a store: calls that may fail, and restarts, in which the flash is handed back and
  opened again over the same range. The results are recorded; a restart that the constructor
  refuses ends the life.
\<close>

datatype life_event = Call mutation | Restart

fun store_life ::
  "nat \<Rightarrow> ('m, 'e) map_engine_ops \<Rightarrow> ('m, 'flash, 'cfg) map_storage_ops \<Rightarrow> ('flash \<Rightarrow> nat)
   \<Rightarrow> life_event list \<Rightarrow> 'm sequential_store
   \<Rightarrow> (mutation \<times> bool) list \<times> ('m sequential_store, storage_config_error) result" where
  "store_life SCRATCH eng ops capacity [] s = ([], Ok s)"
| "store_life SCRATCH eng ops capacity (Call x # es) s =
     (let (r, s') = mutate (store_put SCRATCH eng) (store_delete eng) (store_clear eng) x s;
          (log, final) = store_life SCRATCH eng ops capacity es s'
      in ((x, is_ok r) # log, final))"
| "store_life SCRATCH eng ops capacity (Restart # es) s =
     (case store_open ops capacity SCRATCH (store_into_flash ops s) (store_range ops s) of
        Inl e \<Rightarrow> ([], Err e)
      | Inr s' \<Rightarrow> store_life SCRATCH eng ops capacity es s')"

text \<open>
  What a log of calls may have left: each call that succeeded had its effect, and each that
  failed had its whole effect or none.
\<close>

fun possible :: "(mutation \<times> bool) list \<Rightarrow> mutation list set" where
  "possible [] = {[]}"
| "possible ((x, ok) # log) = (#) x ` possible log \<union> (if ok then {} else possible log)"

text \<open>An engine in memory that keeps its records in the flash it is given.\<close>

record ram_disk =
  rd_capacity :: nat
  rd_records :: "u32 \<Rightarrow> u8 list option"

type_synonym ram_map = "(u32 \<times> u32) \<times> ram_disk"

definition on_records ::
  "('r \<times> (u32 \<Rightarrow> u8 list option) \<times> 'x) \<Rightarrow> ram_map \<Rightarrow> 'r \<times> ram_map \<times> 'x" where
  "on_records result m =
     (let (r, records, x) = result in (r, (fst m, snd m\<lparr>rd_records := records\<rparr>), x))"

definition disk_engine :: "(ram_map, unit) map_engine_ops" where
  "disk_engine =
     \<lparr>fetch_item = \<lambda>decode m scratch k. on_records (ram_fetch decode (rd_records (snd m)) scratch k) m,
      store_item = \<lambda>encode m scratch k v. on_records (ram_store encode (rd_records (snd m)) scratch k v) m,
      erase_all = \<lambda>m. (Ok (), (fst m, snd m\<lparr>rd_records := Map.empty\<rparr>))\<rparr>"

definition disk_storage :: "(ram_map, ram_disk, u32 \<times> u32) map_storage_ops" where
  "disk_storage =
     \<lparr>try_new = \<lambda>r.
        if fst r mod 256 \<noteq> 0 then Err StartRangeNotAtPageBoundary
        else if snd r mod 256 \<noteq> 0 then Err EndRangeNotAtPageBoundary
        else if snd r - fst r < 512 then Err MapRangeTooSmall else Ok r,
      map_new = \<lambda>flash config. (config, flash),
      flash_range = fst, destroy = snd,
      flash_update = \<lambda>change m. (fst m, change (snd m))\<rparr>"

section \<open>Interfaces\<close>

subsection \<open>NOR flash\<close>

text \<open>
  What a NOR flash promises, over its bytes: a read that succeeds returns the bytes of the
  region and changes none; an erase that succeeds sets the region to ones; a write that
  succeeds can only clear bits, so the region then holds the conjunction of what was there
  and what was written; and no operation, whether it fails or is interrupted, changes the
  size of the flash or a byte outside its region.
\<close>

definition same_outside :: "nat \<Rightarrow> nat \<Rightarrow> 'a list \<Rightarrow> 'a list \<Rightarrow> bool" where
  "same_outside start n xs ys \<longleftrightarrow>
     length xs = length ys \<and> take start xs = take start ys \<and> drop (start + n) xs = drop (start + n) ys"

definition region :: "nat \<Rightarrow> nat \<Rightarrow> 'a list \<Rightarrow> 'a list" where
  "region start n xs = take n (drop start xs)"

lemma map2_umax: "map2 (AND) (replicate (length v) umax) v = (v :: u8 list)"
  by (induction v) (simp_all add: umax_def)

lemma region_prefix: "m \<le> n \<Longrightarrow> region start m xs = take m (region start n xs)"
  by (simp add: region_def min_def)

lemma region_same_outside:
  assumes "same_outside start n xs ys" and "b + m \<le> start \<or> start + n \<le> b"
  shows "region b m xs = region b m ys"
  using assms(2)
proof
  assume "b + m \<le> start"
  then have "region b m zs = region b m (take start zs)" for zs :: "'a list"
    by (simp add: region_def drop_take min_def)
  with assms(1) show ?thesis
    by (metis same_outside_def)
next
  assume "start + n \<le> b"
  then have "drop b zs = drop (b - (start + n)) (drop (start + n) zs)" for zs :: "'a list"
    by simp
  with assms(1) show ?thesis
    by (metis region_def same_outside_def)
qed

locale nor_flash =
  fixes flash_read :: "'s \<Rightarrow> u32 \<Rightarrow> u8 list \<Rightarrow> (unit, 'e) result \<times> 's \<times> u8 list"
    and flash_write :: "'s \<Rightarrow> u32 \<Rightarrow> u8 list \<Rightarrow> (unit, 'e) result \<times> 's"
    and flash_erase :: "'s \<Rightarrow> u32 \<Rightarrow> u32 \<Rightarrow> (unit, 'e) result \<times> 's"
    and flash_capacity :: "'s \<Rightarrow> nat"
    and contents :: "'s \<Rightarrow> u8 list"
  assumes capacity_contents: "flash_capacity f = length (contents f)"
    and read_keeps: "flash_read f a out = (r, f', out') \<Longrightarrow> contents f' = contents f"
    and read_done:
      "flash_read f a out = (Inr u, f', out') \<Longrightarrow>
         unat a + length out \<le> length (contents f) \<and> out' = region (unat a) (length out) (contents f)"
    and read_failed: "flash_read f a out = (Inl err, f', out') \<Longrightarrow> out' = out"
    and write_frame:
      "flash_write f a v = (r, f') \<Longrightarrow> same_outside (unat a) (length v) (contents f') (contents f)"
    and write_done:
      "flash_write f a v = (Inr u, f') \<Longrightarrow>
         unat a + length v \<le> length (contents f)
         \<and> region (unat a) (length v) (contents f') =
             map2 (AND) (region (unat a) (length v) (contents f)) v"
    and erase_frame:
      "flash_erase f a b = (r, f') \<Longrightarrow>
         same_outside (unat a) (unat b - unat a) (contents f') (contents f)"
    and erase_done:
      "flash_erase f a b = (Inr u, f') \<Longrightarrow>
         unat a \<le> unat b \<and> unat b \<le> length (contents f)
         \<and> region (unat a) (unat b - unat a) (contents f') = replicate (unat b - unat a) umax"
begin

text \<open>What is written into an erased region is read back.\<close>

lemma write_erased:
  assumes "region (unat a) (length v) (contents f) = replicate (length v) umax"
    and "flash_write f a v = (Inr u, f1)" and "flash_read f1 a out = (Inr u', f2, out')"
    and "length out = length v"
  shows "out' = v"
proof -
  have "region (unat a) (length v) (contents f1) = map2 (AND) (replicate (length v) umax) v"
    using write_done [OF assms(2)] assms(1) by simp
  with read_done [OF assms(3)] assms(4) show ?thesis
    by (simp add: map2_umax)
qed

text \<open>A write, even a failed one, does not disturb a read elsewhere.\<close>

lemma read_elsewhere:
  assumes "flash_write f a v = (r, f1)"
    and "unat b + length out \<le> unat a \<or> unat a + length v \<le> unat b"
    and "flash_read f1 b out = (Inr u, f2, out')"
  shows "out' = region (unat b) (length out) (contents f)"
  using read_done [OF assms(3)] region_same_outside [OF write_frame [OF assms(1)] assms(2)] by simp

text \<open>A life cycle of a region: erased, written, read.\<close>

lemma erase_write_read:
  assumes "flash_erase f a b = (Inr u1, f1)" and "length v \<le> unat b - unat a"
    and "flash_write f1 a v = (Inr u2, f2)" and "flash_read f2 a out = (Inr u3, f3, out')"
    and "length out = length v"
  shows "out' = v"
proof -
  have "region (unat a) (length v) (contents f1) = replicate (length v) umax"
    using erase_done [OF assms(1)] region_prefix [OF assms(2), of "unat a" "contents f1"]
    by (simp add: min_def assms(2))
  from write_erased [OF this assms(3,4,5)] show ?thesis .
qed

lemma writes_keep_size:
  "flash_write f a v = (r, f') \<Longrightarrow> flash_capacity f' = flash_capacity f"
  "flash_erase f a b = (r, f') \<Longrightarrow> flash_capacity f' = flash_capacity f"
  using write_frame [of f a v r f'] erase_frame [of f a b r f'] by (simp_all add: capacity_contents same_outside_def)

text \<open>\<open>BlockingFlash\<close> keeps the promises of the driver it wraps.\<close>

lemma blocking_nor_flash:
  "nor_flash (bf_read flash_read) (bf_write flash_write) (bf_erase flash_erase)
     (bf_capacity flash_capacity) (\<lambda>f. contents (bf_inner f))"
proof
  fix f f' :: "'s blocking_flash" and a b out out' v r u err
  show "bf_capacity flash_capacity f = length (contents (bf_inner f))"
    by (simp add: bf_capacity_def capacity_contents)
  show "bf_read flash_read f a out = (r, f', out') \<Longrightarrow> contents (bf_inner f') = contents (bf_inner f)"
    by (auto simp: bf_read_def read_keeps split: prod.splits)
  show "bf_read flash_read f a out = (Inr u, f', out') \<Longrightarrow>
      unat a + length out \<le> length (contents (bf_inner f)) \<and> out' = region (unat a) (length out) (contents (bf_inner f))"
    using read_done by (auto simp: bf_read_def split: prod.splits)
  show "bf_read flash_read f a out = (Inl err, f', out') \<Longrightarrow> out' = out"
    using read_failed by (auto simp: bf_read_def split: prod.splits)
  show "bf_write flash_write f a v = (r, f') \<Longrightarrow>
      same_outside (unat a) (length v) (contents (bf_inner f')) (contents (bf_inner f))"
    using write_frame by (auto simp: bf_write_def split: prod.splits)
  show "bf_write flash_write f a v = (Inr u, f') \<Longrightarrow>
      unat a + length v \<le> length (contents (bf_inner f))
      \<and> region (unat a) (length v) (contents (bf_inner f')) =
          map2 (AND) (region (unat a) (length v) (contents (bf_inner f))) v"
    using write_done by (auto simp: bf_write_def split: prod.splits)
  show "bf_erase flash_erase f a b = (r, f') \<Longrightarrow>
      same_outside (unat a) (unat b - unat a) (contents (bf_inner f')) (contents (bf_inner f))"
    using erase_frame by (auto simp: bf_erase_def split: prod.splits)
  show "bf_erase flash_erase f a b = (Inr u, f') \<Longrightarrow>
      unat a \<le> unat b \<and> unat b \<le> length (contents (bf_inner f))
      \<and> region (unat a) (unat b - unat a) (contents (bf_inner f')) = replicate (unat b - unat a) umax"
    using erase_done by (auto simp: bf_erase_def split: prod.splits)
qed

end

section \<open>The RAM flash is a NOR flash\<close>

definition overwrite :: "nat \<Rightarrow> 'a list \<Rightarrow> 'a list \<Rightarrow> 'a list" where
  "overwrite start v xs = take start xs @ v @ drop (start + length v) xs"

lemma overwrite_Nil [simp]: "overwrite start [] xs = xs"
  by (simp add: overwrite_def)

lemma length_overwrite [simp]: "start + length v \<le> length xs \<Longrightarrow> length (overwrite start v xs) = length xs"
  by (simp add: overwrite_def)

lemma overwrite_Cons: "start < length xs \<Longrightarrow> overwrite start (x # v) xs = overwrite (Suc start) v (xs[start := x])"
  by (simp add: overwrite_def take_Suc_conv_app_nth)

lemma region_overwrite: "start + length v \<le> length xs \<Longrightarrow> region start (length v) (overwrite start v xs) = v"
  by (simp add: overwrite_def region_def)

lemma same_outside_overwrite:
  "\<lbrakk>start + n \<le> length xs; length v \<le> n\<rbrakk> \<Longrightarrow> same_outside start n (overwrite start v xs) xs"
  by (simp add: same_outside_def overwrite_def add.commute)

lemma region_Suc: "start < length xs \<Longrightarrow> region start (Suc n) xs = xs ! start # region (Suc start) n xs"
  by (simp add: region_def Cons_nth_drop_Suc [symmetric])

lemma region_update: "a < start \<Longrightarrow> region start n (xs[a := x]) = region start n xs"
  by (simp add: region_def)

text \<open>Each byte of a write that is done has its bits among those still set.\<close>

abbreviation writable :: "nat \<Rightarrow> u8 list \<Rightarrow> ram_flash \<Rightarrow> bool" where
  "writable a v f \<equiv> map2 (AND) (region a (length v) (rf_bytes f)) v = v"

lemma write_byte_cases:
  assumes "write_byte a v f = (r, f')"
  shows "(\<exists>err. r = Inl err) \<and> rf_bytes f' = rf_bytes f
    \<or> r = Inr () \<and> rf_bytes f ! a AND v = v \<and> rf_bytes f' = (rf_bytes f)[a := v]"
  using assms by (auto simp: write_byte_def consume_byte_def split: option.splits if_splits)

lemma write_bytes_prefix:
  assumes "write_bytes a v f = (r, f')" and "a + length v \<le> length (rf_bytes f)"
  shows "\<exists>n \<le> length v. rf_bytes f' = overwrite a (take n v) (rf_bytes f) \<and> writable a (take n v) f
    \<and> (is_ok r \<longrightarrow> n = length v)"
  using assms
proof (induction v arbitrary: a f)
  case (Cons x v)
  obtain r1 f1 where w: "write_byte a x f = (r1, f1)"
    by fastforce
  from write_byte_cases [OF w] show ?case
  proof (elim disjE conjE exE)
    fix err
    assume "r1 = Inl err" "rf_bytes f1 = rf_bytes f"
    with Cons.prems w show ?thesis
      by (intro exI [of _ 0]) (auto simp: region_def)
  next
    assume r1: "r1 = Inr ()" and x: "rf_bytes f ! a AND x = x" and f1: "rf_bytes f1 = (rf_bytes f)[a := x]"
    have "write_bytes (Suc a) v f1 = (r, f')" and "Suc a + length v \<le> length (rf_bytes f1)"
      using Cons.prems w r1 f1 by simp_all
    from Cons.IH [OF this] obtain n where n: "n \<le> length v"
      "rf_bytes f' = overwrite (Suc a) (take n v) (rf_bytes f1)" "writable (Suc a) (take n v) f1"
      "is_ok r \<longrightarrow> n = length v"
      by blast
    with Cons.prems x f1 show ?thesis
      by (intro exI [of _ "Suc n"]) (simp add: overwrite_Cons region_Suc region_update)
  qed
qed (simp add: region_def)

text \<open>With the supply cut off after some bytes, exactly these are written.\<close>

lemma write_bytes_exact:
  assumes "writable a v f" and "a + length v \<le> length (rf_bytes f)"
  shows "write_bytes a v f =
    (case rf_bytes_until_failure f of
       None \<Rightarrow> (Inr (), f\<lparr>rf_bytes := overwrite a v (rf_bytes f)\<rparr>)
     | Some n \<Rightarrow>
         if n < length v
         then (Inl Interrupted,
               f\<lparr>rf_bytes := overwrite a (take n v) (rf_bytes f), rf_bytes_until_failure := None\<rparr>)
         else (Inr (), f\<lparr>rf_bytes := overwrite a v (rf_bytes f), rf_bytes_until_failure := Some (n - length v)\<rparr>))"
  using assms
proof (induction v arbitrary: a f)
  case (Cons x v)
  then have x: "rf_bytes f ! a AND x = x" and a: "a < length (rf_bytes f)"
    by (auto simp: region_Suc)
  let ?g = "f\<lparr>rf_bytes := (rf_bytes f)[a := x]\<rparr>"
  have IH: "write_bytes (Suc a) v g = (case rf_bytes_until_failure g of
       None \<Rightarrow> (Inr (), g\<lparr>rf_bytes := overwrite (Suc a) v (rf_bytes g)\<rparr>)
     | Some n \<Rightarrow>
         if n < length v
         then (Inl Interrupted,
               g\<lparr>rf_bytes := overwrite (Suc a) (take n v) (rf_bytes g), rf_bytes_until_failure := None\<rparr>)
         else (Inr (), g\<lparr>rf_bytes := overwrite (Suc a) v (rf_bytes g), rf_bytes_until_failure := Some (n - length v)\<rparr>))"
    if "rf_bytes g = rf_bytes ?g" for g
    using that Cons.prems a by (intro Cons.IH) (auto simp: region_Suc region_update)
  show ?case
  proof (cases "rf_bytes_until_failure f")
    case None
    then show ?thesis
      using x a IH [of ?g] by (simp add: write_byte_def consume_byte_def overwrite_Cons)
  next
    case (Some n)
    then show ?thesis
      using x a IH [of "f\<lparr>rf_bytes_until_failure := Some (n - 1), rf_bytes := (rf_bytes f)[a := x]\<rparr>"]
      by (cases n) (simp_all add: write_byte_def consume_byte_def overwrite_Cons)
  qed
qed (auto split: option.splits)

lemma erase_bytes_exact:
  assumes "a + n \<le> length (rf_bytes f)"
  shows "erase_bytes a n f =
    (case rf_bytes_until_failure f of
       None \<Rightarrow> (Inr (), f\<lparr>rf_bytes := overwrite a (replicate n umax) (rf_bytes f)\<rparr>)
     | Some k \<Rightarrow>
         if k < n
         then (Inl Interrupted,
               f\<lparr>rf_bytes := overwrite a (replicate k umax) (rf_bytes f), rf_bytes_until_failure := None\<rparr>)
         else (Inr (), f\<lparr>rf_bytes := overwrite a (replicate n umax) (rf_bytes f), rf_bytes_until_failure := Some (k - n)\<rparr>))"
  using assms
proof (induction n arbitrary: a f)
  case (Suc n)
  then have a: "a < length (rf_bytes f)"
    by simp
  show ?case
  proof (cases "rf_bytes_until_failure f")
    case None
    then show ?thesis
      using Suc a by (simp add: consume_byte_def overwrite_Cons)
  next
    case (Some k)
    then show ?thesis
      using Suc a by (cases k) (simp_all add: consume_byte_def overwrite_Cons)
  qed
qed (auto split: option.splits)

lemma erase_bytes_prefix:
  assumes "erase_bytes a n f = (r, f')" and "a + n \<le> length (rf_bytes f)"
  shows "\<exists>k \<le> n. rf_bytes f' = overwrite a (replicate k umax) (rf_bytes f) \<and> (is_ok r \<longrightarrow> k = n)"
proof (cases "rf_bytes_until_failure f")
  case (Some k)
  with assms erase_bytes_exact [OF assms(2)] show ?thesis
    by (intro exI [of _ "min k n"]) (auto simp: min_def split: if_splits)
qed (use assms erase_bytes_exact [OF assms(2)] in auto)

text \<open>One lemma per operation; the contract follows.\<close>

lemma ram_write_cases:
  assumes "ram_write f a v = (r, f')"
  shows "same_outside (unat a) (length v) (rf_bytes f') (rf_bytes f)"
    and "r = Inr u \<Longrightarrow> unat a + length v \<le> length (rf_bytes f)
           \<and> rf_bytes f' = overwrite (unat a) v (rf_bytes f) \<and> writable (unat a) v f"
proof -
  have "same_outside (unat a) (length v) (rf_bytes f') (rf_bytes f) \<and> (r = Inr u \<longrightarrow>
      unat a + length v \<le> length (rf_bytes f)
      \<and> rf_bytes f' = overwrite (unat a) v (rf_bytes f) \<and> writable (unat a) v f)"
  proof (cases "unat a + length v \<le> length (rf_bytes f)")
    case True
    then have "write_bytes (unat a) v f = (r, f')"
      using assms by (simp add: ram_write_def Let_def)
    from write_bytes_prefix [OF this True] obtain n where
      "n \<le> length v" "rf_bytes f' = overwrite (unat a) (take n v) (rf_bytes f)"
      "writable (unat a) (take n v) f" "is_ok r \<longrightarrow> n = length v"
      by blast
    with True same_outside_overwrite [OF True, of "take n v"] show ?thesis
      by (auto simp: is_ok_iff)
  qed (use assms in \<open>auto simp: ram_write_def Let_def same_outside_def\<close>)
  then show "same_outside (unat a) (length v) (rf_bytes f') (rf_bytes f)"
    and "r = Inr u \<Longrightarrow> unat a + length v \<le> length (rf_bytes f)
           \<and> rf_bytes f' = overwrite (unat a) v (rf_bytes f) \<and> writable (unat a) v f"
    by simp_all
qed

lemma ram_erase_cases:
  assumes "ram_erase f a b = (r, f')"
  shows "same_outside (unat a) (unat b - unat a) (rf_bytes f') (rf_bytes f)"
    and "r = Inr u \<Longrightarrow> unat a \<le> unat b \<and> unat b \<le> length (rf_bytes f)
           \<and> rf_bytes f' = overwrite (unat a) (replicate (unat b - unat a) umax) (rf_bytes f)"
proof -
  have "same_outside (unat a) (unat b - unat a) (rf_bytes f') (rf_bytes f) \<and> (r = Inr u \<longrightarrow>
      unat a \<le> unat b \<and> unat b \<le> length (rf_bytes f)
      \<and> rf_bytes f' = overwrite (unat a) (replicate (unat b - unat a) umax) (rf_bytes f))"
  proof (cases "unat a \<le> unat b \<and> unat b \<le> length (rf_bytes f)
      \<and> unat a mod RAM_PAGE_SIZE = 0 \<and> unat b mod RAM_PAGE_SIZE = 0")
    case True
    then have "erase_bytes (unat a) (unat b - unat a) f = (r, f')"
      using assms by (simp add: ram_erase_def Let_def)
    from erase_bytes_prefix [OF this] True obtain k where
      "k \<le> unat b - unat a" "rf_bytes f' = overwrite (unat a) (replicate k umax) (rf_bytes f)"
      "is_ok r \<longrightarrow> k = unat b - unat a"
      by auto
    with True same_outside_overwrite [of "unat a" "unat b - unat a" "rf_bytes f" "replicate k umax"] show ?thesis
      by (auto simp: is_ok_iff)
  qed (use assms in \<open>auto simp: ram_erase_def Let_def same_outside_def split: if_splits\<close>)
  then show "same_outside (unat a) (unat b - unat a) (rf_bytes f') (rf_bytes f)"
    and "r = Inr u \<Longrightarrow> unat a \<le> unat b \<and> unat b \<le> length (rf_bytes f)
           \<and> rf_bytes f' = overwrite (unat a) (replicate (unat b - unat a) umax) (rf_bytes f)"
    by simp_all
qed

interpretation ram_nor: nor_flash ram_read ram_write ram_erase ram_capacity rf_bytes
proof
  fix f f' a b out out' v r u err
  show "ram_capacity f = length (rf_bytes f)"
    by (simp add: ram_capacity_def)
  show "ram_read f a out = (r, f', out') \<Longrightarrow> rf_bytes f' = rf_bytes f"
    by (auto simp: ram_read_def Let_def split: if_splits)
  show "ram_read f a out = (Inr u, f', out') \<Longrightarrow>
      unat a + length out \<le> length (rf_bytes f) \<and> out' = region (unat a) (length out) (rf_bytes f)"
    by (auto simp: ram_read_def region_def Let_def split: if_splits)
  show "ram_read f a out = (Inl err, f', out') \<Longrightarrow> out' = out"
    by (auto simp: ram_read_def Let_def split: if_splits)
  show "ram_write f a v = (r, f') \<Longrightarrow> same_outside (unat a) (length v) (rf_bytes f') (rf_bytes f)"
    by (rule ram_write_cases)
  show "ram_write f a v = (Inr u, f') \<Longrightarrow> unat a + length v \<le> length (rf_bytes f)
      \<and> region (unat a) (length v) (rf_bytes f') = map2 (AND) (region (unat a) (length v) (rf_bytes f)) v"
    using ram_write_cases(2) [of f a v "Inr u" f' u] by (simp add: region_overwrite)
  show "ram_erase f a b = (r, f') \<Longrightarrow>
      same_outside (unat a) (unat b - unat a) (rf_bytes f') (rf_bytes f)"
    by (rule ram_erase_cases)
  show "ram_erase f a b = (Inr u, f') \<Longrightarrow> unat a \<le> unat b \<and> unat b \<le> length (rf_bytes f)
      \<and> region (unat a) (unat b - unat a) (rf_bytes f') = replicate (unat b - unat a) umax"
    using ram_erase_cases(2) [of f a b "Inr u" f' u]
      region_overwrite [of "unat a" "replicate (unat b - unat a) umax" "rf_bytes f"] by auto
qed

interpretation ram_blocking: nor_flash "bf_read ram_read" "bf_write ram_write" "bf_erase ram_erase"
  "bf_capacity ram_capacity" "\<lambda>f. rf_bytes (bf_inner f)"
  by (rule ram_nor.blocking_nor_flash)

section \<open>Restarts\<close>

text \<open>
  What the engine documents of opening and closing a map: it keeps the range it was configured
  with and gives back the flash it was given; its calls change neither the range nor the size
  of the flash; and all its records are in the flash, so a map opened on the flash of another,
  over the same range, holds the same records.
\<close>

definition reopens ::
  "('m, 'flash, 'cfg) map_storage_ops \<Rightarrow> ('flash \<Rightarrow> nat) \<Rightarrow> nat \<Rightarrow> 'm sequential_store \<Rightarrow> bool" where
  "reopens ops capacity SCRATCH s \<longleftrightarrow>
     is_ok (store_open ops capacity SCRATCH (store_into_flash ops s) (store_range ops s))"

locale persistent_engine = map_engine eng items
  for eng :: "('m, 'e) map_engine_ops" and items :: "'m \<Rightarrow> u32 \<Rightarrow> u8 list option" +
  fixes ops :: "('m, 'flash, 'cfg) map_storage_ops"
    and capacity :: "'flash \<Rightarrow> nat"
  assumes new_range: "try_new ops r = Inr cfg \<Longrightarrow> flash_range ops (map_new ops f cfg) = r"
    and new_flash: "destroy ops (map_new ops f cfg) = f"
    and new_items:
      "try_new ops (flash_range ops m) = Inr cfg \<Longrightarrow> items (map_new ops (destroy ops m) cfg) = items m"
    and store_keeps_flash:
      "store_item eng encode m scratch k v = (q, m', scratch') \<Longrightarrow>
         flash_range ops m' = flash_range ops m \<and> capacity (destroy ops m') = capacity (destroy ops m)"
    and erase_keeps_flash:
      "erase_all eng m = (q, m') \<Longrightarrow>
         flash_range ops m' = flash_range ops m \<and> capacity (destroy ops m') = capacity (destroy ops m)"
begin

lemma store_opened:
  assumes "store_open ops capacity SCRATCH flash r = Inr s"
  shows "store_range ops s = r" and "store_into_flash ops s = flash" and "reopens ops capacity SCRATCH s"
proof -
  obtain cfg where cfg: "try_new ops r = Inr cfg" and s: "ss_map s = map_new ops flash cfg"
    using assms by (auto simp: sequential_store_new_cases split: if_splits sum.splits)
  show r: "store_range ops s = r" and f: "store_into_flash ops s = flash"
    by (simp_all add: store_range_def store_into_flash_def s new_range [OF cfg] new_flash)
  show "reopens ops capacity SCRATCH s"
    by (simp add: reopens_def r f assms)
qed

lemma reopened:
  assumes "reopens ops capacity SCRATCH s"
  shows "\<exists>s'. store_open ops capacity SCRATCH (store_into_flash ops s) (store_range ops s) = Inr s'
    \<and> store_abs items s' = store_abs items s \<and> store_range ops s' = store_range ops s \<and> reopens ops capacity SCRATCH s'"
proof -
  obtain s' where s': "store_open ops capacity SCRATCH (store_into_flash ops s) (store_range ops s) = Inr s'"
    using assms by (auto simp: reopens_def is_ok_iff)
  then obtain cfg where cfg: "try_new ops (flash_range ops (ss_map s)) = Inr cfg"
    and map: "ss_map s' = map_new ops (destroy ops (ss_map s)) cfg"
    by (auto simp: sequential_store_new_cases store_range_def store_into_flash_def split: if_splits sum.splits)
  have "store_abs items s' = store_abs items s"
    by (simp add: store_abs_def map new_items [OF cfg] fun_eq_iff)
  with s' store_opened [OF s'] show ?thesis
    by blast
qed

lemma reopens_cong:
  "\<lbrakk>flash_range ops (ss_map s') = flash_range ops (ss_map s);
    capacity (destroy ops (ss_map s')) = capacity (destroy ops (ss_map s))\<rbrakk> \<Longrightarrow>
     reopens ops capacity SCRATCH s' = reopens ops capacity SCRATCH s \<and> store_range ops s' = store_range ops s"
  by (auto simp: reopens_def store_range_def store_into_flash_def sequential_store_new_cases is_ok_def
      split: sum.splits)

lemma store_stored_opened:
  "store_stored eng k sv s = (q, s') \<Longrightarrow>
     reopens ops capacity SCRATCH s' = reopens ops capacity SCRATCH s \<and> store_range ops s' = store_range ops s"
  by (rule reopens_cong) (auto simp: store_stored_def dest: store_keeps_flash split: prod.splits)

lemma mutate_opened:
  assumes "mutate (store_put SCRATCH eng) (store_delete eng) (store_clear eng) x s = (q, s')"
  shows "reopens ops capacity SCRATCH s' = reopens ops capacity SCRATCH s \<and> store_range ops s' = store_range ops s"
proof (cases x)
  case MClear
  with assms show ?thesis
    by (intro reopens_cong) (auto simp: store_clear_def dest: erase_keeps_flash split: prod.splits)
qed (use assms store_stored_opened in \<open>auto simp: store_put_def store_delete_def split: if_splits\<close>)

text \<open>A call has its effect, or it failed and may have had none.\<close>

lemma mutate_effect:
  assumes "mutate (store_put SCRATCH eng) (store_delete eng) (store_clear eng) x s = (q, s')"
    and "x = MClear \<Longrightarrow> is_ok q"
  shows "store_abs items s' = spec_mutation x (store_abs items s)
    \<or> \<not> is_ok q \<and> store_abs items s' = store_abs items s"
proof (cases q)
  case (Inl e)
  then show ?thesis
    using assms by (cases x) (auto dest: kv.put_failed kv.delete_failed)
next
  case (Inr u)
  then show ?thesis
    using assms kv.mutate_done by auto
qed

lemma life_possible:
  assumes "reopens ops capacity SCRATCH s" and "store_life SCRATCH eng ops capacity es s = (log, final)"
    and "(MClear, False) \<notin> set log"
  shows "map Call (map fst log) = filter (\<lambda>e. e \<noteq> Restart) es
    \<and> (\<exists>s'. final = Inr s' \<and> store_range ops s' = store_range ops s \<and> reopens ops capacity SCRATCH s'
         \<and> (\<exists>ys \<in> possible log. store_abs items s' = fold spec_mutation ys (store_abs items s)))"
  using assms
proof (induction es arbitrary: s log)
  case (Cons e es)
  show ?case
  proof (cases e)
    case (Call x)
    obtain q s1 where x: "mutate (store_put SCRATCH eng) (store_delete eng) (store_clear eng) x s = (q, s1)"
      by fastforce
    obtain log1 where es: "store_life SCRATCH eng ops capacity es s1 = (log1, final)"
      and log: "log = (x, is_ok q) # log1"
      using Cons.prems(2) x by (auto simp: Call split: prod.splits)
    have "x = MClear \<Longrightarrow> is_ok q" and "(MClear, False) \<notin> set log1"
      using Cons.prems(3) log by auto
    note effect = mutate_effect [OF x this(1)] and IH = Cons.IH [OF _ es this(2)]
    from IH mutate_opened [OF x] Cons.prems(1) obtain s' ys where
      "map Call (map fst log1) = filter (\<lambda>e. e \<noteq> Restart) es" "final = Inr s'"
      "store_range ops s' = store_range ops s" "reopens ops capacity SCRATCH s'" and ys: "ys \<in> possible log1"
      "store_abs items s' = fold spec_mutation ys (store_abs items s1)"
      by auto
    moreover have "\<exists>zs \<in> possible log. store_abs items s' = fold spec_mutation zs (store_abs items s)"
      using effect
    proof
      assume "store_abs items s1 = spec_mutation x (store_abs items s)"
      with ys log show ?thesis
        by (intro bexI [of _ "x # ys"]) simp_all
    next
      assume "\<not> is_ok q \<and> store_abs items s1 = store_abs items s"
      with ys log show ?thesis
        by (intro bexI [of _ ys]) simp_all
    qed
    ultimately show ?thesis
      by (simp add: Call log)
  next
    case Restart
    from reopened [OF Cons.prems(1)] obtain s1 where s1:
      "store_open ops capacity SCRATCH (store_into_flash ops s) (store_range ops s) = Inr s1"
      "store_abs items s1 = store_abs items s" "store_range ops s1 = store_range ops s" "reopens ops capacity SCRATCH s1"
      by blast
    with Cons.prems Cons.IH [of s1 log] show ?thesis
      by (simp add: Restart)
  qed
qed auto

end

context persistent_engine
begin

lemma life_consistent:
  assumes "store_open ops capacity SCRATCH flash rng = Inr s"
    and "store_life SCRATCH eng ops capacity es s = (log, final)"
    and "(MClear, False) \<notin> set log"
  shows "map Call (map fst log) = filter (\<lambda>e. e \<noteq> Restart) es
    \<and> (\<exists>s' ys. final = Inr s' \<and> store_range ops s' = rng \<and> ys \<in> possible log
         \<and> (\<forall>k out r out' s''. store_get eng k out s' = (r, out', s'') \<longrightarrow>
              (\<forall>n. r = Inr (Found n) \<longrightarrow>
                 fold spec_mutation ys (store_abs items s) k = Some (take n out') \<and> n \<le> length out)
              \<and> (r = Inr NotFound \<longrightarrow> fold spec_mutation ys (store_abs items s) k = None \<and> out' = out)
              \<and> (\<forall>err. r = Inl err \<longrightarrow> out' = out)))"
proof -
  from life_possible [OF store_opened(3) [OF assms(1)] assms(2,3)] obtain s' ys where s':
    "map Call (map fst log) = filter (\<lambda>e. e \<noteq> Restart) es" "final = Inr s'"
    "store_range ops s' = store_range ops s" "ys \<in> possible log"
    "store_abs items s' = fold spec_mutation ys (store_abs items s)"
    by blast
  have "store_abs items s' k = Some (take n out') \<and> n \<le> length out"
    if "store_get eng k out s' = (Inr (Found n), out', s'')" for k out n out' s''
    using kv.get_found [OF that] by simp
  moreover have "store_abs items s' k = None \<and> out' = out"
    if "store_get eng k out s' = (Inr NotFound, out', s'')" for k out out' s''
    using kv.get_not_found [OF that] .
  moreover have "out' = out" if "store_get eng k out s' = (Inl err, out', s'')" for k out err out' s''
    using kv.get_failed [OF that] .
  ultimately show ?thesis
    using s' store_opened(1) [OF assms(1)] by auto
qed

end

interpretation disk: persistent_engine disk_engine "\<lambda>m. rd_records (snd m)" disk_storage rd_capacity
proof
  fix encode decode m m' scratch scratch' k v u err q r rng cfg f
  let ?items = "\<lambda>m. rd_records (snd m)"
  show "fetch_item disk_engine decode m scratch k = (r, m', scratch') \<Longrightarrow> ?items m' = ?items m"
    using ram.fetch_keeps [of decode "?items m" scratch k]
    by (auto simp: disk_engine_def ram_engine_def on_records_def split: prod.splits)
  show "fetch_item disk_engine decode m scratch k = (Inr None, m', scratch') \<Longrightarrow> ?items m k = None"
    using ram.fetch_none [of decode "?items m" scratch k]
    by (auto simp: disk_engine_def ram_engine_def on_records_def split: prod.splits)
  show "fetch_item disk_engine decode m scratch k = (Inr (Some v), m', scratch') \<Longrightarrow>
      \<exists>bytes n. ?items m k = Some bytes \<and> decode bytes = Inr (v, n)"
    using ram.fetch_some [of decode "?items m" scratch k]
    by (auto simp: disk_engine_def ram_engine_def on_records_def split: prod.splits)
  show "store_item disk_engine encode m scratch k v = (Inr u, m', scratch') \<Longrightarrow>
      \<exists>buffer n buffer'. encode v buffer = (Inr n, buffer') \<and> ?items m' = (?items m)(k \<mapsto> take n buffer')"
    using ram.store_done [of encode "?items m" scratch k v]
    by (fastforce simp: disk_engine_def ram_engine_def on_records_def split: prod.splits)
  show "store_item disk_engine encode m scratch k v = (Inl err, m', scratch') \<Longrightarrow> ?items m' = ?items m
      \<or> (\<exists>buffer n buffer'. encode v buffer = (Inr n, buffer') \<and> ?items m' = (?items m)(k \<mapsto> take n buffer'))"
    using ram.store_failed [of encode "?items m" scratch k v]
    by (fastforce simp: disk_engine_def ram_engine_def on_records_def split: prod.splits)
  show "erase_all disk_engine m = (Inr u, m') \<Longrightarrow> ?items m' = Map.empty"
    by (auto simp: disk_engine_def)
  show "try_new disk_storage rng = Inr cfg \<Longrightarrow> flash_range disk_storage (map_new disk_storage f cfg) = rng"
    by (simp add: disk_storage_def split: if_splits)
  show "destroy disk_storage (map_new disk_storage f cfg) = f"
    by (simp add: disk_storage_def)
  show "try_new disk_storage (flash_range disk_storage m) = Inr cfg \<Longrightarrow>
      ?items (map_new disk_storage (destroy disk_storage m) cfg) = ?items m"
    by (simp add: disk_storage_def)
  show "store_item disk_engine encode m scratch k v = (q, m', scratch') \<Longrightarrow>
      flash_range disk_storage m' = flash_range disk_storage m
      \<and> rd_capacity (destroy disk_storage m') = rd_capacity (destroy disk_storage m)"
    by (auto simp: disk_engine_def disk_storage_def on_records_def split: prod.splits)
  show "erase_all disk_engine m = (q, m') \<Longrightarrow>
      flash_range disk_storage m' = flash_range disk_storage m
      \<and> rd_capacity (destroy disk_storage m') = rd_capacity (destroy disk_storage m)"
    by (auto simp: disk_engine_def disk_storage_def)
qed

lemmas disk_eval = disk_engine_def disk_storage_def on_records_def store_range_def store_into_flash_def
  sequential_store_new_cases

section \<open>Properties\<close>

text \<open>
  C14. The store is consistent across failures and restarts. Open a store on a flash and let any
  calls follow, some of which fail or are cut off, with restarts of the device in between: the
  flash can be opened again every time, no call is lost from the history, and what the store
  then holds is the result of the calls that succeeded together with some of those that
  failed, each with its whole effect or with none; and a read returns exactly that. (A failed
  \<open>clear\<close>, of which the engine promises nothing, is excluded.)
\<close>

theorem store_crash_consistent:
  assumes "persistent_engine eng items ops capacity"
    and "sequential_store_new (try_new ops) (map_new ops) capacity SCRATCH flash rng = Inr s"
    and "store_life SCRATCH eng ops capacity es s = (log, final)"
    and "(MClear, False) \<notin> set log"
  shows "map Call (map fst log) = filter (\<lambda>e. e \<noteq> Restart) es
    \<and> (\<exists>s' ys. final = Inr s' \<and> store_range ops s' = rng \<and> ys \<in> possible log
         \<and> (\<forall>k out r out' s''. store_get eng k out s' = (r, out', s'') \<longrightarrow>
              (\<forall>n. r = Inr (Found n) \<longrightarrow>
                 fold spec_mutation ys (store_abs items s) k = Some (take n out') \<and> n \<le> length out)
              \<and> (r = Inr NotFound \<longrightarrow> fold spec_mutation ys (store_abs items s) k = None \<and> out' = out)
              \<and> (\<forall>err. r = Inl err \<longrightarrow> out' = out)))"
  by (rule persistent_engine.life_consistent [OF assms])

theorem store_crash_consistent_witness:
  "\<exists>log s'. store_life 8 disk_engine disk_storage rd_capacity
       [Call (MPut (Key 1 2) [7, 8]), Restart, Call (MPut (Key 1 2) [1, 2, 3, 4]), Restart]
       (\<lparr>ss_map = ((0, 512), \<lparr>rd_capacity = 1024, rd_records = Map.empty\<rparr>), ss_scratch = replicate 8 0\<rparr>) = (log, Inr s')
     \<and> log = [(MPut (Key 1 2) [7, 8], True), (MPut (Key 1 2) [1, 2, 3, 4], False)]
     \<and> store_range disk_storage s' = (0, 512)"
proof -
  let ?es = "[Call (MPut (Key 1 2) [7, 8]), Restart, Call (MPut (Key 1 2) [1, 2, 3, 4]), Restart]"
  let ?flash = "\<lparr>rd_capacity = 1024, rd_records = Map.empty\<rparr> :: ram_disk"
  let ?s = "\<lparr>ss_map = ((0, 512), ?flash), ss_scratch = replicate 8 0\<rparr> :: ram_map sequential_store"
  have new: "sequential_store_new (try_new disk_storage) (map_new disk_storage) rd_capacity 8 ?flash (0, 512) = Inr ?s"
    by (simp add: sequential_store_new_cases disk_storage_def)
  obtain log final where run: "store_life 8 disk_engine disk_storage rd_capacity ?es ?s = (log, final)"
    by fastforce
  have log: "log = [(MPut (Key 1 2) [7, 8], True), (MPut (Key 1 2) [1, 2, 3, 4], False)]"
    using run
    by (auto simp: disk_eval ram_eval)
  from store_crash_consistent [OF disk.persistent_engine_axioms new run] log run show ?thesis
    by auto
qed



end
