(* ===== verification/Storage_Tests.thy ===== *)
theory Storage_Tests
  imports Storage_Flash "HOL-Library.Monad_Syntax"
begin

text \<open>
  The tests of \<open>crates/storage\<close>, translated as in \<open>Unit_Tests\<close>. They drive the store over
  the storage engine, so they are functions of the engine and of an erased flash. Tests of
  what survives are shown to hold over every engine that keeps its contract: no assertion of
  theirs is ever false. On the engine in memory they pass by evaluation.
\<close>

section \<open>Definitions\<close>

text \<open>The calls of the tests with their \<open>unwrap\<close>.\<close>

definition put_ok ::
  "('m, 'e) map_engine_ops \<Rightarrow> key \<Rightarrow> u8 list \<Rightarrow> 'm sequential_store \<Rightarrow> 'm sequential_store option" where
  "put_ok eng k v s = (let (r, s') = store_put 64 eng k v s in map_option (\<lambda>_. s') (unwrap r))"

definition get_ok ::
  "('m, 'e) map_engine_ops \<Rightarrow> key \<Rightarrow> u8 list \<Rightarrow> 'm sequential_store
   \<Rightarrow> (fetch \<times> u8 list \<times> 'm sequential_store) option" where
  "get_ok eng k out s =
     (let (r, out', s') = store_get eng k out s in map_option (\<lambda>f. (f, out', s')) (unwrap r))"

definition delete_ok ::
  "('m, 'e) map_engine_ops \<Rightarrow> key \<Rightarrow> 'm sequential_store \<Rightarrow> 'm sequential_store option" where
  "delete_ok eng k s = (let (r, s') = store_delete eng k s in map_option (\<lambda>_. s') (unwrap r))"

definition clear_ok :: "('m, 'e) map_engine_ops \<Rightarrow> 'm sequential_store \<Rightarrow> 'm sequential_store option" where
  "clear_ok eng s = (let (r, s') = store_clear eng s in map_option (\<lambda>_. s') (unwrap r))"

definition keys_have_stable_namespaced_representation :: "bool option" where
  "keys_have_stable_namespaced_representation =
     (let key = key_new 0x1234 0xabcd
      in Some (to_raw key = 0x1234abcd \<and> from_raw (to_raw key) = key
           \<and> key_namespace key = 0x1234 \<and> key_record key = 0xabcd))"

definition values_survive_reopen_update_delete_and_clear ::
  "('m, 'e) map_engine_ops \<Rightarrow> ('m, 'flash, 'cfg) map_storage_ops \<Rightarrow> ('flash \<Rightarrow> nat) \<Rightarrow> 'flash \<Rightarrow> bool option" where
  "values_survive_reopen_update_delete_and_clear eng ops capacity erased = do {
     let first = key_new 1 1;
     let second = key_new 2 1;
     store \<leftarrow> unwrap (store_open ops capacity 64 erased (0, 1024));
     store \<leftarrow> put_ok eng first (lit ''old'') store;
     store \<leftarrow> put_ok eng second (lit ''other namespace'') store;
     store \<leftarrow> put_ok eng first (lit ''new value'') store;
     let flash = store_into_flash ops store;
     reopened \<leftarrow> unwrap (store_open ops capacity 64 flash (0, 1024));
     (found, output, reopened) \<leftarrow> get_ok eng first (replicate 32 0) reopened;
     len \<leftarrow> found_len found;
     let text = take len output;
     reopened \<leftarrow> delete_ok eng first reopened;
     (deleted, output, reopened) \<leftarrow> get_ok eng first output reopened;
     (kept, output, reopened) \<leftarrow> get_ok eng second output reopened;
     reopened \<leftarrow> clear_ok eng reopened;
     (cleared, output, reopened) \<leftarrow> get_ok eng second output reopened;
     Some (found = Found 9 \<and> text = lit ''new value'' \<and> deleted = NotFound
       \<and> found_len kept = Some 15 \<and> cleared = NotFound)
   }"

definition fetch_never_returns_a_partial_value ::
  "('m, 'e) map_engine_ops \<Rightarrow> ('m, 'flash, 'cfg) map_storage_ops \<Rightarrow> ('flash \<Rightarrow> nat) \<Rightarrow> 'flash \<Rightarrow> bool option" where
  "fetch_never_returns_a_partial_value eng ops capacity erased = do {
     let key = key_new 7 9;
     store \<leftarrow> unwrap (store_open ops capacity 64 erased (0, 1024));
     store \<leftarrow> put_ok eng key (lit ''complete'') store;
     let (r, short, store) = store_get eng key (replicate 3 0xcc) store;
     error \<leftarrow> unwrap_err r;
     Some ((case error of BufferTooSmall n \<Rightarrow> n = 8 | _ \<Rightarrow> False) \<and> short = replicate 3 0xcc)
   }"

definition rejects_invalid_ranges_and_oversized_values ::
  "('m, 'e) map_engine_ops \<Rightarrow> ('m, 'flash, 'cfg) map_storage_ops \<Rightarrow> ('flash \<Rightarrow> nat) \<Rightarrow> 'flash \<Rightarrow> bool option" where
  "rejects_invalid_ranges_and_oversized_values eng ops capacity erased = do {
     scratch \<leftarrow> unwrap_err (store_open ops capacity 4 erased (0, 1024));
     beyond \<leftarrow> unwrap_err (store_open ops capacity 64 erased (0, 1024 + 256));
     reversed \<leftarrow> unwrap_err (store_open ops capacity 64 erased (512, 256));
     unaligned \<leftarrow> unwrap_err (store_open ops capacity 64 erased (1, 513));
     one_page \<leftarrow> unwrap_err (store_open ops capacity 64 erased (0, 256));
     store \<leftarrow> unwrap (store_open ops capacity 64 erased (0, 1024));
     let oversized = replicate (MAX_VALUE_SIZE 64 + 1) 0;
     Some (scratch = ScratchTooSmall \<and> beyond = RangeOutOfBounds \<and> reversed = RangeOutOfBounds
       \<and> unaligned = UnalignedStart \<and> one_page = RangeTooSmall
       \<and> (case fst (store_put 64 eng (key_new 1 1) oversized store) of Inl ValueTooLarge \<Rightarrow> True | _ \<Rightarrow> False))
   }"

definition interrupted_update_recovers_to_one_complete_version ::
  "('m, flash_error) map_engine_ops \<Rightarrow> ('m, ram_flash, 'cfg) map_storage_ops \<Rightarrow> bool option" where
  "interrupted_update_recovers_to_one_complete_version eng ops = do {
     let key = key_new 4 2;
     store \<leftarrow> unwrap (store_open ops ram_capacity 64 ram_flash_erased (0, 1024));
     store \<leftarrow> put_ok eng key (lit ''before'') store;
     let store = store_flash_mut ops (interrupt_after 7) store;
     let (r, store) = store_put 64 eng key (lit ''after power loss'') store;
     let flash = store_into_flash ops store;
     reopened \<leftarrow> unwrap (store_open ops ram_capacity 64 flash (0, 1024));
     (found, output, reopened) \<leftarrow> get_ok eng key (replicate 32 0) reopened;
     len \<leftarrow> found_len found;
     let text = take len output;
     Some ((case r of Inl (Backend Interrupted) \<Rightarrow> True | _ \<Rightarrow> False)
       \<and> (text = lit ''before'' \<or> text = lit ''after power loss''))
   }"

text \<open>\<open>u32::to_le_bytes\<close>, and the loop of the test over its generations.\<close>

definition to_le_bytes :: "u32 \<Rightarrow> u8 list" where
  "to_le_bytes w = [ucast w, ucast (drop_bit 8 w), ucast (drop_bit 16 w), ucast (drop_bit 24 w)]"

definition from_le_bytes :: "u8 list \<Rightarrow> u32" where
  "from_le_bytes bs =
     ucast (bs ! 0) OR push_bit 8 (ucast (bs ! 1)) OR push_bit 16 (ucast (bs ! 2)) OR push_bit 24 (ucast (bs ! 3))"

fun put_generations ::
  "('m, 'e) map_engine_ops \<Rightarrow> key \<Rightarrow> u32 list \<Rightarrow> 'm sequential_store \<Rightarrow> 'm sequential_store option" where
  "put_generations eng k [] s = Some s"
| "put_generations eng k (g # gs) s = do {
     s \<leftarrow> put_ok eng k (to_le_bytes g) s;
     put_generations eng k gs s
   }"

definition repeated_updates_compact_pages_without_losing_the_live_value ::
  "('m, 'e) map_engine_ops \<Rightarrow> ('m, 'flash, 'cfg) map_storage_ops \<Rightarrow> ('flash \<Rightarrow> nat) \<Rightarrow> 'flash \<Rightarrow> bool option" where
  "repeated_updates_compact_pages_without_losing_the_live_value eng ops capacity erased = do {
     let key = key_new 9 1;
     store \<leftarrow> unwrap (store_open ops capacity 64 erased (0, 1024));
     store \<leftarrow> put_generations eng key (map of_nat [0..<100]) store;
     let flash = store_into_flash ops store;
     reopened \<leftarrow> unwrap (store_open ops capacity 64 flash (0, 1024));
     (found, output, reopened) \<leftarrow> get_ok eng key (replicate 4 0) reopened;
     Some (found = Found 4 \<and> from_le_bytes output = 99)
   }"

section \<open>Lemmas\<close>

lemma keys_test: "keys_have_stable_namespaced_representation = Some True"
  by code_simp

lemma from_to_le_bytes: "from_le_bytes (to_le_bytes w) = w"
proof (rule bit_word_eqI)
  fix n
  assume "n < LENGTH(32)"
  then consider "n < 8" | "8 \<le> n" "n < 16" | "16 \<le> n" "n < 24" | "24 \<le> n" "n < 32"
    by fastforce
  then show "bit (from_le_bytes (to_le_bytes w)) n = bit w n"
    by cases (auto simp: from_le_bytes_def to_le_bytes_def bit_simps)
qed

context persistent_engine
begin

lemma put_ok_done:
  assumes "put_ok eng k v s = Some s'"
  shows "store_abs items s' = (store_abs items s)(k \<mapsto> v)" and "store_range ops s' = store_range ops s"
proof -
  have put: "store_put 64 eng k v s = (Inr (), s')"
    using assms by (auto simp: put_ok_def split: prod.splits)
  then show "store_abs items s' = (store_abs items s)(k \<mapsto> v)"
    by (rule kv.put_done)
  show "store_range ops s' = store_range ops s"
    using mutate_opened [of 64 "MPut k v"] put by simp
qed

lemma get_ok_done:
  assumes "get_ok eng k out s = Some (f, out', s')"
  shows "store_abs items s' = store_abs items s"
    and "store_abs items s k = None \<Longrightarrow> f = NotFound"
    and "store_abs items s k = Some v \<Longrightarrow> f = Found (length v) \<and> take (length v) out' = v
           \<and> length out' = length out"
proof -
  have get: "store_get eng k out s = (Inr f, out', s')"
    using assms by (auto simp: get_ok_def split: prod.splits)
  then show "store_abs items s' = store_abs items s"
    by (rule kv.get_keeps)
  show "f = NotFound" if "store_abs items s k = None"
    using that get kv.get_found [of k out s _ out' s'] by (cases f) auto
  show "f = Found (length v) \<and> take (length v) out' = v \<and> length out' = length out"
    if "store_abs items s k = Some v"
    using that get kv.get_found [of k out s _ out' s'] kv.get_not_found [of k out s out' s'] by (cases f) auto
qed

lemma delete_ok_done: "delete_ok eng k s = Some s' \<Longrightarrow> store_abs items s' = (store_abs items s)(k := None)"
  by (auto simp: delete_ok_def split: prod.splits dest: kv.delete_done)

lemma clear_ok_done: "clear_ok eng s = Some s' \<Longrightarrow> store_abs items s' = Map.empty"
  by (auto simp: clear_ok_def split: prod.splits dest: kv.clear_done)

lemma reopen_done:
  assumes "store_open ops capacity 64 (store_into_flash ops s) rng = Inr s'" and "store_range ops s = rng"
  shows "store_abs items s' = store_abs items s"
  using reopened [of 64 s] assms by (auto simp: reopens_def)

lemma values_survive:
  "values_survive_reopen_update_delete_and_clear eng ops capacity erased \<noteq> Some False"
proof
  assume failed: "values_survive_reopen_update_delete_and_clear eng ops capacity erased = Some False"
  let ?abs = "store_abs items" and ?first = "key_new 1 1" and ?second = "key_new 2 1"
  obtain s0 s1 s2 s3 s4 found out s5 len s6 deleted out1 s7 kept out2 s8 s9 cleared out3 s10 where
    new: "store_open ops capacity 64 erased (0, 1024) = Inr s0"
    and puts: "put_ok eng ?first (lit ''old'') s0 = Some s1"
      "put_ok eng ?second (lit ''other namespace'') s1 = Some s2" "put_ok eng ?first (lit ''new value'') s2 = Some s3"
    and reopen: "store_open ops capacity 64 (store_into_flash ops s3) (0, 1024) = Inr s4"
    and g1: "get_ok eng ?first (replicate 32 0) s4 = Some (found, out, s5)" and len: "found_len found = Some len"
    and del: "delete_ok eng ?first s5 = Some s6" and g2: "get_ok eng ?first out s6 = Some (deleted, out1, s7)"
    and g3: "get_ok eng ?second out1 s7 = Some (kept, out2, s8)"
    and clr: "clear_ok eng s8 = Some s9" and g4: "get_ok eng ?second out2 s9 = Some (cleared, out3, s10)"
    and wrong: "\<not> (found = Found 9 \<and> take len out = lit ''new value'' \<and> deleted = NotFound
       \<and> found_len kept = Some 15 \<and> cleared = NotFound)"
    using failed
    by (auto simp: values_survive_reopen_update_delete_and_clear_def bind_eq_Some_conv Let_def simp del: lit_Cons)
  have keys: "?first \<noteq> ?second"
    by (simp add: key_new_def)
  have "?abs s4 = ?abs s3"
    using reopen_done [OF reopen] store_opened(1) [OF new] puts [THEN put_ok_done(2)] by simp
  then have abs: "?abs s4 ?first = Some (lit ''new value'')" "?abs s4 ?second = Some (lit ''other namespace'')"
    using puts [THEN put_ok_done(1)] keys by (simp_all del: lit_Cons)
  from get_ok_done(3) [OF g1 abs(1)] len have "found = Found 9" "take len out = lit ''new value''"
    by (auto simp del: lit_Cons)
  moreover have s6: "?abs s6 = (?abs s4)(?first := None)"
    by (simp add: delete_ok_done [OF del] get_ok_done(1) [OF g1])
  then have "deleted = NotFound"
    by (intro get_ok_done(2) [OF g2]) simp
  moreover have "?abs s7 ?second = Some (lit ''other namespace'')"
    using get_ok_done(1) [OF g2] s6 abs(2) keys by (simp del: lit_Cons)
  from get_ok_done(3) [OF g3 this] have "found_len kept = Some 15"
    by simp
  moreover have "cleared = NotFound"
    by (intro get_ok_done(2) [OF g4]) (simp add: clear_ok_done [OF clr])
  ultimately show False
    using wrong by simp
qed

lemma put_generations_done:
  assumes "put_generations eng k gs s = Some s'"
  shows "store_range ops s' = store_range ops s
    \<and> (gs \<noteq> [] \<longrightarrow> store_abs items s' k = Some (to_le_bytes (last gs)))"
  using assms
proof (induction gs arbitrary: s)
  case (Cons g gs)
  then obtain s1 where s1: "put_ok eng k (to_le_bytes g) s = Some s1" and rest: "put_generations eng k gs s1 = Some s'"
    by (auto simp: bind_eq_Some_conv)
  from Cons.IH [OF rest] put_ok_done [OF s1] rest show ?case
    by (cases gs) auto
qed simp

lemma repeated_updates:
  "repeated_updates_compact_pages_without_losing_the_live_value eng ops capacity erased \<noteq> Some False"
proof
  assume failed: "repeated_updates_compact_pages_without_losing_the_live_value eng ops capacity erased = Some False"
  let ?key = "key_new 9 1"
  obtain s0 s1 s2 found out s3 where new: "store_open ops capacity 64 erased (0, 1024) = Inr s0"
    and puts: "put_generations eng ?key (map of_nat [0..<100]) s0 = Some s1"
    and reopen: "store_open ops capacity 64 (store_into_flash ops s1) (0, 1024) = Inr s2"
    and get: "get_ok eng ?key (replicate 4 0) s2 = Some (found, out, s3)"
    and wrong: "\<not> (found = Found 4 \<and> from_le_bytes out = 99)"
    using failed
    by (auto simp: repeated_updates_compact_pages_without_losing_the_live_value_def bind_eq_Some_conv Let_def)
  have "last (map of_nat [0..<100]) = (99 :: u32)"
    by (subst last_map) simp_all
  with put_generations_done [OF puts] have "store_abs items s1 ?key = Some (to_le_bytes 99)"
    by simp
  then have "store_abs items s2 ?key = Some (to_le_bytes 99)"
    using reopen_done [OF reopen] store_opened(1) [OF new] put_generations_done [OF puts] by simp
  from get_ok_done(3) [OF get this] have "found = Found 4" "out = to_le_bytes 99"
    by (auto simp: to_le_bytes_def)
  then show False
    using wrong by (simp add: from_to_le_bytes)
qed

end

text \<open>
  The power cut: over every engine that reports it and whose records the armed counter of the
  flash does not touch, the test ends with one of the two complete versions.
\<close>

lemma interrupted_update:
  assumes "persistent_engine eng items ops ram_capacity"
    and cut: "\<And>k v s. fst (store_put 64 eng k v (store_flash_mut ops (interrupt_after 7) s)) = Inl (Backend Interrupted)"
    and armed: "\<And>m. items (flash_update ops (interrupt_after 7) m) = items m
      \<and> flash_range ops (flash_update ops (interrupt_after 7) m) = flash_range ops m"
  shows "interrupted_update_recovers_to_one_complete_version eng ops \<noteq> Some False"
proof
  assume failed: "interrupted_update_recovers_to_one_complete_version eng ops = Some False"
  let ?key = "key_new 4 2" and ?abs = "store_abs items"
  obtain s0 s1 where new: "store_open ops ram_capacity 64 ram_flash_erased (0, 1024) = Inr s0"
    and put1: "put_ok eng ?key (lit ''before'') s0 = Some s1"
    using failed
    by (auto simp: interrupted_update_recovers_to_one_complete_version_def bind_eq_Some_conv Let_def
        simp del: lit_Cons)
  obtain r s2 where
    put2: "store_put 64 eng ?key (lit ''after power loss'') (store_flash_mut ops (interrupt_after 7) s1) = (r, s2)"
    by fastforce
  obtain s3 found out s4 len where
    reopen: "store_open ops ram_capacity 64 (store_into_flash ops s2) (0, 1024) = Inr s3"
    and get: "get_ok eng ?key (replicate 32 0) s3 = Some (found, out, s4)" and len: "found_len found = Some len"
    and wrong: "\<not> ((case r of Inl (Backend Interrupted) \<Rightarrow> True | _ \<Rightarrow> False)
      \<and> (take len out = lit ''before'' \<or> take len out = lit ''after power loss''))"
    using failed
    by (auto simp: interrupted_update_recovers_to_one_complete_version_def new put1 put2 bind_eq_Some_conv Let_def
        simp del: lit_Cons)
  note pe = assms(1)
  have r: "r = Inl (Backend Interrupted)"
    using cut [of ?key "lit ''after power loss''" s1] put2 by (simp del: lit_Cons)
  have flash: "?abs (store_flash_mut ops (interrupt_after 7) s1) = ?abs s1"
    "store_range ops (store_flash_mut ops (interrupt_after 7) s1) = store_range ops s1"
    using armed by (simp_all add: store_abs_def store_flash_mut_def store_range_def fun_eq_iff)
  have range: "store_range ops s2 = (0, 1024)"
    using persistent_engine.mutate_opened [OF pe, of 64 "MPut ?key (lit ''after power loss'')"] put2 flash(2)
      persistent_engine.put_ok_done(2) [OF pe put1] persistent_engine.store_opened(1) [OF pe new]
    by (simp del: lit_Cons)
  have "?abs s3 = ?abs s2"
    by (rule persistent_engine.reopen_done [OF pe reopen range])
  moreover have "?abs s2 = ?abs s1 \<or> ?abs s2 = (?abs s1)(?key \<mapsto> lit ''after power loss'')"
    using persistent_engine.mutate_effect [OF pe, of 64 "MPut ?key (lit ''after power loss'')" "store_flash_mut ops (interrupt_after 7) s1" r s2]
      put2 flash(1) by (auto simp del: lit_Cons)
  ultimately have "?abs s3 ?key \<in> {Some (lit ''before''), Some (lit ''after power loss'')}"
    using persistent_engine.put_ok_done(1) [OF pe put1] by (auto simp del: lit_Cons)
  then have "take len out = lit ''before'' \<or> take len out = lit ''after power loss''"
    using persistent_engine.get_ok_done(3) [OF pe get] len by (auto simp del: lit_Cons)
  then show False
    using wrong r by simp
qed

text \<open>On the engine in memory.\<close>

abbreviation erased_disk :: ram_disk where
  "erased_disk \<equiv> \<lparr>rd_capacity = 1024, rd_records = Map.empty\<rparr>"

lemma disk_tests:
  "values_survive_reopen_update_delete_and_clear disk_engine disk_storage rd_capacity erased_disk = Some True"
  "fetch_never_returns_a_partial_value disk_engine disk_storage rd_capacity erased_disk = Some True"
  "rejects_invalid_ranges_and_oversized_values disk_engine disk_storage rd_capacity erased_disk = Some True"
  by (simp_all add: values_survive_reopen_update_delete_and_clear_def fetch_never_returns_a_partial_value_def
      rejects_invalid_ranges_and_oversized_values_def put_ok_def get_ok_def delete_ok_def clear_ok_def
      disk_eval ram_eval key_new_def)

end
