(* ===== verification/Mqtt.thy ===== *)
theory Mqtt
  imports Rust_Str
begin

text \<open>
  \<open>crates/mqtt\<close>: the validated text types made by the macro \<open>bounded_text!\<close>, the session
  configuration, the lifecycle snapshot with its saturating counters, and the reconnect
  back-off. The four text types are instances of \<open>bounded_store\<close> and the back-off is an
  instance of \<open>bounded_backoff\<close>; its exact delay sequence is proved with the wrap-around
  of the shift in it.
\<close>

section \<open>Definitions\<close>

subsection \<open>Limits and errors\<close>

definition MAX_HOSTNAME_LEN :: nat where
  "MAX_HOSTNAME_LEN = 253"

definition MAX_CLIENT_ID_LEN :: nat where
  "MAX_CLIENT_ID_LEN = 64"

definition MAX_TOPIC_LEN :: nat where
  "MAX_TOPIC_LEN = 256"

definition MAX_PACKET_SIZE :: u32 where
  "MAX_PACKET_SIZE = 65535"

datatype mqtt_config_error =
  MqEmpty | MqTooLong | MqInvalidHostname | MqInvalidClientId | MqInvalidTopicName
| MqInvalidTopicFilter | MqInvalidPort | MqInvalidMaximumPacketSize | MqInvalidReconnectPolicy

fun mqtt_config_error_display :: "mqtt_config_error \<Rightarrow> str" where
  "mqtt_config_error_display MqEmpty = lit ''MQTT value must not be empty''"
| "mqtt_config_error_display MqTooLong = lit ''MQTT value exceeds its bounded capacity''"
| "mqtt_config_error_display MqInvalidHostname = lit ''invalid MQTT broker hostname''"
| "mqtt_config_error_display MqInvalidClientId = lit ''invalid MQTT client identifier''"
| "mqtt_config_error_display MqInvalidTopicName = lit ''invalid MQTT topic name''"
| "mqtt_config_error_display MqInvalidTopicFilter = lit ''invalid MQTT topic filter''"
| "mqtt_config_error_display MqInvalidPort = lit ''MQTT broker port must not be zero''"
| "mqtt_config_error_display MqInvalidMaximumPacketSize = lit ''invalid MQTT maximum packet size''"
| "mqtt_config_error_display MqInvalidReconnectPolicy = lit ''invalid MQTT reconnect policy''"

subsection \<open>The macro bounded_text\<close>

text \<open>The macro's parameters, the capacity and the validator, are arguments.\<close>

record bounded_text =
  txt_bytes :: "u8 list"
  txt_len :: u16

definition bounded_text_new ::
  "nat \<Rightarrow> (str \<Rightarrow> (unit, mqtt_config_error) result) \<Rightarrow> str
   \<Rightarrow> (bounded_text, mqtt_config_error) result" where
  "bounded_text_new capacity validator v =
     (if v = [] then Err MqEmpty
      else if length v > capacity then Err MqTooLong
      else case validator v of
             Inl e \<Rightarrow> Err e
           | Inr _ \<Rightarrow>
               Ok \<lparr>txt_bytes = copy_prefix (replicate capacity 0) v, txt_len = of_nat (length v)\<rparr>)"

definition text_as_str :: "bounded_text \<Rightarrow> str" where
  "text_as_str t = unwrap_or [] (from_utf8 (take (unat (txt_len t)) (txt_bytes t)))"

definition text_len :: "bounded_text \<Rightarrow> nat" where
  "text_len t = unat (txt_len t)"

definition text_is_empty :: "bounded_text \<Rightarrow> bool" where
  "text_is_empty t \<longleftrightarrow> txt_len t = 0"

subsection \<open>Validators\<close>

definition label_invalid :: "str \<Rightarrow> bool" where
  "label_invalid label \<longleftrightarrow>
     label = [] \<or> length label > 63
     \<or> starts_with_byte 0x2D label \<or> ends_with_byte 0x2D label
     \<or> \<not> list_all (\<lambda>b. is_ascii_alphanumeric b \<or> b = 0x2D) label"

definition validate_hostname :: "str \<Rightarrow> (unit, mqtt_config_error) result" where
  "validate_hostname v =
     (if ends_with_byte 0x2E v \<or> list_ex label_invalid (split_on 0x2E v)
      then Err MqInvalidHostname else Ok ())"

definition validate_client_id :: "str \<Rightarrow> (unit, mqtt_config_error) result" where
  "validate_client_id v = (if 0 \<in> set v then Err MqInvalidClientId else Ok ())"

definition validate_topic_name :: "str \<Rightarrow> (unit, mqtt_config_error) result" where
  "validate_topic_name v =
     (if list_ex (\<lambda>b. b \<in> {0, 0x2B, 0x23}) v then Err MqInvalidTopicName else Ok ())"

text \<open>The loop over the levels of a filter, with the index of the first one.\<close>

fun topic_filter_loop :: "nat \<Rightarrow> nat \<Rightarrow> str list \<Rightarrow> (unit, mqtt_config_error) result" where
  "topic_filter_loop level_count index [] = Ok ()"
| "topic_filter_loop level_count index (level # levels) =
     (if 0 \<in> set level
         \<or> (0x2B \<in> set level \<and> level \<noteq> [0x2B])
         \<or> (0x23 \<in> set level \<and> (level \<noteq> [0x23] \<or> index + 1 \<noteq> level_count))
      then Err MqInvalidTopicFilter
      else topic_filter_loop level_count (index + 1) levels)"

definition validate_topic_filter :: "str \<Rightarrow> (unit, mqtt_config_error) result" where
  "validate_topic_filter v =
     (let levels = split_on 0x2F v in topic_filter_loop (length levels) 0 levels)"

definition broker_hostname_new :: "str \<Rightarrow> (bounded_text, mqtt_config_error) result" where
  "broker_hostname_new = bounded_text_new MAX_HOSTNAME_LEN validate_hostname"

definition client_id_new :: "str \<Rightarrow> (bounded_text, mqtt_config_error) result" where
  "client_id_new = bounded_text_new MAX_CLIENT_ID_LEN validate_client_id"

definition topic_name_new :: "str \<Rightarrow> (bounded_text, mqtt_config_error) result" where
  "topic_name_new = bounded_text_new MAX_TOPIC_LEN validate_topic_name"

definition topic_filter_new :: "str \<Rightarrow> (bounded_text, mqtt_config_error) result" where
  "topic_filter_new = bounded_text_new MAX_TOPIC_LEN validate_topic_filter"

subsection \<open>Session configuration\<close>

datatype broker_port = BrokerPort (port_get: u16)

definition broker_port_new :: "u16 \<Rightarrow> (broker_port, mqtt_config_error) result" where
  "broker_port_new v = (if v = 0 then Err MqInvalidPort else Ok (BrokerPort v))"

datatype qos = AtMostOnce | AtLeastOnce

record mqtt_config =
  mc_hostname :: bounded_text
  mc_port :: broker_port
  mc_client_id :: bounded_text
  mc_keep_alive_seconds :: u16
  mc_session_expiry_seconds :: u32
  mc_maximum_packet_size :: u32

definition mqtt_config_new ::
  "bounded_text \<Rightarrow> broker_port \<Rightarrow> bounded_text \<Rightarrow> u16 \<Rightarrow> u32 \<Rightarrow> u32
   \<Rightarrow> (mqtt_config, mqtt_config_error) result" where
  "mqtt_config_new hostname port client_id keep_alive session_expiry maximum_packet_size =
     (if maximum_packet_size = 0 \<or> maximum_packet_size > MAX_PACKET_SIZE
      then Err MqInvalidMaximumPacketSize
      else Ok \<lparr>mc_hostname = hostname, mc_port = port, mc_client_id = client_id,
               mc_keep_alive_seconds = keep_alive, mc_session_expiry_seconds = session_expiry,
               mc_maximum_packet_size = maximum_packet_size\<rparr>)"

subsection \<open>Lifecycle snapshot\<close>

datatype connection_state =
  MqDisabled | WaitingForNetwork | ResolvingBroker | ConnectingTransport
| AuthenticatingTransport | ConnectingSession | MqConnected | MqResumed | BackingOff

datatype mqtt_error_kind =
  Configuration | Capacity | Transport | Protocol | Disconnected | NotReady

record mqtt_snapshot =
  sn_state :: connection_state
  sn_connections :: u32
  sn_resumptions :: u32
  sn_failures :: u32
  sn_publishes :: u32
  sn_received :: u32
  sn_queue_drops :: u32
  sn_last_error :: "mqtt_error_kind option"

definition snapshot_default :: mqtt_snapshot where
  "snapshot_default =
     \<lparr>sn_state = MqDisabled, sn_connections = 0, sn_resumptions = 0, sn_failures = 0,
      sn_publishes = 0, sn_received = 0, sn_queue_drops = 0, sn_last_error = None\<rparr>"

definition transition :: "connection_state \<Rightarrow> mqtt_snapshot \<Rightarrow> mqtt_snapshot" where
  "transition state s = s\<lparr>sn_state := state\<rparr>"

definition record_connected :: "mqtt_snapshot \<Rightarrow> mqtt_snapshot" where
  "record_connected s =
     s\<lparr>sn_state := MqConnected, sn_connections := saturating_add (sn_connections s) 1,
       sn_last_error := None\<rparr>"

definition record_resumed :: "mqtt_snapshot \<Rightarrow> mqtt_snapshot" where
  "record_resumed s =
     s\<lparr>sn_state := MqResumed, sn_resumptions := saturating_add (sn_resumptions s) 1,
       sn_last_error := None\<rparr>"

definition record_failure :: "mqtt_error_kind \<Rightarrow> mqtt_snapshot \<Rightarrow> mqtt_snapshot" where
  "record_failure e s =
     s\<lparr>sn_state := BackingOff, sn_failures := saturating_add (sn_failures s) 1,
       sn_last_error := Some e\<rparr>"

definition record_publish :: "mqtt_snapshot \<Rightarrow> mqtt_snapshot" where
  "record_publish s = s\<lparr>sn_publishes := saturating_add (sn_publishes s) 1\<rparr>"

definition record_receive :: "mqtt_snapshot \<Rightarrow> mqtt_snapshot" where
  "record_receive s = s\<lparr>sn_received := saturating_add (sn_received s) 1\<rparr>"

definition record_queue_drop :: "mqtt_snapshot \<Rightarrow> mqtt_snapshot" where
  "record_queue_drop s = s\<lparr>sn_queue_drops := saturating_add (sn_queue_drops s) 1\<rparr>"

definition record_queue_drops :: "u32 \<Rightarrow> mqtt_snapshot \<Rightarrow> mqtt_snapshot" where
  "record_queue_drops count s = s\<lparr>sn_queue_drops := saturating_add (sn_queue_drops s) count\<rparr>"

text \<open>The calls on a snapshot as data, to state what a history of them records.\<close>

datatype snapshot_call =
  Transition connection_state | RecordConnected | RecordResumed | RecordFailure mqtt_error_kind
| RecordPublish | RecordReceive | RecordQueueDrop | RecordQueueDrops u32

fun snapshot_step :: "snapshot_call \<Rightarrow> mqtt_snapshot \<Rightarrow> mqtt_snapshot" where
  "snapshot_step (Transition st) = transition st"
| "snapshot_step RecordConnected = record_connected"
| "snapshot_step RecordResumed = record_resumed"
| "snapshot_step (RecordFailure e) = record_failure e"
| "snapshot_step RecordPublish = record_publish"
| "snapshot_step RecordReceive = record_receive"
| "snapshot_step RecordQueueDrop = record_queue_drop"
| "snapshot_step (RecordQueueDrops n) = record_queue_drops n"

text \<open>How much a call adds to the drop counter; and the calls that set the last error.\<close>

fun drops_of :: "snapshot_call \<Rightarrow> nat" where
  "drops_of RecordQueueDrop = 1"
| "drops_of (RecordQueueDrops n) = unat n"
| "drops_of _ = 0"

fun sets_error :: "snapshot_call \<Rightarrow> bool" where
  "sets_error RecordConnected = True"
| "sets_error RecordResumed = True"
| "sets_error (RecordFailure _) = True"
| "sets_error _ = False"

subsection \<open>Reconnect policy and back-off\<close>

record mqtt_policy =
  mp_initial_delay_ms :: u32
  mp_maximum_delay_ms :: u32
  mp_jitter_ms :: u32

definition mqtt_policy_new ::
  "u32 \<Rightarrow> u32 \<Rightarrow> u32 \<Rightarrow> (mqtt_policy, mqtt_config_error) result" where
  "mqtt_policy_new initial maximum jitter =
     (if initial = 0 \<or> maximum < initial then Err MqInvalidReconnectPolicy
      else Ok \<lparr>mp_initial_delay_ms = initial, mp_maximum_delay_ms = maximum,
               mp_jitter_ms = jitter\<rparr>)"

definition mqtt_policy_default :: mqtt_policy where
  "mqtt_policy_default =
     \<lparr>mp_initial_delay_ms = 1000, mp_maximum_delay_ms = 60000, mp_jitter_ms = 250\<rparr>"

record mqtt_backoff =
  mb_policy :: mqtt_policy
  mb_attempts :: u8

definition policy_backoff :: "mqtt_policy \<Rightarrow> mqtt_backoff" where
  "policy_backoff p = \<lparr>mb_policy = p, mb_attempts = 0\<rparr>"

definition mqtt_backoff_reset :: "mqtt_backoff \<Rightarrow> mqtt_backoff" where
  "mqtt_backoff_reset b = b\<lparr>mb_attempts := 0\<rparr>"

definition mqtt_next_delay_ms :: "u32 \<Rightarrow> mqtt_backoff \<Rightarrow> u32 \<times> mqtt_backoff" where
  "mqtt_next_delay_ms entropy b =
     (let p = mb_policy b;
          shift = min (mb_attempts b) 31;
          base = min (unwrap_or umax (checked_shl (mp_initial_delay_ms p) (unat shift)))
                     (mp_maximum_delay_ms p);
          jitter = (if mp_jitter_ms p = 0 then 0
                    else entropy mod saturating_add (mp_jitter_ms p) 1)
      in (min (saturating_add base jitter) (mp_maximum_delay_ms p),
          b\<lparr>mb_attempts := saturating_add (mb_attempts b) 1\<rparr>))"

definition mqtt_limit :: "mqtt_backoff \<Rightarrow> nat" where
  "mqtt_limit b = unat (mp_maximum_delay_ms (mb_policy b))"

definition mqtt_attempts :: "mqtt_backoff \<Rightarrow> nat" where
  "mqtt_attempts b = unat (mb_attempts b)"

section \<open>Lemmas\<close>

subsection \<open>Bounded text\<close>

lemma bounded_text_store:
  assumes "bounded_text_new capacity validator v = Inr t" and "capacity < 2 ^ 16"
  shows "take (unat (txt_len t)) (txt_bytes t) = v" "text_len t = length v"
proof -
  from assms have "length v \<le> capacity"
    and t: "t = \<lparr>txt_bytes = copy_prefix (replicate capacity 0) v, txt_len = of_nat (length v)\<rparr>"
    by (auto simp: bounded_text_new_def split: if_splits sum.splits)
  with assms(2) have "unat (of_nat (length v) :: u16) = length v"
    by (simp add: unat_of_nat_id)
  then show "take (unat (txt_len t)) (txt_bytes t) = v" "text_len t = length v"
    by (simp_all add: t text_len_def)
qed

lemma bounded_text_new_ok:
  "is_ok (bounded_text_new capacity validator v) \<longleftrightarrow>
     v \<noteq> [] \<and> length v \<le> capacity \<and> is_ok (validator v)"
  by (auto simp: bounded_text_new_def is_ok_def split: sum.splits)

lemma bounded_text_bounded_store:
  assumes "capacity < 2 ^ 16"
  shows "bounded_store capacity utf8_valid (\<lambda>v. v \<noteq> [] \<and> length v \<le> capacity \<and> is_ok (validator v))
    (bounded_text_new capacity validator) text_as_str text_len"
  using assms
  by unfold_locales (auto simp: bounded_text_new_ok bounded_text_store text_as_str_def)

interpretation hostname_store: bounded_store MAX_HOSTNAME_LEN utf8_valid
  "\<lambda>v. v \<noteq> [] \<and> length v \<le> MAX_HOSTNAME_LEN \<and> is_ok (validate_hostname v)"
  broker_hostname_new text_as_str text_len
  unfolding broker_hostname_new_def
  by (rule bounded_text_bounded_store) (simp add: MAX_HOSTNAME_LEN_def)

interpretation client_id_store: bounded_store MAX_CLIENT_ID_LEN utf8_valid
  "\<lambda>v. v \<noteq> [] \<and> length v \<le> MAX_CLIENT_ID_LEN \<and> is_ok (validate_client_id v)"
  client_id_new text_as_str text_len
  unfolding client_id_new_def
  by (rule bounded_text_bounded_store) (simp add: MAX_CLIENT_ID_LEN_def)

interpretation topic_name_store: bounded_store MAX_TOPIC_LEN utf8_valid
  "\<lambda>v. v \<noteq> [] \<and> length v \<le> MAX_TOPIC_LEN \<and> is_ok (validate_topic_name v)"
  topic_name_new text_as_str text_len
  unfolding topic_name_new_def
  by (rule bounded_text_bounded_store) (simp add: MAX_TOPIC_LEN_def)

interpretation topic_filter_store: bounded_store MAX_TOPIC_LEN utf8_valid
  "\<lambda>v. v \<noteq> [] \<and> length v \<le> MAX_TOPIC_LEN \<and> is_ok (validate_topic_filter v)"
  topic_filter_new text_as_str text_len
  unfolding topic_filter_new_def
  by (rule bounded_text_bounded_store) (simp add: MAX_TOPIC_LEN_def)

subsection \<open>Validators\<close>

lemma topic_filter_loop_ok:
  "index + length levels = level_count \<Longrightarrow>
     is_ok (topic_filter_loop level_count index levels) \<longleftrightarrow>
       (\<forall>l \<in> set levels. 0 \<notin> set l \<and> (0x2B \<in> set l \<longrightarrow> l = [0x2B]) \<and> (0x23 \<in> set l \<longrightarrow> l = [0x23]))
       \<and> (\<forall>l \<in> set (butlast levels). 0x23 \<notin> set l)"
proof (induction level_count index levels rule: topic_filter_loop.induct)
  case (2 level_count index level levels)
  then show ?case
    by (cases levels) auto
qed simp

lemma mem_split_iff: "x \<noteq> c \<Longrightarrow> (\<exists>p \<in> set (split_on c xs). x \<in> set p) \<longleftrightarrow> x \<in> set xs"
  using mem_split_on [of x xs c] set_split_on [of _ c xs] by blast

lemma validate_topic_filter_ok:
  "is_ok (validate_topic_filter v) \<longleftrightarrow>
     0 \<notin> set v
     \<and> (\<forall>l \<in> set (split_on 0x2F v). (0x2B \<in> set l \<longrightarrow> l = [0x2B]) \<and> (0x23 \<in> set l \<longrightarrow> l = [0x23]))
     \<and> (\<forall>l \<in> set (butlast (split_on 0x2F v)). 0x23 \<notin> set l)"
  using mem_split_iff [of 0 "0x2F" v] by (auto simp: validate_topic_filter_def Let_def topic_filter_loop_ok)

lemma validate_topic_name_ok:
  "is_ok (validate_topic_name v) \<longleftrightarrow> 0 \<notin> set v \<and> 0x2B \<notin> set v \<and> 0x23 \<notin> set v"
  by (auto simp: validate_topic_name_def list_ex_iff)

lemma validate_hostname_ok:
  "is_ok (validate_hostname v) \<longleftrightarrow> (\<forall>l \<in> set (split_on 0x2E v). \<not> label_invalid l)"
proof -
  have "\<exists>l \<in> set (split_on 0x2E v). label_invalid l" if "ends_with_byte 0x2E v"
  proof -
    from that obtain u where "v = u @ [0x2E]"
      by (cases v rule: rev_cases) (auto simp: ends_with_byte_def)
    then have "[] \<in> set (split_on 0x2E v)"
      by (simp add: split_on_snoc)
    then show ?thesis
      by (auto simp: label_invalid_def)
  qed
  then show ?thesis
    by (auto simp: validate_hostname_def list_ex_iff)
qed

subsection \<open>Back-off\<close>

lemma mqtt_next_delay_unat:
  "unat (fst (mqtt_next_delay_ms r b)) =
     min (min ((unat (mp_initial_delay_ms (mb_policy b)) * 2 ^ min (unat (mb_attempts b)) 31) mod 2 ^ 32)
            (unat (mp_maximum_delay_ms (mb_policy b)))
          + unat r mod min (unat (mp_jitter_ms (mb_policy b)) + 1) (2 ^ 32 - 1))
         (unat (mp_maximum_delay_ms (mb_policy b)))"
proof -
  define p where "p = mb_policy b"
  have m: "unat (mp_maximum_delay_ms p) \<le> 2 ^ 32 - 1"
    using unsigned_less [of "mp_maximum_delay_ms p", where 'a = nat] by simp
  have bound: "min (unat (mb_attempts b)) 31 < 32"
    by simp
  have shift: "unat (min (mb_attempts b) 31) = min (unat (mb_attempts b)) 31"
    by (simp add: rust_int)
  have clip: "min (min x y) z = min x z" if "z \<le> y" for x y z :: nat
    using that by simp
  show ?thesis
    using clip [OF m] bound
    by (simp add: mqtt_next_delay_ms_def Let_def checked_shl_def unat_push_bit_mod shift rust_int
        unat_mod flip: p_def)
qed

lemma mqtt_next_policy [simp]: "mb_policy (snd (mqtt_next_delay_ms r b)) = mb_policy b"
  by (simp add: mqtt_next_delay_ms_def Let_def)

lemma mqtt_next_attempts:
  "unat (mb_attempts (snd (mqtt_next_delay_ms r b))) = min (Suc (unat (mb_attempts b))) 255"
  by (simp add: mqtt_next_delay_ms_def Let_def rust_int)

interpretation mqtt_retry: bounded_backoff "\<lambda>_. True" mqtt_limit mqtt_attempts 255
  mqtt_next_delay_ms mqtt_backoff_reset
proof unfold_locales
  fix b :: mqtt_backoff and r :: u32
  show "mqtt_backoff_reset (snd (mqtt_next_delay_ms r b)) = mqtt_backoff_reset b"
    by (simp add: mqtt_backoff_reset_def mqtt_next_delay_ms_def Let_def)
  show "unat (fst (mqtt_next_delay_ms r b)) \<le> mqtt_limit b"
    by (simp add: mqtt_limit_def mqtt_next_delay_unat)
qed (simp_all add: mqtt_limit_def mqtt_attempts_def mqtt_next_attempts mqtt_backoff_reset_def)

lemma mqtt_delays_closed_form:
  assumes "k < length rs"
  shows "unat (delays mqtt_next_delay_ms rs b ! k) =
     min (min ((unat (mp_initial_delay_ms (mb_policy b)) * 2 ^ min (unat (mb_attempts b) + k) 31) mod 2 ^ 32)
            (unat (mp_maximum_delay_ms (mb_policy b)))
          + unat (rs ! k) mod min (unat (mp_jitter_ms (mb_policy b)) + 1) (2 ^ 32 - 1))
         (unat (mp_maximum_delay_ms (mb_policy b)))"
  using assms
proof (induction rs arbitrary: b k)
  case (Cons r rs)
  show ?case
  proof (cases k)
    case 0
    then show ?thesis by (simp add: mqtt_next_delay_unat)
  next
    case (Suc n)
    have "min (min (Suc a) 255 + n) 31 = min (a + Suc n) 31" for a :: nat
      by (simp add: min_def)
    with Cons.IH [of n "snd (mqtt_next_delay_ms r b)"] Cons.prems Suc show ?thesis
      by (simp add: mqtt_next_attempts)
  qed
qed simp

lemma default_base_saturates:
  assumes "k < 29"
  shows "min ((1000 * 2 ^ k) mod 2 ^ 32) 60000 = min (1000 * 2 ^ k) (60000 :: nat)"
proof (cases "k \<le> 22")
  case True
  then have "(2 :: nat) ^ k \<le> 2 ^ 22"
    by (rule power_increasing) simp
  then show ?thesis
    by simp
next
  case False
  with assms have "k = 23 \<or> k = 24 \<or> k = 25 \<or> k = 26 \<or> k = 27 \<or> k = 28"
    by linarith
  then show ?thesis
    by (elim disjE) simp_all
qed

lemma default_base_collapses: "29 \<le> k \<Longrightarrow> (1000 * 2 ^ min k 31) mod 2 ^ 32 = (0 :: nat)"
proof -
  assume "29 \<le> k"
  then have "min k 31 = 29 \<or> min k 31 = 30 \<or> min k 31 = 31"
    by linarith
  then show ?thesis
    by (elim disjE) simp_all
qed

subsection \<open>Snapshots\<close>

lemma u32_le: "unat (w :: u32) \<le> 2 ^ 32 - 1"
  using unsigned_less [of w, where 'a = nat] by simp

lemma fold_counter:
  fixes f :: "mqtt_snapshot \<Rightarrow> u32"
  assumes "\<And>x s. unat (f (snapshot_step x s)) = min (unat (f s) + g x) (2 ^ 32 - 1)"
  shows "unat (f (fold snapshot_step xs s)) = min (unat (f s) + (\<Sum>x \<leftarrow> xs. g x)) (2 ^ 32 - 1)"
proof (induction xs arbitrary: s)
  case Nil
  show ?case using u32_le [of "f s"] by simp
next
  case (Cons x xs)
  then show ?case
    by (simp add: assms)
qed

lemmas snapshot_defs = transition_def record_connected_def record_resumed_def record_failure_def
  record_publish_def record_receive_def record_queue_drop_def record_queue_drops_def

lemma counter_steps:
  "unat (sn_connections (snapshot_step x s)) =
     min (unat (sn_connections s) + of_bool (x = RecordConnected)) (2 ^ 32 - 1)"
  "unat (sn_resumptions (snapshot_step x s)) =
     min (unat (sn_resumptions s) + of_bool (x = RecordResumed)) (2 ^ 32 - 1)"
  "unat (sn_failures (snapshot_step x s)) =
     min (unat (sn_failures s) + of_bool (x \<in> range RecordFailure)) (2 ^ 32 - 1)"
  "unat (sn_publishes (snapshot_step x s)) =
     min (unat (sn_publishes s) + of_bool (x = RecordPublish)) (2 ^ 32 - 1)"
  "unat (sn_received (snapshot_step x s)) =
     min (unat (sn_received s) + of_bool (x = RecordReceive)) (2 ^ 32 - 1)"
  "unat (sn_queue_drops (snapshot_step x s)) =
     min (unat (sn_queue_drops s) + drops_of x) (2 ^ 32 - 1)"
  using u32_le [of "sn_connections s"] u32_le [of "sn_resumptions s"] u32_le [of "sn_failures s"]
    u32_le [of "sn_publishes s"] u32_le [of "sn_received s"] u32_le [of "sn_queue_drops s"]
  by (cases x; simp add: snapshot_defs rust_int image_iff)+

lemma sum_list_of_bool: "(\<Sum>x \<leftarrow> xs. of_bool (P x)) = length (filter P xs)"
  by (induction xs) simp_all

lemma last_error_kept:
  "\<not> list_ex sets_error xs \<Longrightarrow> sn_last_error (fold snapshot_step xs s) = sn_last_error s"
proof (induction xs arbitrary: s)
  case (Cons x xs)
  then have "sn_last_error (snapshot_step x s) = sn_last_error s"
    by (cases x) (simp_all add: snapshot_defs)
  with Cons show ?case by simp
qed simp

section \<open>Properties\<close>

text \<open>
  C13. The MQTT reconnect delays, exactly and with the wrap-around of the shift: the \<open>k\<close>-th
  delay of an accepted policy is the initial delay shifted left by \<open>min k 31\<close> in 32 bits,
  cut off at the maximum, plus the entropy modulo the jitter bound plus one, cut off at the
  maximum; all delays are at most the maximum, and a reset restarts the sequence.
\<close>

theorem mqtt_delay_sequence:
  assumes "mqtt_policy_new i m j = Inr p" and "k < length rs"
  shows "unat (delays mqtt_next_delay_ms rs (policy_backoff p) ! k) =
      min (min ((unat i * 2 ^ min k 31) mod 2 ^ 32) (unat m)
           + unat (rs ! k) mod min (unat j + 1) (2 ^ 32 - 1)) (unat m)
    \<and> sum_list (map unat (delays mqtt_next_delay_ms rs (policy_backoff p))) \<le> length rs * unat m
    \<and> delays mqtt_next_delay_ms rs (mqtt_backoff_reset (advance mqtt_next_delay_ms qs (policy_backoff p)))
        = delays mqtt_next_delay_ms rs (policy_backoff p)"
proof -
  let ?b = "policy_backoff p"
  from assms(1) have p: "p = \<lparr>mp_initial_delay_ms = i, mp_maximum_delay_ms = m, mp_jitter_ms = j\<rparr>"
    by (auto simp: mqtt_policy_new_def split: if_splits)
  have reset: "mqtt_backoff_reset ?b = ?b"
    by (simp add: mqtt_backoff_reset_def policy_backoff_def)
  have lim: "mqtt_limit ?b = unat m"
    by (simp add: mqtt_limit_def policy_backoff_def p)
  show ?thesis
    using mqtt_delays_closed_form [OF assms(2), of ?b] mqtt_retry.total_delay_bounded [of rs ?b]
      mqtt_retry.replay_after_reset [of rs qs ?b]
    by (simp add: reset lim) (simp add: policy_backoff_def p)
qed

theorem mqtt_delay_sequence_witness:
  "is_ok (mqtt_policy_new 1000 8000 0)
   \<and> map (\<lambda>k. unat (delays mqtt_next_delay_ms [0, 0, 0, 0, 0] (policy_backoff
        \<lparr>mp_initial_delay_ms = 1000, mp_maximum_delay_ms = 8000, mp_jitter_ms = 0\<rparr>) ! k)) [1, 4]
      = [2000, 8000]"
proof -
  have p: "mqtt_policy_new 1000 8000 0 =
      Inr \<lparr>mp_initial_delay_ms = 1000, mp_maximum_delay_ms = 8000, mp_jitter_ms = 0\<rparr>"
    by (simp add: mqtt_policy_new_def)
  show ?thesis
    using mqtt_delay_sequence [OF p, of 1 "[0, 0, 0, 0, 0]"]
      mqtt_delay_sequence [OF p, of 4 "[0, 0, 0, 0, 0]"] by (simp add: p)
qed

text \<open>
  Under the default policy the back-off is exponential for the first 29 delays, each at
  least the doubled initial delay up to the maximum of a minute; from the 30th consecutive
  failure on, the shift has pushed every bit of the initial delay out of 32 bits, and the
  delay is the jitter alone: at most 250 ms.
\<close>

lemma mqtt_default_backoff_collapse:
  assumes "k < length rs"
  shows "(k < 29 \<longrightarrow> min (1000 * 2 ^ k) 60000
        \<le> unat (delays mqtt_next_delay_ms rs (policy_backoff mqtt_policy_default) ! k))
    \<and> (29 \<le> k \<longrightarrow>
        unat (delays mqtt_next_delay_ms rs (policy_backoff mqtt_policy_default) ! k)
          = unat (rs ! k) mod 251)"
proof -
  let ?b = "policy_backoff mqtt_policy_default"
  have form: "unat (delays mqtt_next_delay_ms rs ?b ! k) =
      min (min ((1000 * 2 ^ min k 31) mod 2 ^ 32) 60000 + unat (rs ! k) mod 251) 60000"
    using mqtt_delays_closed_form [OF assms, of ?b]
    by (simp add: policy_backoff_def mqtt_policy_default_def)
  have "unat (rs ! k) mod 251 \<le> 60000"
    using mod_less_divisor [of 251 "unat (rs ! k)"] by linarith
  then show ?thesis
    using default_base_saturates [of k] default_base_collapses [of k] by (simp add: form)
qed

text \<open>
  C27. Topic names and filters: a filter is accepted exactly when it is not empty, has at
  most 256 bytes, no null, wildcards only as whole levels, and the multi-level wildcard only
  as the last level; a topic name is accepted exactly when it is an acceptable filter
  without wildcards; and an accepted UTF-8 value is returned unchanged.
\<close>

theorem topic_validation:
  "(is_ok (topic_filter_new v) \<longleftrightarrow>
      v \<noteq> [] \<and> length v \<le> 256 \<and> 0 \<notin> set v
      \<and> (\<forall>l \<in> set (split_on 0x2F v). 0x2B \<in> set l \<longrightarrow> l = lit ''+'')
      \<and> (\<forall>l \<in> set (split_on 0x2F v). 0x23 \<in> set l \<longrightarrow> l = lit ''#'')
      \<and> (\<forall>l \<in> set (butlast (split_on 0x2F v)). 0x23 \<notin> set l))
   \<and> (is_ok (topic_name_new v) \<longleftrightarrow>
        is_ok (topic_filter_new v) \<and> 0x2B \<notin> set v \<and> 0x23 \<notin> set v)
   \<and> (utf8_valid v \<and> (topic_name_new v = Inr t \<or> topic_filter_new v = Inr t) \<longrightarrow>
        text_as_str t = v \<and> text_len t = length v)"
proof (intro conjI impI)
  show filter_ok: "is_ok (topic_filter_new v) \<longleftrightarrow>
      v \<noteq> [] \<and> length v \<le> 256 \<and> 0 \<notin> set v
      \<and> (\<forall>l \<in> set (split_on 0x2F v). 0x2B \<in> set l \<longrightarrow> l = lit ''+'')
      \<and> (\<forall>l \<in> set (split_on 0x2F v). 0x23 \<in> set l \<longrightarrow> l = lit ''#'')
      \<and> (\<forall>l \<in> set (butlast (split_on 0x2F v)). 0x23 \<notin> set l)"
    by (auto simp: topic_filter_store.new_accepts validate_topic_filter_ok MAX_TOPIC_LEN_def)
  show "is_ok (topic_name_new v) \<longleftrightarrow>
      is_ok (topic_filter_new v) \<and> 0x2B \<notin> set v \<and> 0x23 \<notin> set v"
    using set_split_on [of _ "0x2F" v] in_set_butlastD [of _ "split_on 0x2F v"]
    by (auto simp: filter_ok topic_name_store.new_accepts validate_topic_name_ok MAX_TOPIC_LEN_def)
  assume "utf8_valid v \<and> (topic_name_new v = Inr t \<or> topic_filter_new v = Inr t)"
  then show "text_as_str t = v" "text_len t = length v"
    using topic_name_store.contents_new topic_filter_store.contents_new topic_name_store.len_new
      topic_filter_store.len_new by blast+
qed

theorem topic_validation_witness:
  "is_ok (topic_filter_new (lit ''a/+/#'')) \<and> \<not> is_ok (topic_name_new (lit ''a/+/#''))
   \<and> \<not> is_ok (topic_filter_new (lit ''#/a''))"
  using topic_validation [of "lit ''a/+/#''"] topic_validation [of "lit ''#/a''"] by simp

text \<open>
  C28. Broker hostnames are DNS names: a hostname is accepted exactly when it has 1 to 253
  bytes and each of its dot-separated labels has 1 to 63 letters, digits and hyphens, with
  no hyphen at either end; in particular there is no trailing dot.
\<close>

theorem hostname_validation:
  "is_ok (broker_hostname_new v) \<longleftrightarrow>
     v \<noteq> [] \<and> length v \<le> 253
     \<and> (\<forall>l \<in> set (split_on 0x2E v). length l \<in> {1..63} \<and> hd l \<noteq> 0x2D \<and> last l \<noteq> 0x2D
          \<and> (\<forall>b \<in> set l. is_ascii_alphanumeric b \<or> b = 0x2D))"
proof -
  have "\<not> label_invalid l \<longleftrightarrow> length l \<in> {1..63} \<and> hd l \<noteq> 0x2D \<and> last l \<noteq> 0x2D
      \<and> (\<forall>b \<in> set l. is_ascii_alphanumeric b \<or> b = 0x2D)" for l
    by (cases l) (auto simp: label_invalid_def starts_with_byte_def ends_with_byte_def list_all_iff)
  then show ?thesis
    by (simp add: hostname_store.new_accepts validate_hostname_ok MAX_HOSTNAME_LEN_def)
qed

theorem hostname_validation_witness:
  "is_ok (broker_hostname_new (lit ''broker.local'')) \<and> \<not> is_ok (broker_hostname_new (lit ''broker.''))"
  using hostname_validation [of "lit ''broker.local''"] hostname_validation [of "lit ''broker.''"]
  by (simp add: is_ascii_alphanumeric_def is_ascii_lower_def)

text \<open>
  The lifecycle snapshot counts without wrapping: after any history of calls each counter
  is its start value plus the number of its calls (for queue drops, plus the drops reported),
  saturating at the largest 32-bit value; and the last error is the one of the latest failure
  unless a session was established since.
\<close>

lemma snapshot_counters:
  "unat (sn_connections (fold snapshot_step xs s)) =
     min (unat (sn_connections s) + length (filter (\<lambda>x. x = RecordConnected) xs)) (2 ^ 32 - 1)
   \<and> unat (sn_resumptions (fold snapshot_step xs s)) =
     min (unat (sn_resumptions s) + length (filter (\<lambda>x. x = RecordResumed) xs)) (2 ^ 32 - 1)
   \<and> unat (sn_failures (fold snapshot_step xs s)) =
     min (unat (sn_failures s) + length (filter (\<lambda>x. x \<in> range RecordFailure) xs)) (2 ^ 32 - 1)
   \<and> unat (sn_publishes (fold snapshot_step xs s)) =
     min (unat (sn_publishes s) + length (filter (\<lambda>x. x = RecordPublish) xs)) (2 ^ 32 - 1)
   \<and> unat (sn_received (fold snapshot_step xs s)) =
     min (unat (sn_received s) + length (filter (\<lambda>x. x = RecordReceive) xs)) (2 ^ 32 - 1)
   \<and> unat (sn_queue_drops (fold snapshot_step xs s)) =
     min (unat (sn_queue_drops s) + (\<Sum>x \<leftarrow> xs. drops_of x)) (2 ^ 32 - 1)
   \<and> (\<not> list_ex sets_error ys \<longrightarrow>
        sn_last_error (fold snapshot_step (xs @ RecordFailure e # ys) s) = Some e
        \<and> sn_last_error (fold snapshot_step (xs @ RecordConnected # ys) s) = None
        \<and> sn_last_error (fold snapshot_step (xs @ RecordResumed # ys) s) = None)"
proof (intro conjI impI)
  assume "\<not> list_ex sets_error ys"
  then show "sn_last_error (fold snapshot_step (xs @ RecordFailure e # ys) s) = Some e"
    "sn_last_error (fold snapshot_step (xs @ RecordConnected # ys) s) = None"
    "sn_last_error (fold snapshot_step (xs @ RecordResumed # ys) s) = None"
    by (simp_all add: last_error_kept snapshot_defs)
qed (simp_all only: fold_counter [OF counter_steps(1)] fold_counter [OF counter_steps(2)]
    fold_counter [OF counter_steps(3)] fold_counter [OF counter_steps(4)]
    fold_counter [OF counter_steps(5)] fold_counter [OF counter_steps(6)] sum_list_of_bool)

text \<open>
  A session configuration exists exactly for packet sizes from 1 to 65535, a broker port
  exactly for nonzero ports, and a client identifier exactly for 1 to 64 bytes without null;
  each is stored as given.
\<close>

lemma session_configuration:
  "(is_ok (mqtt_config_new h p c k e m) \<longleftrightarrow> unat m \<in> {1..65535})
   \<and> (mqtt_config_new h p c k e m = Inr g \<longrightarrow>
        mc_hostname g = h \<and> mc_port g = p \<and> mc_client_id g = c \<and> mc_keep_alive_seconds g = k
        \<and> mc_session_expiry_seconds g = e \<and> mc_maximum_packet_size g = m)
   \<and> (is_ok (broker_port_new n) \<longleftrightarrow> n \<noteq> 0)
   \<and> (is_ok (client_id_new v) \<longleftrightarrow> v \<noteq> [] \<and> length v \<le> 64 \<and> 0 \<notin> set v)"
proof (intro conjI)
  show "is_ok (mqtt_config_new h p c k e m) \<longleftrightarrow> unat m \<in> {1..65535}"
    by (auto simp: mqtt_config_new_def MAX_PACKET_SIZE_def word_less_nat_alt unat_gt_0 Suc_le_eq
        split: if_splits)
  show "is_ok (client_id_new v) \<longleftrightarrow> v \<noteq> [] \<and> length v \<le> 64 \<and> 0 \<notin> set v"
    by (auto simp: client_id_store.new_accepts validate_client_id_def MAX_CLIENT_ID_LEN_def)
qed (auto simp: mqtt_config_new_def broker_port_new_def split: if_splits)

end
