(* ===== verification/Mqtt_Client.thy ===== *)
theory Mqtt_Client
  imports Mqtt
begin

text \<open>
  \<open>crates/mqtt-minimq\<close>: the MQTT client over the third-party crate \<open>minimq\<close>. The crate
  is a parameter of the model, the record \<open>minimq_ops\<close>: every call takes the session's
  state and returns its result with the state afterwards. A connection borrows the client's
  session and snapshot, so connection and client are one state here. The contract the
  operations of a connection share is the locale \<open>observed_operation\<close>.
\<close>

section \<open>Definitions\<close>

subsection \<open>Configuration\<close>

datatype transport_security = Encrypted | PlaintextFixture

record credentials =
  cr_username :: str
  cr_password :: "u8 list"

text \<open>The argument of \<open>AcBackend\<close> is the configuration error of the backend.\<close>

datatype 'ce adapter_config_error =
  EmptyBuffer
| RxBufferTooSmall (required: nat) (available: nat)
| CredentialsRequireEncryption
| InvalidCredentials
| AcBackend 'ce

fun adapter_config_error_display :: "('ce \<Rightarrow> str) \<Rightarrow> 'ce adapter_config_error \<Rightarrow> str" where
  "adapter_config_error_display show_backend EmptyBuffer =
     lit ''MQTT RX and TX buffers must not be empty''"
| "adapter_config_error_display show_backend (RxBufferTooSmall req avail) =
     lit ''MQTT RX buffer requires '' @ fmt_dec req @ lit '' bytes but only '' @ fmt_dec avail
     @ lit '' were supplied''"
| "adapter_config_error_display show_backend CredentialsRequireEncryption =
     lit ''MQTT credentials require an authenticated encrypted transport''"
| "adapter_config_error_display show_backend InvalidCredentials = lit ''invalid MQTT credentials''"
| "adapter_config_error_display show_backend (AcBackend e) =
     lit ''minimq configuration failed: '' @ show_backend e"

definition credentials_new :: "str \<Rightarrow> u8 list \<Rightarrow> (credentials, 'ce adapter_config_error) result" where
  "credentials_new username password =
     (if username = [] \<or> 0 \<in> set username then Err InvalidCredentials
      else Ok \<lparr>cr_username = username, cr_password = password\<rparr>)"

definition credentials_debug :: "credentials \<Rightarrow> str" where
  "credentials_debug c = lit ''Credentials(**REDACTED**)''"

subsection \<open>Errors\<close>

text \<open>
  The backend's errors, with its peer, resource and transport errors as type parameters;
  \<open>MmOther\<close> stands for the values the wildcard arm of the conversion covers.
\<close>

datatype ('p, 'r, 'e) minimq_error =
  MmNotReady | MmDisconnected | MmInvalidRequest | MmPeer 'p | MmResource 'r | MmTransport 'e
| MmWriteZero | MmOther

datatype ('p, 'r, 'e) pub_error = PubSession "('p, 'r, 'e) minimq_error" | PubPayload

datatype ('p, 'r, 'e) mqtt_error =
  CeNotReady | CeDisconnected | CeInvalidRequest | CePeer 'p | CeResource 'r | CeTransport 'e
| CeWriteZero | CePayloadTooLarge | CeBackend

fun client_error_kind :: "('p, 'r, 'e) mqtt_error \<Rightarrow> mqtt_error_kind" where
  "client_error_kind CeNotReady = NotReady"
| "client_error_kind CeDisconnected = Disconnected"
| "client_error_kind CeInvalidRequest = Configuration"
| "client_error_kind (CePeer _) = Protocol"
| "client_error_kind (CeResource _) = Capacity"
| "client_error_kind CePayloadTooLarge = Capacity"
| "client_error_kind (CeTransport _) = Transport"
| "client_error_kind CeWriteZero = Transport"
| "client_error_kind CeBackend = Protocol"

fun mqtt_error_display ::
  "('p \<Rightarrow> str) \<Rightarrow> ('r \<Rightarrow> str) \<Rightarrow> ('e \<Rightarrow> str) \<Rightarrow> ('p, 'r, 'e) mqtt_error \<Rightarrow> str" where
  "mqtt_error_display sp sr se CeNotReady = lit ''MQTT session is not ready''"
| "mqtt_error_display sp sr se CeDisconnected = lit ''MQTT session is disconnected''"
| "mqtt_error_display sp sr se CeInvalidRequest = lit ''invalid MQTT operation''"
| "mqtt_error_display sp sr se (CePeer e) = lit ''MQTT peer error: '' @ sp e"
| "mqtt_error_display sp sr se (CeResource e) = lit ''MQTT capacity error: '' @ sr e"
| "mqtt_error_display sp sr se (CeTransport e) = lit ''MQTT transport error: '' @ se e"
| "mqtt_error_display sp sr se CeWriteZero = lit ''MQTT transport wrote zero bytes''"
| "mqtt_error_display sp sr se CePayloadTooLarge = lit ''MQTT payload exceeds packet capacity''"
| "mqtt_error_display sp sr se CeBackend = lit ''unrecognized minimq backend error''"

fun mqtt_error_from :: "('p, 'r, 'e) minimq_error \<Rightarrow> ('p, 'r, 'e) mqtt_error" where
  "mqtt_error_from MmNotReady = CeNotReady"
| "mqtt_error_from MmDisconnected = CeDisconnected"
| "mqtt_error_from MmInvalidRequest = CeInvalidRequest"
| "mqtt_error_from (MmPeer e) = CePeer e"
| "mqtt_error_from (MmResource e) = CeResource e"
| "mqtt_error_from (MmTransport e) = CeTransport e"
| "mqtt_error_from MmWriteZero = CeWriteZero"
| "mqtt_error_from MmOther = CeBackend"

subsection \<open>Quality of service and inbound messages\<close>

datatype minimq_qos = MmAtMostOnce | MmAtLeastOnce | MmExactlyOnce

fun to_minimq_qos :: "qos \<Rightarrow> minimq_qos" where
  "to_minimq_qos AtMostOnce = MmAtMostOnce"
| "to_minimq_qos AtLeastOnce = MmAtLeastOnce"

fun from_minimq_qos :: "minimq_qos \<Rightarrow> qos option" where
  "from_minimq_qos MmAtMostOnce = Some AtMostOnce"
| "from_minimq_qos MmAtLeastOnce = Some AtLeastOnce"
| "from_minimq_qos MmExactlyOnce = None"

record minimq_publish =
  mm_topic :: str
  mm_payload :: "u8 list"
  mm_qos :: minimq_qos
  mm_retained :: bool

record inbound_publish =
  in_topic :: str
  in_payload :: "u8 list"
  in_qos :: qos
  in_retained :: bool

definition from_minimq_publish :: "minimq_publish \<Rightarrow> inbound_publish option" where
  "from_minimq_publish m =
     map_option (\<lambda>q. \<lparr>in_topic = mm_topic m, in_payload = mm_payload m, in_qos = q,
       in_retained = mm_retained m\<rparr>) (from_minimq_qos (mm_qos m))"

subsection \<open>The backend\<close>

datatype connect_event = EvConnected | EvReconnected

record ('b, 's, 'ce) minimq_builder =
  mb_buffers :: "u8 list \<Rightarrow> u8 list \<Rightarrow> 'b"
  mb_client_id :: "str \<Rightarrow> 'b \<Rightarrow> ('b, 'ce) result"
  mb_keepalive :: "u16 \<Rightarrow> 'b \<Rightarrow> 'b"
  mb_session_expiry :: "u32 \<Rightarrow> 'b \<Rightarrow> 'b"
  mb_auth :: "str \<Rightarrow> u8 list \<Rightarrow> 'b \<Rightarrow> ('b, 'ce) result"
  mb_session_new :: "'b \<Rightarrow> 's"

record ('s, 'io, 'p, 'r, 'e) minimq_ops =
  mq_connect :: "'io \<Rightarrow> 's \<Rightarrow> (unit, ('p, 'r, 'e) minimq_error) result \<times> 's"
  mq_connect_event :: "'s \<Rightarrow> connect_event"
  mq_is_connected :: "'s \<Rightarrow> bool"
  mq_publish :: "str \<Rightarrow> u8 list \<Rightarrow> minimq_qos \<Rightarrow> 's \<Rightarrow> (unit, ('p, 'r, 'e) pub_error) result \<times> 's"
  mq_subscribe :: "str \<Rightarrow> minimq_qos \<Rightarrow> 's \<Rightarrow> (unit, ('p, 'r, 'e) minimq_error) result \<times> 's"
  mq_unsubscribe :: "str \<Rightarrow> 's \<Rightarrow> (unit, ('p, 'r, 'e) minimq_error) result \<times> 's"
  mq_drive :: "'s \<Rightarrow> (minimq_publish option, ('p, 'r, 'e) minimq_error) result \<times> 's"
  mq_recv :: "'s \<Rightarrow> (minimq_publish, ('p, 'r, 'e) minimq_error) result \<times> 's"
  mq_disconnect :: "'s \<Rightarrow> (unit, ('p, 'r, 'e) minimq_error) result \<times> 's"
  mq_invalid_packet :: 'p

subsection \<open>The client\<close>

record 's client =
  cl_session :: 's
  cl_snapshot :: mqtt_snapshot

definition client_new ::
  "('b, 's, 'ce) minimq_builder \<Rightarrow> mqtt_config \<Rightarrow> u8 list \<Rightarrow> u8 list \<Rightarrow> transport_security
   \<Rightarrow> credentials option \<Rightarrow> ('s client, 'ce adapter_config_error) result" where
  "client_new mb config rx tx security creds =
     (if rx = [] \<or> tx = [] then Err EmptyBuffer
      else let required = unat (mc_maximum_packet_size config)
        in if length rx < required then Err (RxBufferTooSmall required (length rx))
        else if security = PlaintextFixture \<and> creds \<noteq> None then Err CredentialsRequireEncryption
        else case map_err AcBackend
                    (mb_client_id mb (text_as_str (mc_client_id config)) (mb_buffers mb rx tx)) of
               Inl e \<Rightarrow> Err e
             | Inr b \<Rightarrow>
                 let builder = mb_session_expiry mb (mc_session_expiry_seconds config)
                                 (mb_keepalive mb (mc_keep_alive_seconds config) b)
                 in case (case creds of
                            None \<Rightarrow> Ok builder
                          | Some c \<Rightarrow>
                              map_err AcBackend (mb_auth mb (cr_username c) (cr_password c) builder)) of
                      Inl e \<Rightarrow> Err e
                    | Inr builder' \<Rightarrow>
                        Ok \<lparr>cl_session = mb_session_new mb builder', cl_snapshot = snapshot_default\<rparr>)"

definition client_transition :: "connection_state \<Rightarrow> 's client \<Rightarrow> 's client" where
  "client_transition st c = c\<lparr>cl_snapshot := transition st (cl_snapshot c)\<rparr>"

definition record_external_failure :: "mqtt_error_kind \<Rightarrow> 's client \<Rightarrow> 's client" where
  "record_external_failure k c = c\<lparr>cl_snapshot := record_failure k (cl_snapshot c)\<rparr>"

definition client_connect ::
  "('s, 'io, 'p, 'r, 'e) minimq_ops \<Rightarrow> 'io \<Rightarrow> 's client
   \<Rightarrow> (unit, ('p, 'r, 'e) mqtt_error) result \<times> 's client" where
  "client_connect mm io c =
     (let snapshot = transition ConnectingSession (cl_snapshot c)
      in case mq_connect mm io (cl_session c) of
           (Inr _, s) \<Rightarrow>
             (Ok (), \<lparr>cl_session = s,
                cl_snapshot = (case mq_connect_event mm s of
                   EvConnected \<Rightarrow> record_connected snapshot
                 | EvReconnected \<Rightarrow> record_resumed snapshot)\<rparr>)
         | (Inl e, s) \<Rightarrow>
             (let error = mqtt_error_from e
              in (Err error, \<lparr>cl_session = s,
                    cl_snapshot = record_failure (client_error_kind error) snapshot\<rparr>)))"

subsection \<open>The connection\<close>

definition is_observed :: "mqtt_error_kind \<Rightarrow> bool" where
  "is_observed k \<longleftrightarrow> k \<in> {Transport, Protocol, Disconnected}"

definition observe_error :: "('p, 'r, 'e) mqtt_error \<Rightarrow> mqtt_snapshot \<Rightarrow> mqtt_snapshot" where
  "observe_error e s =
     (if is_observed (client_error_kind e) then record_failure (client_error_kind e) s else s)"

definition resumed :: "('s, 'io, 'p, 'r, 'e) minimq_ops \<Rightarrow> 's client \<Rightarrow> bool" where
  "resumed mm c \<longleftrightarrow> mq_connect_event mm (cl_session c) = EvReconnected"

definition client_queue_drops :: "u32 \<Rightarrow> 's client \<Rightarrow> 's client" where
  "client_queue_drops n c = c\<lparr>cl_snapshot := record_queue_drops n (cl_snapshot c)\<rparr>"

definition client_publish ::
  "('s, 'io, 'p, 'r, 'e) minimq_ops \<Rightarrow> bounded_text \<Rightarrow> u8 list \<Rightarrow> qos \<Rightarrow> 's client
   \<Rightarrow> (unit, ('p, 'r, 'e) mqtt_error) result \<times> 's client" where
  "client_publish mm topic payload q c =
     (case mq_publish mm (text_as_str topic) payload (to_minimq_qos q) (cl_session c) of
        (Inr _, s) \<Rightarrow> (Ok (), \<lparr>cl_session = s, cl_snapshot = record_publish (cl_snapshot c)\<rparr>)
      | (Inl (PubSession e), s) \<Rightarrow>
          (Err (mqtt_error_from e),
           \<lparr>cl_session = s, cl_snapshot = observe_error (mqtt_error_from e) (cl_snapshot c)\<rparr>)
      | (Inl PubPayload, s) \<Rightarrow> (Err CePayloadTooLarge, c\<lparr>cl_session := s\<rparr>))"

text \<open>
  The shape subscribe and unsubscribe share: the backend's result, with the error
  converted and observed.
\<close>

definition observed_call ::
  "('s \<Rightarrow> (unit, ('p, 'r, 'e) minimq_error) result \<times> 's) \<Rightarrow> 's client
   \<Rightarrow> (unit, ('p, 'r, 'e) mqtt_error) result \<times> 's client" where
  "observed_call call c =
     (case call (cl_session c) of
        (Inr _, s) \<Rightarrow> (Ok (), c\<lparr>cl_session := s\<rparr>)
      | (Inl e, s) \<Rightarrow>
          (Err (mqtt_error_from e),
           \<lparr>cl_session = s, cl_snapshot = observe_error (mqtt_error_from e) (cl_snapshot c)\<rparr>))"

definition client_subscribe ::
  "('s, 'io, 'p, 'r, 'e) minimq_ops \<Rightarrow> bounded_text \<Rightarrow> qos \<Rightarrow> 's client
   \<Rightarrow> (unit, ('p, 'r, 'e) mqtt_error) result \<times> 's client" where
  "client_subscribe mm topic_filter q =
     observed_call (mq_subscribe mm (text_as_str topic_filter) (to_minimq_qos q))"

definition client_unsubscribe ::
  "('s, 'io, 'p, 'r, 'e) minimq_ops \<Rightarrow> bounded_text \<Rightarrow> 's client
   \<Rightarrow> (unit, ('p, 'r, 'e) mqtt_error) result \<times> 's client" where
  "client_unsubscribe mm topic_filter = observed_call (mq_unsubscribe mm (text_as_str topic_filter))"

text \<open>What both receiving operations do with a message of the backend.\<close>

definition deliver ::
  "('s, 'io, 'p, 'r, 'e) minimq_ops \<Rightarrow> minimq_publish \<Rightarrow> 's client
   \<Rightarrow> (inbound_publish, ('p, 'r, 'e) mqtt_error) result \<times> 's client" where
  "deliver mm m c =
     (case from_minimq_publish m of
        None \<Rightarrow>
          (let error = CePeer (mq_invalid_packet mm)
           in (Err error, c\<lparr>cl_snapshot := observe_error error (cl_snapshot c)\<rparr>))
      | Some message \<Rightarrow> (Ok message, c\<lparr>cl_snapshot := record_receive (cl_snapshot c)\<rparr>))"

definition client_drive ::
  "('s, 'io, 'p, 'r, 'e) minimq_ops \<Rightarrow> 's client
   \<Rightarrow> (inbound_publish option, ('p, 'r, 'e) mqtt_error) result \<times> 's client" where
  "client_drive mm c =
     (case mq_drive mm (cl_session c) of
        (Inr (Some m), s) \<Rightarrow>
          (case deliver mm m (c\<lparr>cl_session := s\<rparr>) of
             (Inl e, c') \<Rightarrow> (Err e, c')
           | (Inr message, c') \<Rightarrow> (Ok (Some message), c'))
      | (Inr None, s) \<Rightarrow> (Ok None, c\<lparr>cl_session := s\<rparr>)
      | (Inl e, s) \<Rightarrow>
          (let error = mqtt_error_from e
           in (Err error, \<lparr>cl_session = s, cl_snapshot = observe_error error (cl_snapshot c)\<rparr>)))"

definition client_receive ::
  "('s, 'io, 'p, 'r, 'e) minimq_ops \<Rightarrow> 's client
   \<Rightarrow> (inbound_publish, ('p, 'r, 'e) mqtt_error) result \<times> 's client" where
  "client_receive mm c =
     (case mq_recv mm (cl_session c) of
        (Inr m, s) \<Rightarrow> deliver mm m (c\<lparr>cl_session := s\<rparr>)
      | (Inl e, s) \<Rightarrow>
          (let error = mqtt_error_from e
           in (Err error, \<lparr>cl_session = s, cl_snapshot = observe_error error (cl_snapshot c)\<rparr>)))"

definition client_disconnect ::
  "('s, 'io, 'p, 'r, 'e) minimq_ops \<Rightarrow> 's client
   \<Rightarrow> (unit, ('p, 'r, 'e) mqtt_error) result \<times> 's client" where
  "client_disconnect mm c =
     (case mq_disconnect mm (cl_session c) of
        (Inr _, s) \<Rightarrow>
          (Ok (), \<lparr>cl_session = s, cl_snapshot = transition WaitingForNetwork (cl_snapshot c)\<rparr>)
      | (Inl e, s) \<Rightarrow>
          (Err (mqtt_error_from e),
           \<lparr>cl_session = s, cl_snapshot = observe_error (mqtt_error_from e) (cl_snapshot c)\<rparr>))"

subsection \<open>Histories\<close>

text \<open>The calls on a client as data, and their effect on it.\<close>

datatype 'io client_call =
  CallTransition connection_state | CallExternalFailure mqtt_error_kind | CallConnect 'io
| CallQueueDrops u32 | CallPublish bounded_text "u8 list" qos | CallSubscribe bounded_text qos
| CallUnsubscribe bounded_text | CallDrive | CallReceive | CallDisconnect

fun client_step :: "('s, 'io, 'p, 'r, 'e) minimq_ops \<Rightarrow> 'io client_call \<Rightarrow> 's client \<Rightarrow> 's client" where
  "client_step mm (CallTransition st) c = client_transition st c"
| "client_step mm (CallExternalFailure k) c = record_external_failure k c"
| "client_step mm (CallConnect io) c = snd (client_connect mm io c)"
| "client_step mm (CallQueueDrops n) c = client_queue_drops n c"
| "client_step mm (CallPublish t p q) c = snd (client_publish mm t p q c)"
| "client_step mm (CallSubscribe f q) c = snd (client_subscribe mm f q c)"
| "client_step mm (CallUnsubscribe f) c = snd (client_unsubscribe mm f c)"
| "client_step mm CallDrive c = snd (client_drive mm c)"
| "client_step mm CallReceive c = snd (client_receive mm c)"
| "client_step mm CallDisconnect c = snd (client_disconnect mm c)"

text \<open>
  What a snapshot of the client promises: a live session is only reported when one was
  established and no failure has been observed since, and an error only after a failure.
\<close>

definition is_live :: "connection_state \<Rightarrow> bool" where
  "is_live st \<longleftrightarrow> st = MqConnected \<or> st = MqResumed"

definition snapshot_wf :: "mqtt_snapshot \<Rightarrow> bool" where
  "snapshot_wf s \<longleftrightarrow>
     (is_live (sn_state s) \<longrightarrow>
        sn_last_error s = None \<and> (0 < sn_connections s \<or> 0 < sn_resumptions s))
     \<and> (sn_last_error s \<noteq> None \<longrightarrow> 0 < sn_failures s)
     \<and> (sn_state s = BackingOff \<longrightarrow> sn_last_error s \<noteq> None)"

text \<open>
  The transitions the client's user may report: the states of the layers it composes, which
  are neither a live session nor a back-off.
\<close>

fun legal_call :: "'io client_call \<Rightarrow> bool" where
  "legal_call (CallTransition st) \<longleftrightarrow> \<not> is_live st \<and> st \<noteq> BackingOff"
| "legal_call _ \<longleftrightarrow> True"

text \<open>
  A backend for evaluations: the session is the number of calls it has seen; it connects
  fresh first and resumed later, refuses payloads over four bytes, and delivers the given
  message.
\<close>

definition sample_minimq :: "minimq_publish \<Rightarrow> (nat, unit, unit, unit, unit) minimq_ops" where
  "sample_minimq m =
     \<lparr>mq_connect = \<lambda>io s. (Ok (), Suc s),
      mq_connect_event = \<lambda>s. (if s \<le> 1 then EvConnected else EvReconnected),
      mq_is_connected = \<lambda>s. True,
      mq_publish = \<lambda>t p q s. (if length p > 4 then Err PubPayload else Ok (), Suc s),
      mq_subscribe = \<lambda>f q s. (Ok (), Suc s),
      mq_unsubscribe = \<lambda>f s. (Err MmDisconnected, Suc s),
      mq_drive = \<lambda>s. (Ok (Some m), Suc s),
      mq_recv = \<lambda>s. (Ok m, Suc s),
      mq_disconnect = \<lambda>s. (Ok (), Suc s),
      mq_invalid_packet = ()\<rparr>"

definition sample_builder :: "(str option, nat, unit) minimq_builder" where
  "sample_builder =
     \<lparr>mb_buffers = \<lambda>rx tx. None, mb_client_id = \<lambda>i b. Ok b, mb_keepalive = \<lambda>k b. b,
      mb_session_expiry = \<lambda>x b. b, mb_auth = \<lambda>u p b. Ok (Some u), mb_session_new = \<lambda>b. 0\<rparr>"

definition sample_config :: mqtt_config where
  "sample_config =
     \<lparr>mc_hostname = \<lparr>txt_bytes = [97], txt_len = 1\<rparr>, mc_port = BrokerPort 1883,
      mc_client_id = \<lparr>txt_bytes = [98], txt_len = 1\<rparr>, mc_keep_alive_seconds = 30,
      mc_session_expiry_seconds = 60, mc_maximum_packet_size = 2\<rparr>"

section \<open>Interface: operations whose errors are observed\<close>

text \<open>
  Every operation of a connection has the same contract towards the snapshot: an error is
  recorded as a failure exactly when it concerns the transport, the protocol or the
  connection and otherwise leaves the snapshot alone, and a success changes neither the
  failure count nor the last error and never makes a session appear live.
\<close>

locale observed_operation =
  fixes run :: "'s client \<Rightarrow> ('a, ('p, 'r, 'e) mqtt_error) result \<times> 's client"
  assumes run_err: "run c = (Inl e, c') \<Longrightarrow> cl_snapshot c' = observe_error e (cl_snapshot c)"
    and run_ok: "run c = (Inr a, c') \<Longrightarrow>
      sn_failures (cl_snapshot c') = sn_failures (cl_snapshot c)
      \<and> sn_last_error (cl_snapshot c') = sn_last_error (cl_snapshot c)
      \<and> sn_connections (cl_snapshot c') = sn_connections (cl_snapshot c)
      \<and> sn_resumptions (cl_snapshot c') = sn_resumptions (cl_snapshot c)
      \<and> sn_queue_drops (cl_snapshot c') = sn_queue_drops (cl_snapshot c)
      \<and> (sn_state (cl_snapshot c') = sn_state (cl_snapshot c)
         \<or> sn_state (cl_snapshot c') = WaitingForNetwork)"
begin

lemma err_backs_off:
  "\<lbrakk>run c = (Inl e, c'); is_observed (client_error_kind e)\<rbrakk> \<Longrightarrow>
     sn_state (cl_snapshot c') = BackingOff
     \<and> sn_last_error (cl_snapshot c') = Some (client_error_kind e)
     \<and> sn_failures (cl_snapshot c') = saturating_add (sn_failures (cl_snapshot c)) 1"
  using run_err [of c e c'] by (simp add: observe_error_def record_failure_def)

lemma local_err_silent:
  "\<lbrakk>run c = (Inl e, c'); \<not> is_observed (client_error_kind e)\<rbrakk> \<Longrightarrow> cl_snapshot c' = cl_snapshot c"
  using run_err [of c e c'] by (simp add: observe_error_def)

lemma keeps_queue_drops:
  "sn_queue_drops (cl_snapshot (snd (run c))) = sn_queue_drops (cl_snapshot c)"
  using run_err [of c] run_ok [of c]
  by (cases "run c"; cases "fst (run c)") (auto simp: observe_error_def record_failure_def)

lemma keeps_wf: "snapshot_wf (cl_snapshot c) \<Longrightarrow> snapshot_wf (cl_snapshot (snd (run c)))"
proof (cases "run c")
  case (Pair r c')
  assume wf: "snapshot_wf (cl_snapshot c)"
  show ?thesis
  proof (cases r)
    case (Inl e)
    with run_err Pair wf show ?thesis
      by (auto simp: observe_error_def record_failure_def snapshot_wf_def is_live_def
          word_less_nat_alt rust_int)
  next
    case (Inr a)
    with run_ok [of c a c'] Pair wf show ?thesis
      by (auto simp: snapshot_wf_def is_live_def)
  qed
qed

end

section \<open>Lemmas\<close>

lemma from_to_qos [simp]: "from_minimq_qos (to_minimq_qos q) = Some q"
  by (cases q) simp_all

lemma from_minimq_publish_Some:
  "from_minimq_publish m = Some i \<longleftrightarrow>
     mm_qos m = to_minimq_qos (in_qos i) \<and> in_topic i = mm_topic m
     \<and> in_payload i = mm_payload m \<and> in_retained i = mm_retained m"
  by (cases "mm_qos m"; cases "in_qos i"; cases i) (auto simp: from_minimq_publish_def)

lemma from_minimq_publish_None: "from_minimq_publish m = None \<longleftrightarrow> mm_qos m = MmExactlyOnce"
  by (cases "mm_qos m") (simp_all add: from_minimq_publish_def)

lemma payload_error_unobserved [simp]: "observe_error CePayloadTooLarge s = s"
  by (simp add: observe_error_def is_observed_def)

lemmas client_defs = client_publish_def observed_call_def deliver_def client_drive_def
  client_receive_def client_disconnect_def Let_def

interpretation publish_op: observed_operation "client_publish mm topic payload q"
  for mm topic payload q
  by unfold_locales
    (auto simp: client_defs record_publish_def split: prod.splits sum.splits pub_error.splits)

lemma observed_call_op: "observed_operation (observed_call call)"
  by unfold_locales (auto simp: client_defs split: prod.splits sum.splits)

interpretation subscribe_op: observed_operation "client_subscribe mm topic_filter q" for mm topic_filter q
  unfolding client_subscribe_def by (rule observed_call_op)

interpretation unsubscribe_op: observed_operation "client_unsubscribe mm topic_filter" for mm topic_filter
  unfolding client_unsubscribe_def by (rule observed_call_op)

interpretation drive_op: observed_operation "client_drive mm" for mm
  by unfold_locales
    (auto simp: client_defs record_receive_def split: prod.splits sum.splits option.splits)

interpretation receive_op: observed_operation "client_receive mm" for mm
  by unfold_locales
    (auto simp: client_defs record_receive_def split: prod.splits sum.splits option.splits)

interpretation disconnect_op: observed_operation "client_disconnect mm" for mm
  by unfold_locales
    (auto simp: client_defs transition_def split: prod.splits sum.splits)

lemma counted_positive: "0 < saturating_add (w :: u32) 1"
  by (simp add: word_less_nat_alt rust_int)

lemma client_connect_cases:
  obtains (fresh) s where "mq_connect mm io (cl_session c) = (Inr (), s)"
      "client_connect mm io c = (Inr (), \<lparr>cl_session = s,
         cl_snapshot = record_connected (transition ConnectingSession (cl_snapshot c))\<rparr>)"
      "mq_connect_event mm s = EvConnected"
  | (again) s where "mq_connect mm io (cl_session c) = (Inr (), s)"
      "client_connect mm io c = (Inr (), \<lparr>cl_session = s,
         cl_snapshot = record_resumed (transition ConnectingSession (cl_snapshot c))\<rparr>)"
      "mq_connect_event mm s = EvReconnected"
  | (failed) e s where "mq_connect mm io (cl_session c) = (Inl e, s)"
      "client_connect mm io c = (Inl (mqtt_error_from e), \<lparr>cl_session = s,
         cl_snapshot = record_failure (client_error_kind (mqtt_error_from e))
           (transition ConnectingSession (cl_snapshot c))\<rparr>)"
proof -
  obtain r s where call: "mq_connect mm io (cl_session c) = (r, s)"
    by fastforce
  show ?thesis
  proof (cases r)
    case (Inl e)
    with call show ?thesis by (intro failed) (auto simp: client_connect_def Let_def)
  next
    case (Inr u)
    show ?thesis
    proof (cases "mq_connect_event mm s")
      case EvConnected
      with call Inr show ?thesis by (intro fresh) (auto simp: client_connect_def Let_def)
    next
      case EvReconnected
      with call Inr show ?thesis by (intro again) (auto simp: client_connect_def Let_def)
    qed
  qed
qed

lemma connect_keeps_wf: "snapshot_wf (cl_snapshot (snd (client_connect mm io c)))"
  by (rule client_connect_cases [where mm = mm and io = io and c = c])
    (auto simp: snapshot_wf_def is_live_def record_connected_def record_resumed_def
      record_failure_def transition_def counted_positive)

lemma connect_ok:
  assumes "client_connect mm io c = (Inr u, c')"
  shows "sn_state (cl_snapshot c') = (if resumed mm c' then MqResumed else MqConnected)
    \<and> sn_last_error (cl_snapshot c') = None"
  by (rule client_connect_cases [where mm = mm and io = io and c = c])
    (use assms in \<open>auto simp: resumed_def record_connected_def record_resumed_def\<close>)

lemma connect_err:
  assumes "client_connect mm io c = (Inl e, c')"
  shows "sn_state (cl_snapshot c') = BackingOff
    \<and> sn_last_error (cl_snapshot c') = Some (client_error_kind e)"
  by (rule client_connect_cases [where mm = mm and io = io and c = c])
    (use assms in \<open>auto simp: record_failure_def\<close>)

lemma client_step_wf:
  assumes "snapshot_wf (cl_snapshot c)" and "legal_call x"
  shows "snapshot_wf (cl_snapshot (client_step mm x c))"
proof (cases x)
  case (CallTransition st)
  with assms show ?thesis
    by (auto simp: client_transition_def transition_def snapshot_wf_def)
next
  case (CallExternalFailure k)
  then show ?thesis
    by (auto simp: record_external_failure_def record_failure_def snapshot_wf_def is_live_def
        counted_positive)
next
  case (CallQueueDrops n)
  with assms show ?thesis
    by (simp add: client_queue_drops_def record_queue_drops_def snapshot_wf_def)
qed (simp_all add: assms connect_keeps_wf publish_op.keeps_wf subscribe_op.keeps_wf
    unsubscribe_op.keeps_wf drive_op.keeps_wf receive_op.keeps_wf disconnect_op.keeps_wf)

lemma client_steps_wf:
  "\<lbrakk>snapshot_wf (cl_snapshot c); list_all legal_call xs\<rbrakk> \<Longrightarrow>
     snapshot_wf (cl_snapshot (fold (client_step mm) xs c))"
  by (induction xs arbitrary: c) (simp_all add: client_step_wf)

lemma snapshot_default_wf: "snapshot_wf snapshot_default"
  by (simp add: snapshot_wf_def snapshot_default_def is_live_def)

lemma client_new_ok:
  assumes "client_new mb config rx tx security creds = Inr c"
  shows "tx \<noteq> []" "unat (mc_maximum_packet_size config) \<le> length rx" "rx \<noteq> []"
    "security = PlaintextFixture \<Longrightarrow> creds = None" "cl_snapshot c = snapshot_default"
  using assms by (auto simp: client_new_def Let_def split: if_splits sum.splits option.splits)

section \<open>Properties\<close>

text \<open>
  Credentials never travel in the clear: a client over the plaintext fixture is refused
  when credentials are given, and the result of building one does not depend on the backend's
  authentication call at all; a client is only built with buffers that hold the configured
  packet size, and starts with an empty snapshot.
\<close>

lemma credentials_require_encryption:
  "client_new (mb\<lparr>mb_auth := f\<rparr>) config rx tx PlaintextFixture creds
     = client_new mb config rx tx PlaintextFixture creds
   \<and> \<not> is_ok (client_new mb config rx tx PlaintextFixture (Some cr))
   \<and> (client_new mb config rx tx security creds = Inr c \<longrightarrow>
        tx \<noteq> [] \<and> max 1 (unat (mc_maximum_packet_size config)) \<le> length rx
        \<and> (security = PlaintextFixture \<longrightarrow> creds = None) \<and> cl_snapshot c = snapshot_default)"
proof (intro conjI impI)
  show "client_new (mb\<lparr>mb_auth := f\<rparr>) config rx tx PlaintextFixture creds
      = client_new mb config rx tx PlaintextFixture creds"
    by (cases creds) (simp_all add: client_new_def Let_def split: sum.split)
  show "\<not> is_ok (client_new mb config rx tx PlaintextFixture (Some cr))"
    by (simp add: client_new_def Let_def)
  assume "client_new mb config rx tx security creds = Inr c"
  note ok = client_new_ok [OF this]
  show "tx \<noteq> []" "max 1 (unat (mc_maximum_packet_size config)) \<le> length rx"
    "cl_snapshot c = snapshot_default"
    using ok by (simp_all add: Suc_le_eq)
  show "creds = None" if "security = PlaintextFixture"
    using ok(4) that by simp
qed



text \<open>
  C18. Connecting and failing are recorded: a connect ends in a fresh or a resumed session as
  the backend reports, with the error cleared, or in a back-off with the error's category;
  a publish, subscribe, unsubscribe, drive, receive or disconnect that fails on the transport,
  the protocol or the connection is one more failure and a back-off, and any other failure
  leaves the snapshot as it was.
\<close>

theorem client_failures_recorded:
  "(client_connect mm io c = (Inr (), c') \<longrightarrow>
      sn_state (cl_snapshot c') = (if resumed mm c' then MqResumed else MqConnected)
      \<and> sn_last_error (cl_snapshot c') = None)
   \<and> (client_connect mm io c = (Inl e, c') \<longrightarrow>
      sn_state (cl_snapshot c') = BackingOff
      \<and> sn_last_error (cl_snapshot c') = Some (client_error_kind e))
   \<and> (client_publish mm t p q c = (Inl e, c') \<or> client_subscribe mm f q c = (Inl e, c')
      \<or> client_unsubscribe mm f c = (Inl e, c') \<or> client_drive mm c = (Inl e, c')
      \<or> client_receive mm c = (Inl e, c') \<or> client_disconnect mm c = (Inl e, c') \<longrightarrow>
      cl_snapshot c' =
        (if client_error_kind e \<in> {Transport, Protocol, Disconnected}
         then record_failure (client_error_kind e) (cl_snapshot c) else cl_snapshot c))"
proof (intro conjI impI)
  assume "client_connect mm io c = (Inr (), c')"
  from connect_ok [OF this]
  show "sn_state (cl_snapshot c') = (if resumed mm c' then MqResumed else MqConnected)"
    "sn_last_error (cl_snapshot c') = None"
    by blast+
next
  assume "client_connect mm io c = (Inl e, c')"
  from connect_err [OF this]
  show "sn_state (cl_snapshot c') = BackingOff"
    "sn_last_error (cl_snapshot c') = Some (client_error_kind e)"
    by blast+
next
  assume "client_publish mm t p q c = (Inl e, c') \<or> client_subscribe mm f q c = (Inl e, c')
      \<or> client_unsubscribe mm f c = (Inl e, c') \<or> client_drive mm c = (Inl e, c')
      \<or> client_receive mm c = (Inl e, c') \<or> client_disconnect mm c = (Inl e, c')"
  then have "cl_snapshot c' = observe_error e (cl_snapshot c)"
    by (elim disjE) (erule publish_op.run_err subscribe_op.run_err unsubscribe_op.run_err
        drive_op.run_err receive_op.run_err disconnect_op.run_err)+
  then show "cl_snapshot c' =
        (if client_error_kind e \<in> {Transport, Protocol, Disconnected}
         then record_failure (client_error_kind e) (cl_snapshot c) else cl_snapshot c)"
    by (simp add: observe_error_def is_observed_def)
qed

theorem client_failures_recorded_witness:
  "cl_snapshot (snd (client_unsubscribe (sample_minimq
      \<lparr>mm_topic = [], mm_payload = [], mm_qos = MmAtMostOnce, mm_retained = False\<rparr>)
      \<lparr>txt_bytes = [97], txt_len = 1\<rparr> \<lparr>cl_session = 0, cl_snapshot = snapshot_default\<rparr>))
    = record_failure Disconnected snapshot_default"
proof -
  let ?m = "\<lparr>mm_topic = [], mm_payload = [], mm_qos = MmAtMostOnce, mm_retained = False\<rparr> :: minimq_publish"
  let ?c = "\<lparr>cl_session = 0, cl_snapshot = snapshot_default\<rparr> :: nat client"
  let ?t = "\<lparr>txt_bytes = [97], txt_len = 1\<rparr> :: bounded_text"
  obtain c' where run: "client_unsubscribe (sample_minimq ?m) ?t ?c = (Inl CeDisconnected, c')"
    by (simp add: client_unsubscribe_def observed_call_def sample_minimq_def)
  then show ?thesis
    using client_failures_recorded [of "sample_minimq ?m" "()" ?c c' CeDisconnected ?t "[]" AtMostOnce ?t]
    by simp
qed



end
