(* ===== verification/Esp_Wifi.thy ===== *)
theory Esp_Wifi
  imports Wifi
begin

text \<open>
  \<open>ports/espressif/esp32c6/src/wifi.rs\<close>: the adapter from the Espressif radio driver to
  the portable Wi-Fi contract. The driver is third-party code; what it answers to a call is
  an argument of the definition that makes the call. The adapter's own state is the
  lifecycle state it reports.
\<close>

section \<open>Definitions\<close>

datatype 'e esp_wifi_error =
  NonUtf8StationSsid | InvalidDiscoveredSsid | UnsupportedAuthentication | Driver 'e

fun esp_wifi_error_display :: "('e \<Rightarrow> str) \<Rightarrow> 'e esp_wifi_error \<Rightarrow> str" where
  "esp_wifi_error_display debug NonUtf8StationSsid =
     lit ''ESP station configuration requires a UTF-8 SSID''"
| "esp_wifi_error_display debug InvalidDiscoveredSsid =
     lit ''ESP driver returned an invalid discovered SSID''"
| "esp_wifi_error_display debug UnsupportedAuthentication =
     lit ''unsupported Wi-Fi authentication mode''"
| "esp_wifi_error_display debug (Driver e) = lit ''ESP Wi-Fi driver error: '' @ debug e"

text \<open>
  The driver's authentication methods the adapter names; \<open>AmOther\<close> stands for the values
  its wildcard arm covers.
\<close>

datatype auth_method =
  AmNone | AmWep | AmWpa | AmWpaWpa2Personal | AmWpa2Personal | AmWpa3Personal
| AmWpa2Wpa3Personal | AmWpa2Enterprise | AmOther

text \<open>
  The wildcard arm of \<open>map_authentication\<close>, which returns \<open>UnsupportedAuthentication\<close>,
  is for modes a later version of the contract may add.
\<close>

fun map_authentication :: "authentication \<Rightarrow> (auth_method, 'e esp_wifi_error) result" where
  "map_authentication Open = Ok AmNone"
| "map_authentication Wpa2Personal = Ok AmWpa2Personal"
| "map_authentication Wpa3Personal = Ok AmWpa3Personal"
| "map_authentication Wpa2Wpa3Personal = Ok AmWpa2Wpa3Personal"

fun map_security :: "auth_method option \<Rightarrow> security" where
  "map_security None = SecOpen"
| "map_security (Some AmNone) = SecOpen"
| "map_security (Some AmWep) = SecWep"
| "map_security (Some AmWpa) = SecWpa"
| "map_security (Some AmWpaWpa2Personal) = SecWpa"
| "map_security (Some AmWpa2Personal) = SecWpa2Personal"
| "map_security (Some AmWpa3Personal) = SecWpa3Personal"
| "map_security (Some AmWpa2Wpa3Personal) = SecWpa3Personal"
| "map_security (Some AmWpa2Enterprise) = SecEnterprise"
| "map_security (Some AmOther) = SecUnknown"

text \<open>What the driver reports of an access point it found, and of the one it joined.\<close>

record discovered =
  di_ssid :: str
  di_bssid :: "u8 list"
  di_channel :: u8
  di_signal_strength :: i8
  di_auth_method :: "auth_method option"

record joined =
  jo_ssid :: str
  jo_bssid :: "u8 list"
  jo_channel :: u8
  jo_authmode :: auth_method

text \<open>The driver's station configuration as the adapter fills it in.\<close>

record esp_station_config =
  es_ssid :: str
  es_auth_method :: auth_method
  es_password :: "str option"

text \<open>The adapter: driver handle, packet interfaces, lifecycle state.\<close>

record ('c, 'i) esp32c6_wifi =
  ew_controller :: 'c
  ew_station :: 'i
  ew_state :: wifi_state

record 'c station_controller =
  st_controller :: 'c
  st_state :: wifi_state

definition esp_wifi_new ::
  "('c \<times> 'i, 'e) result \<Rightarrow> (('c, 'i) esp32c6_wifi, 'e esp_wifi_error) result" where
  "esp_wifi_new answer =
     (case map_err Driver answer of
        Inl e \<Rightarrow> Err e
      | Inr (c, i) \<Rightarrow> Ok \<lparr>ew_controller = c, ew_station = i, ew_state = WsReady\<rparr>)"

text \<open>The loop that converts the driver's list, with the access points pushed so far.\<close>

fun convert_discovered ::
  "discovered list \<Rightarrow> access_point list \<Rightarrow> (access_point list, 'e esp_wifi_error) result" where
  "convert_discovered [] aps = Ok aps"
| "convert_discovered (d # ds) aps =
     (case map_err (\<lambda>_. InvalidDiscoveredSsid) (ssid_try_from (di_ssid d)) of
        Inl e \<Rightarrow> Err e
      | Inr s \<Rightarrow>
          convert_discovered ds (aps @
            [\<lparr>ap_ssid = s, ap_bssid = di_bssid d, ap_channel = di_channel d,
              ap_signal_strength_dbm = di_signal_strength d,
              ap_security = map_security (di_auth_method d)\<rparr>]))"

text \<open>
  \<open>scan\<close>: the driver is asked for at most \<open>maximum_results\<close> access points
  (\<open>scan_async\<close> is its answer). The early return out of the loop leaves the state
  as it was set at the start.
\<close>

definition esp_scan ::
  "(nat \<Rightarrow> (discovered list, 'e) result) \<Rightarrow> nat \<Rightarrow> ('c, 'i) esp32c6_wifi
   \<Rightarrow> (access_point list, 'e esp_wifi_error) result \<times> ('c, 'i) esp32c6_wifi" where
  "esp_scan scan_async maximum_results w =
     (let w1 = w\<lparr>ew_state := WsScanning\<rparr>
      in case scan_async maximum_results of
           Inr discovered \<Rightarrow>
             (case convert_discovered discovered [] of
                Inl e \<Rightarrow> (Err e, w1)
              | Inr access_points \<Rightarrow> (Ok access_points, w1\<lparr>ew_state := WsReady\<rparr>))
         | Inl e \<Rightarrow> (Err (Driver e), w1\<lparr>ew_state := WsFailed\<rparr>))"

definition configure_station ::
  "(esp_station_config \<Rightarrow> 'c \<Rightarrow> (unit, 'e) result \<times> 'c) \<Rightarrow> station_config \<Rightarrow> ('c, 'i) esp32c6_wifi
   \<Rightarrow> (unit, 'e esp_wifi_error) result \<times> ('c, 'i) esp32c6_wifi" where
  "configure_station set_config station w =
     (case ok_or NonUtf8StationSsid (ssid_as_str (sc_ssid station)) of
        Inl e \<Rightarrow> (Err e, w)
      | Inr s \<Rightarrow>
          (case map_authentication (sc_authentication station) of
             Inl e \<Rightarrow> (Err e, w)
           | Inr method \<Rightarrow>
               let config = \<lparr>es_ssid = s, es_auth_method = method,
                             es_password = map_option passphrase_as_str (sc_passphrase station)\<rparr>
               in case set_config config (ew_controller w) of
                    (Inl e, c) \<Rightarrow> (Err (Driver e), w\<lparr>ew_controller := c\<rparr>)
                  | (Inr _, c) \<Rightarrow> (Ok (), w\<lparr>ew_controller := c, ew_state := WsReady\<rparr>)))"

definition into_station_parts :: "('c, 'i) esp32c6_wifi \<Rightarrow> 'c station_controller \<times> 'i" where
  "into_station_parts w =
     (\<lparr>st_controller = ew_controller w, st_state = ew_state w\<rparr>, ew_station w)"

text \<open>\<open>connect\<close>, with the driver's answer to \<open>connect_async\<close>.\<close>

definition esp_connect ::
  "(joined, 'e) result \<Rightarrow> 'c station_controller
   \<Rightarrow> (connected_station, 'e esp_wifi_error) result \<times> 'c station_controller" where
  "esp_connect answer w =
     (let w1 = w\<lparr>st_state := WsConnecting\<rparr>
      in case answer of
           Inr connected \<Rightarrow>
             (let w2 = w1\<lparr>st_state := WsConnected\<rparr>
              in case map_err (\<lambda>_. InvalidDiscoveredSsid) (ssid_try_from (jo_ssid connected)) of
                   Inl e \<Rightarrow> (Err e, w2)
                 | Inr s \<Rightarrow>
                     (Ok \<lparr>cs_ssid = s, cs_bssid = jo_bssid connected,
                          cs_channel = jo_channel connected,
                          cs_security = map_security (Some (jo_authmode connected))\<rparr>, w2))
         | Inl e \<Rightarrow> (Err (Driver e), w1\<lparr>st_state := WsFailed\<rparr>))"

definition wait_for_disconnect ::
  "(unit, 'e) result \<Rightarrow> 'c station_controller
   \<Rightarrow> (unit, 'e esp_wifi_error) result \<times> 'c station_controller" where
  "wait_for_disconnect answer w =
     (case answer of
        Inr _ \<Rightarrow> (Ok (), w\<lparr>st_state := WsDisconnected\<rparr>)
      | Inl e \<Rightarrow> (Err (Driver e), w\<lparr>st_state := WsDisconnected\<rparr>))"

text \<open>What a converted access point has of the discovered one.\<close>

definition converts :: "discovered \<Rightarrow> access_point \<Rightarrow> bool" where
  "converts d ap \<longleftrightarrow>
     ssid_as_bytes (ap_ssid ap) = di_ssid d \<and> ap_bssid ap = di_bssid d
     \<and> ap_channel ap = di_channel d \<and> ap_signal_strength_dbm ap = di_signal_strength d
     \<and> ap_security ap = map_security (di_auth_method d)"

section \<open>Lemmas\<close>

lemma ssid_try_from_ok: "is_ok (ssid_try_from v) \<longleftrightarrow> length v \<le> MAX_SSID_LEN"
  using ssid_store.new_accepts [of v] by (simp add: ssid_try_from_def)

lemma convert_discovered_ok:
  "(convert_discovered ds aps :: (access_point list, 'e esp_wifi_error) result) = Inr out \<Longrightarrow>
     \<exists>new. out = aps @ new \<and> list_all2 converts ds new
       \<and> (\<forall>d \<in> set ds. length (di_ssid d) \<le> MAX_SSID_LEN)"
proof (induction ds arbitrary: aps)
  case (Cons d ds)
  then obtain s where s: "ssid_new (di_ssid d) = Inr s"
    and rest: "convert_discovered ds (aps @ [\<lparr>ap_ssid = s, ap_bssid = di_bssid d,
        ap_channel = di_channel d, ap_signal_strength_dbm = di_signal_strength d,
        ap_security = map_security (di_auth_method d)\<rparr>])
      = (Inr out :: (access_point list, 'e esp_wifi_error) result)"
    by (auto simp: ssid_try_from_def split: sum.splits)
  from Cons.IH [OF rest] obtain new where "list_all2 converts ds new"
    "out = aps @ \<lparr>ap_ssid = s, ap_bssid = di_bssid d, ap_channel = di_channel d,
        ap_signal_strength_dbm = di_signal_strength d,
        ap_security = map_security (di_auth_method d)\<rparr> # new"
    "\<forall>d \<in> set ds. length (di_ssid d) \<le> MAX_SSID_LEN"
    by auto
  moreover have "converts d \<lparr>ap_ssid = s, ap_bssid = di_bssid d, ap_channel = di_channel d,
        ap_signal_strength_dbm = di_signal_strength d,
        ap_security = map_security (di_auth_method d)\<rparr>"
    using ssid_store [OF s] by (simp add: converts_def)
  ultimately show ?case
    using ssid_store(4) [OF s] by auto
qed simp

lemma convert_discovered_err:
  "convert_discovered ds aps = Inl e \<Longrightarrow>
     e = InvalidDiscoveredSsid \<and> (\<exists>d \<in> set ds. MAX_SSID_LEN < length (di_ssid d))"
proof (induction ds arbitrary: aps)
  case (Cons d ds)
  then show ?case
    using ssid_try_from_ok [of "di_ssid d"]
    by (cases "ssid_try_from (di_ssid d)") (auto simp: not_le)
qed simp

section \<open>Properties\<close>

text \<open>
  C32. A scan reports what the driver found: it succeeds exactly when the driver does and no
  discovered SSID exceeds 32 bytes, and then returns one access point per discovered one, in
  order and with all its fields; a success leaves the adapter ready and a driver error leaves
  it failed, but an SSID that is too long leaves it in the scanning state.
\<close>

theorem scan_faithful:
  fixes scan_async :: "nat \<Rightarrow> (discovered list, 'e) result"
  shows "(esp_scan scan_async n w = (Inr aps, w') \<longrightarrow>
      (\<exists>ds. scan_async n = Inr ds \<and> list_all2 converts ds aps) \<and> ew_state w' = WsReady)
   \<and> (esp_scan scan_async n w = (Inl (Driver e), w') \<longrightarrow> scan_async n = Inl e \<and> ew_state w' = WsFailed)
   \<and> (esp_scan scan_async n w = (Inl InvalidDiscoveredSsid, w') \<longrightarrow> ew_state w' = WsScanning)
   \<and> (is_ok (fst (esp_scan scan_async n w)) \<longleftrightarrow>
        (\<exists>ds. scan_async n = Inr ds \<and> (\<forall>d \<in> set ds. length (di_ssid d) \<le> 32)))"
proof (cases "scan_async n")
  case (Inl f)
  then show ?thesis by (auto simp: esp_scan_def)
next
  case (Inr ds)
  show ?thesis
  proof (cases "convert_discovered ds [] :: (access_point list, 'e esp_wifi_error) result")
    case err: (Inl f)
    with convert_discovered_err [OF err] Inr show ?thesis
      by (auto simp: esp_scan_def Let_def MAX_SSID_LEN_def not_le)
  next
    case ok: (Inr out)
    with convert_discovered_ok [OF ok] Inr show ?thesis
      by (auto simp: esp_scan_def Let_def MAX_SSID_LEN_def)
  qed
qed

theorem scan_faithful_witness:
  "ew_state (snd (esp_scan (\<lambda>_. Inr [\<lparr>di_ssid = replicate 33 97, di_bssid = [], di_channel = 1,
      di_signal_strength = 0, di_auth_method = None\<rparr>] :: (discovered list, unit) result) 20
      \<lparr>ew_controller = (), ew_station = (), ew_state = WsReady\<rparr>)) = WsScanning"
proof -
  let ?scan = "\<lambda>_. Inr [\<lparr>di_ssid = replicate 33 97, di_bssid = [], di_channel = 1,
      di_signal_strength = 0, di_auth_method = None\<rparr>] :: (discovered list, unit) result"
  let ?w = "\<lparr>ew_controller = (), ew_station = (), ew_state = WsReady\<rparr>"
  have "fst (esp_scan ?scan 20 ?w) = Inl InvalidDiscoveredSsid"
    by (simp add: esp_scan_def ssid_try_from_def ssid_new_def MAX_SSID_LEN_def)
  then obtain w' where "esp_scan ?scan 20 ?w = (Inl InvalidDiscoveredSsid, w')"
    by (metis prod.collapse)
  then show ?thesis
    using scan_faithful [of ?scan 20 ?w "[]" w' "()"] by simp
qed

text \<open>
  A station is configured with what the portable configuration says: the driver is given
  the SSID, the matching authentication method and the passphrase, exactly when the SSID is
  UTF-8, and the adapter reports ready only if the driver accepts; a password is handed over
  exactly when the method is not open.
\<close>

lemma station_configured:
  assumes "station_wf station" and "ssid_as_str (sc_ssid station) = Some s"
  shows "\<exists>config. es_ssid config = s
      \<and> es_password config = map_option passphrase_as_str (sc_passphrase station)
      \<and> (es_auth_method config = AmNone \<longleftrightarrow> es_password config = None)
      \<and> configure_station set_config station w =
          (case set_config config (ew_controller w) of
             (Inl e, c) \<Rightarrow> (Inl (Driver e), w\<lparr>ew_controller := c\<rparr>)
           | (Inr u, c) \<Rightarrow> (Inr (), w\<lparr>ew_controller := c, ew_state := WsReady\<rparr>))"
proof -
  obtain m where m: "map_authentication (sc_authentication station) = (Inr m :: (auth_method, 'a esp_wifi_error) result)"
    and none: "m = AmNone \<longleftrightarrow> sc_authentication station = Open"
    by (cases "sc_authentication station") auto
  let ?config = "\<lparr>es_ssid = s, es_auth_method = m,
      es_password = map_option passphrase_as_str (sc_passphrase station)\<rparr>"
  have "configure_station set_config station w =
      (case set_config ?config (ew_controller w) of
         (Inl e, c) \<Rightarrow> (Inl (Driver e), w\<lparr>ew_controller := c\<rparr>)
       | (Inr u, c) \<Rightarrow> (Inr (), w\<lparr>ew_controller := c, ew_state := WsReady\<rparr>))"
    using assms(2) m by (simp add: configure_station_def)
  moreover have "es_auth_method ?config = AmNone \<longleftrightarrow> es_password ?config = None"
    using assms(1) none by (simp add: station_wf_def)
  ultimately show ?thesis
    by (intro exI [of _ ?config]) simp
qed

end
