(* ===== verification/Beacon.thy ===== *)
theory Beacon
  imports Bluetooth Hardware
begin

text \<open>
  \<open>firmware/seeed/xiao-esp32c6-beacon\<close>: the settings of the iBeacon firmware from its
  build-time environment, the advertising data it builds, and its advertising loop. The
  environment variables are an argument, as is the encoder of advertising structures of
  the Bluetooth host crate, whose contract is the predicate \<open>ad_encoder\<close>.
\<close>

section \<open>Definitions\<close>

subsection \<open>Constants\<close>

definition DEFAULT_BEACON_UUID :: str where
  "DEFAULT_BEACON_UUID = lit ''7a1e1000-4c2a-4f66-a1d4-3f55b55a1000''"

definition DEFAULT_BEACON_MAJOR :: u16 where
  "DEFAULT_BEACON_MAJOR = 1"

definition DEFAULT_MEASURED_POWER_DBM :: i8 where
  "DEFAULT_MEASURED_POWER_DBM = - 59"

definition DEFAULT_RADIO_TX_POWER_DBM :: i8 where
  "DEFAULT_RADIO_TX_POWER_DBM = 9"

definition DEFAULT_ADVERTISING_INTERVAL_MS :: u16 where
  "DEFAULT_ADVERTISING_INTERVAL_MS = MIN_MILLIS"

definition BLUETOOTH_RECOVERY_RETRY_MS :: nat where
  "BLUETOOTH_RECOVERY_RETRY_MS = 100"

definition MAX_BEACON_NAME_LENGTH :: nat where
  "MAX_BEACON_NAME_LENGTH = 29"

definition GENERATED_BEACON_NAME_LENGTH :: nat where
  "GENERATED_BEACON_NAME_LENGTH = 11"

definition GENERATED_BEACON_NAME_PREFIX :: str where
  "GENERATED_BEACON_NAME_PREFIX = lit ''Beacon ''"

subsection \<open>Names\<close>

record beacon_name =
  bn_bytes :: "u8 list"
  bn_length :: u8

definition hexadecimal_digit :: "u8 \<Rightarrow> u8" where
  "hexadecimal_digit nibble = (if nibble \<le> 9 then 0x30 + nibble else 0x41 + nibble - 10)"

definition beacon_name_from_address :: "static_random_address \<Rightarrow> beacon_name" where
  "beacon_name_from_address a =
     (let address = sra_bytes a;
          bytes = copy_prefix (replicate MAX_BEACON_NAME_LENGTH 0) GENERATED_BEACON_NAME_PREFIX
      in \<lparr>bn_bytes = bytes
            [7 := hexadecimal_digit (drop_bit 4 (address ! 4)),
             8 := hexadecimal_digit (address ! 4 AND 0x0F),
             9 := hexadecimal_digit (drop_bit 4 (address ! 5)),
             10 := hexadecimal_digit (address ! 5 AND 0x0F)],
          bn_length = of_nat GENERATED_BEACON_NAME_LENGTH\<rparr>)"

definition beacon_name_from_str :: "str \<Rightarrow> beacon_name option" where
  "beacon_name_from_str name =
     (if name = [] \<or> length name > MAX_BEACON_NAME_LENGTH then None
      else Some \<lparr>bn_bytes = copy_prefix (replicate MAX_BEACON_NAME_LENGTH 0) name,
                 bn_length = of_nat (length name)\<rparr>)"

definition beacon_name_as_bytes :: "beacon_name \<Rightarrow> u8 list" where
  "beacon_name_as_bytes n = take (unat (bn_length n)) (bn_bytes n)"

definition beacon_name_as_str :: "beacon_name \<Rightarrow> str" where
  "beacon_name_as_str n = unwrap_or [] (from_utf8 (beacon_name_as_bytes n))"

subsection \<open>Settings\<close>

datatype settings_error =
  InvalidUuid | BadName | InvalidMajor | InvalidMinor | InvalidMeasuredPower
| InvalidAdvertisingInterval | UnsupportedRadioTxPower

fun settings_error_display :: "settings_error \<Rightarrow> str" where
  "settings_error_display InvalidUuid =
     lit ''BEACON_UUID must use canonical 8-4-4-4-12 hexadecimal UUID syntax''"
| "settings_error_display BadName = lit ''BEACON_NAME must contain between 1 and 29 UTF-8 bytes''"
| "settings_error_display InvalidMajor =
     lit ''BEACON_MAJOR must be an integer from 0 through 65535''"
| "settings_error_display InvalidMinor =
     lit ''BEACON_MINOR must be an integer from 0 through 65535''"
| "settings_error_display InvalidMeasuredPower =
     lit ''BEACON_MEASURED_POWER_DBM must be an integer from -128 through 127''"
| "settings_error_display InvalidAdvertisingInterval =
     lit ''BEACON_INTERVAL_MS must be an integer from 20 through 10240''"
| "settings_error_display UnsupportedRadioTxPower =
     lit ''BEACON_RADIO_TX_POWER_DBM must be one of -15,-12,-9,-6,-3,0,3,6,9,12,15,18,20''"

definition controller_tx_power :: "i8 \<Rightarrow> (controller_tx_power_level, settings_error) result" where
  "controller_tx_power dbm =
     (if dbm = - 15 then Ok N15 else if dbm = - 12 then Ok N12 else if dbm = - 9 then Ok N9
      else if dbm = - 6 then Ok N6 else if dbm = - 3 then Ok N3 else if dbm = 0 then Ok N0
      else if dbm = 3 then Ok P3 else if dbm = 6 then Ok P6 else if dbm = 9 then Ok P9
      else if dbm = 12 then Ok P12 else if dbm = 15 then Ok P15 else if dbm = 18 then Ok P18
      else if dbm = 20 then Ok P20 else Err UnsupportedRadioTxPower)"

text \<open>The type's parser of \<open>FromStr\<close> is the first argument.\<close>

definition parse_optional ::
  "(str \<Rightarrow> 'a option) \<Rightarrow> str option \<Rightarrow> 'a \<Rightarrow> settings_error \<Rightarrow> ('a, settings_error) result" where
  "parse_optional parse v d error =
     (case v of Some s \<Rightarrow> ok_or error (parse s) | None \<Rightarrow> Ok d)"

record settings =
  bs_name :: beacon_name
  bs_frame :: ibeacon
  bs_interval :: advertising_interval
  bs_radio_tx_power :: controller_tx_power_level
  bs_radio_tx_power_dbm :: i8

text \<open>The build-time environment.\<close>

record beacon_env =
  BEACON_NAME :: "str option"
  BEACON_UUID :: "str option"
  BEACON_MAJOR :: "str option"
  BEACON_MINOR :: "str option"
  BEACON_MEASURED_POWER_DBM :: "str option"
  BEACON_INTERVAL_MS :: "str option"
  BEACON_RADIO_TX_POWER_DBM :: "str option"

definition beacon_settings ::
  "beacon_env \<Rightarrow> static_random_address \<Rightarrow> (settings, settings_error) result" where
  "beacon_settings env address =
     (case (case BEACON_NAME env of
              Some name \<Rightarrow> ok_or BadName (beacon_name_from_str name)
            | None \<Rightarrow> Ok (beacon_name_from_address address)) of
        Inl e \<Rightarrow> Err e
      | Inr name \<Rightarrow>
     (case map_err (\<lambda>_. InvalidUuid)
             (beacon_uuid_parse (unwrap_or DEFAULT_BEACON_UUID (BEACON_UUID env))) of
        Inl e \<Rightarrow> Err e
      | Inr uuid \<Rightarrow>
     (case parse_optional parse_u16 (BEACON_MAJOR env) DEFAULT_BEACON_MAJOR InvalidMajor of
        Inl e \<Rightarrow> Err e
      | Inr major \<Rightarrow>
     (let default_minor = from_be_bytes (sra_bytes address ! 4) (sra_bytes address ! 5) in
      case parse_optional parse_u16 (BEACON_MINOR env) default_minor InvalidMinor of
        Inl e \<Rightarrow> Err e
      | Inr minor \<Rightarrow>
     (case parse_optional parse_i8 (BEACON_MEASURED_POWER_DBM env) DEFAULT_MEASURED_POWER_DBM
             InvalidMeasuredPower of
        Inl e \<Rightarrow> Err e
      | Inr measured_power \<Rightarrow>
     (case parse_optional parse_u16 (BEACON_INTERVAL_MS env) DEFAULT_ADVERTISING_INTERVAL_MS
             InvalidAdvertisingInterval of
        Inl e \<Rightarrow> Err e
      | Inr interval_millis \<Rightarrow>
     (case map_err (\<lambda>_. InvalidAdvertisingInterval) (from_millis interval_millis) of
        Inl e \<Rightarrow> Err e
      | Inr interval \<Rightarrow>
     (case parse_optional parse_i8 (BEACON_RADIO_TX_POWER_DBM env) DEFAULT_RADIO_TX_POWER_DBM
             UnsupportedRadioTxPower of
        Inl e \<Rightarrow> Err e
      | Inr dbm \<Rightarrow>
     (case controller_tx_power dbm of
        Inl e \<Rightarrow> Err e
      | Inr level \<Rightarrow>
          Ok \<lparr>bs_name = name, bs_frame = ibeacon_new uuid major minor measured_power,
              bs_interval = interval, bs_radio_tx_power = level,
              bs_radio_tx_power_dbm = dbm\<rparr>)))))))))"

subsection \<open>Advertising\<close>

datatype ad_structure =
  AdFlags u8 | AdManufacturerSpecificData u16 "u8 list" | AdCompleteLocalName "u8 list"

text \<open>What the image logs, asks of the host and waits for.\<close>

datatype beacon_log =
  PayloadEncodingFailed | ScanResponseEncodingFailed
| AdvertiseRequested "u8 list" "u8 list" u16
| AdvertisingFailed | Broadcasting | ReportConfiguration | AdvertisingStopped
| RunnerFailed | WaitMillis nat

text \<open>
  The two advertising buffers of \<open>advertise_forever\<close>, or the message of the early return
  when an encoding fails. The encoder returns the length it wrote and the buffer.
\<close>

definition beacon_buffers ::
  "(ad_structure list \<Rightarrow> u8 list \<Rightarrow> (nat, 'e) result \<times> u8 list) \<Rightarrow> settings
   \<Rightarrow> (u8 list \<times> u8 list, beacon_log) result" where
  "beacon_buffers encode_slice settings =
     (case encode_slice
             [AdFlags 0x06,
              AdManufacturerSpecificData IBEACON_COMPANY_IDENTIFIER
                (manufacturer_payload (bs_frame settings))] (replicate 31 0) of
        (Inl _, _) \<Rightarrow> Err PayloadEncodingFailed
      | (Inr n, advertising_data) \<Rightarrow>
          (case encode_slice [AdCompleteLocalName (beacon_name_as_bytes (bs_name settings))]
                  (replicate 31 0) of
             (Inl _, _) \<Rightarrow> Err ScanResponseEncodingFailed
           | (Inr m, scan_response_data) \<Rightarrow>
               Ok (take n advertising_data, take m scan_response_data)))"

text \<open>
  How a round of advertising goes: the host cannot start it, the controller stops it after a
  while, or it stays on the air.
\<close>

datatype advertise_round = NotStarted | StoppedLater | StaysOnAir

text \<open>
  The loop of \<open>advertise_forever\<close>: each round asks the host to advertise both buffers at
  the configured interval, and every round that ends does so with a wait of
  \<open>BLUETOOTH_RECOVERY_RETRY_MS\<close>.
\<close>

fun advertise_loop ::
  "u8 list \<Rightarrow> u8 list \<Rightarrow> u16 \<Rightarrow> advertise_round list \<Rightarrow> bool \<Rightarrow> beacon_log list" where
  "advertise_loop adv_data scan_data interval [] report_configuration = []"
| "advertise_loop adv_data scan_data interval (NotStarted # rounds) report_configuration =
     [AdvertiseRequested adv_data scan_data interval, AdvertisingFailed,
      WaitMillis BLUETOOTH_RECOVERY_RETRY_MS]
     @ advertise_loop adv_data scan_data interval rounds report_configuration"
| "advertise_loop adv_data scan_data interval (StoppedLater # rounds) report_configuration =
     [AdvertiseRequested adv_data scan_data interval, Broadcasting]
     @ (if report_configuration then [ReportConfiguration] else [])
     @ [AdvertisingStopped, WaitMillis BLUETOOTH_RECOVERY_RETRY_MS]
     @ advertise_loop adv_data scan_data interval rounds False"
| "advertise_loop adv_data scan_data interval (StaysOnAir # rounds) report_configuration =
     [AdvertiseRequested adv_data scan_data interval, Broadcasting]
     @ (if report_configuration then [ReportConfiguration] else [])"

text \<open>The task: an encoding that fails ends it.\<close>

definition advertise_forever ::
  "(ad_structure list \<Rightarrow> u8 list \<Rightarrow> (nat, 'e) result \<times> u8 list) \<Rightarrow> settings
   \<Rightarrow> advertise_round list \<Rightarrow> beacon_log list" where
  "advertise_forever encode_slice settings rounds =
     (case beacon_buffers encode_slice settings of
        Inl failure \<Rightarrow> [failure]
      | Inr (adv_data, scan_data) \<Rightarrow>
          advertise_loop adv_data scan_data (as_millis (bs_interval settings)) rounds True)"

text \<open>The loop of \<open>bluetooth_runner\<close>: a message and a wait after every run that failed.\<close>

fun bluetooth_runner :: "bool list \<Rightarrow> beacon_log list" where
  "bluetooth_runner [] = []"
| "bluetooth_runner (is_err # runs) =
     (if is_err then [RunnerFailed, WaitMillis BLUETOOTH_RECOVERY_RETRY_MS] else [])
     @ bluetooth_runner runs"

text \<open>
  The task that joins both: the address the host is given, in the byte order of the
  controller, and the logs it can produce. The executor decides how the two loops interleave.
\<close>

definition beacon_task ::
  "(ad_structure list \<Rightarrow> u8 list \<Rightarrow> (nat, 'e) result \<times> u8 list) \<Rightarrow> static_random_address \<Rightarrow> settings
   \<Rightarrow> bool list \<Rightarrow> advertise_round list \<Rightarrow> u8 list \<times> beacon_log list set" where
  "beacon_task encode_slice address settings runs rounds =
     (to_hci_bytes address,
      shuffles (bluetooth_runner runs) (advertise_forever encode_slice settings rounds))"

text \<open>The text of the messages; the interface addresses as the chip prints them.\<close>

definition configuration_lines :: "str \<Rightarrow> str \<Rightarrow> static_random_address \<Rightarrow> settings \<Rightarrow> str list" where
  "configuration_lines station_mac bluetooth_mac address settings =
     [lit ''embedded-sdk beacon boot: board='' @ hw_board HARDWARE @ lit '', chip='' @ hw_chip HARDWARE,
      lit ''embedded-sdk beacon mac: station='' @ station_mac @ lit '', bluetooth='' @ bluetooth_mac
        @ lit '', advertising='' @ sra_display address,
      lit ''embedded-sdk beacon identity: name='' @ beacon_name_as_str (bs_name settings)
        @ lit '', uuid='' @ beacon_uuid_display (ib_uuid (bs_frame settings))
        @ lit '', major='' @ fmt_dec (unat (ib_major (bs_frame settings)))
        @ lit '', minor='' @ fmt_dec (unat (ib_minor (bs_frame settings))),
      lit ''embedded-sdk beacon radio: interval_ms='' @ fmt_dec (unat (as_millis (bs_interval settings)))
        @ lit '', measured_power_dbm='' @ fmt_int (sint (ib_measured_power (bs_frame settings)))
        @ lit '', tx_power_dbm='' @ fmt_int (sint (bs_radio_tx_power_dbm settings))]"

fun beacon_console :: "str list \<Rightarrow> beacon_log \<Rightarrow> str list" where
  "beacon_console config PayloadEncodingFailed = [lit ''embedded-sdk beacon payload encoding failed'']"
| "beacon_console config ScanResponseEncodingFailed =
     [lit ''embedded-sdk beacon scan response encoding failed'']"
| "beacon_console config (AdvertiseRequested _ _ _) = []"
| "beacon_console config AdvertisingFailed = [lit ''embedded-sdk beacon advertising failed; retrying'']"
| "beacon_console config Broadcasting = [lit ''embedded-sdk beacon broadcasting'']"
| "beacon_console config ReportConfiguration = config"
| "beacon_console config AdvertisingStopped = [lit ''embedded-sdk beacon advertising stopped; retrying'']"
| "beacon_console config RunnerFailed = [lit ''embedded-sdk beacon host runner failed; retrying'']"
| "beacon_console config (WaitMillis _) = []"

text \<open>The message of \<open>configuration_failure\<close>, after which the image only waits.\<close>

definition configuration_failure :: "settings_error \<Rightarrow> str" where
  "configuration_failure error = lit ''embedded-sdk beacon configuration failed: '' @ settings_error_display error"

subsection \<open>The encoder's contract\<close>

text \<open>
  The Bluetooth format of an advertising structure: a length byte, a type byte and the
  content, which is one byte of flags, or a two-byte company identifier with its payload, or
  the name. An encoder is given a buffer and fails exactly when the structures do not fit.
\<close>

fun ad_size :: "ad_structure \<Rightarrow> nat" where
  "ad_size (AdFlags _) = 3"
| "ad_size (AdManufacturerSpecificData _ payload) = 4 + length payload"
| "ad_size (AdCompleteLocalName name) = 2 + length name"

definition ad_encoder ::
  "(ad_structure list \<Rightarrow> u8 list \<Rightarrow> (nat, 'e) result \<times> u8 list) \<Rightarrow> bool" where
  "ad_encoder encode_slice \<longleftrightarrow>
     (\<forall>xs buffer. let size = (\<Sum>x \<leftarrow> xs. ad_size x) in
        (if size \<le> length buffer
         then fst (encode_slice xs buffer) = Inr size
              \<and> length (snd (encode_slice xs buffer)) = length buffer
         else \<not> is_ok (fst (encode_slice xs buffer))))"

fun ad_bytes :: "ad_structure \<Rightarrow> u8 list" where
  "ad_bytes (AdFlags f) = [2, 0x01, f]"
| "ad_bytes (AdManufacturerSpecificData c payload) =
     of_nat (3 + length payload) # 0xFF # ucast c # ucast (drop_bit 8 c) # payload"
| "ad_bytes (AdCompleteLocalName name) = of_nat (1 + length name) # 0x09 # name"

definition sample_encoder :: "ad_structure list \<Rightarrow> u8 list \<Rightarrow> (nat, unit) result \<times> u8 list" where
  "sample_encoder xs buffer =
     (let bytes = concat (map ad_bytes xs)
      in if length bytes \<le> length buffer then (Ok (length bytes), copy_prefix buffer bytes)
         else (Err (), buffer))"

definition beacon_env_empty :: beacon_env where
  "beacon_env_empty =
     \<lparr>BEACON_NAME = None, BEACON_UUID = None, BEACON_MAJOR = None, BEACON_MINOR = None,
      BEACON_MEASURED_POWER_DBM = None, BEACON_INTERVAL_MS = None,
      BEACON_RADIO_TX_POWER_DBM = None\<rparr>"

section \<open>Lemmas\<close>

lemma hexadecimal_digit_upper: "hexadecimal_digit n = hex_upper n"
proof -
  have "n \<le> 9 \<longleftrightarrow> n < 10"
    by (auto simp: word_less_nat_alt word_le_nat_alt)
  then show ?thesis
    by (simp add: hexadecimal_digit_def hex_upper_def)
qed

lemma generated_name:
  "beacon_name_as_bytes (beacon_name_from_address a) =
     lit ''Beacon '' @ fmt_02X (sra_bytes a ! 4) @ fmt_02X (sra_bytes a ! 5)"
proof -
  have len: "unat (bn_length (beacon_name_from_address a)) = 11"
    by (simp add: beacon_name_from_address_def Let_def GENERATED_BEACON_NAME_LENGTH_def)
  show ?thesis
    unfolding beacon_name_as_bytes_def len
    by (simp add: beacon_name_from_address_def Let_def copy_prefix_def MAX_BEACON_NAME_LENGTH_def
        GENERATED_BEACON_NAME_PREFIX_def fmt_02X_def hexadecimal_digit_upper eval_nat_numeral)
qed

lemma given_name:
  assumes "beacon_name_from_str v = Some n"
  shows "beacon_name_as_bytes n = v" "length v \<in> {1..29}"
proof -
  from assms have len: "v \<noteq> []" "length v \<le> 29"
    and n: "n = \<lparr>bn_bytes = copy_prefix (replicate MAX_BEACON_NAME_LENGTH 0) v,
                 bn_length = of_nat (length v)\<rparr>"
    by (auto simp: beacon_name_from_str_def MAX_BEACON_NAME_LENGTH_def split: if_splits)
  from len have "unat (of_nat (length v) :: u8) = length v"
    by (simp add: unat_of_nat_id)
  then show "beacon_name_as_bytes n = v" "length v \<in> {1..29}"
    using len by (simp_all add: n beacon_name_as_bytes_def Suc_le_eq)
qed

interpretation beacon_name_store: bounded_store MAX_BEACON_NAME_LENGTH utf8_valid
  "\<lambda>v. v \<noteq> [] \<and> length v \<le> MAX_BEACON_NAME_LENGTH" "\<lambda>v. ok_or () (beacon_name_from_str v)"
  beacon_name_as_str "\<lambda>n. unat (bn_length n)"
proof unfold_locales
  show "beacon_name_as_str b = v" if "utf8_valid v" "ok_or () (beacon_name_from_str v) = Inr b" for v b
    using that given_name(1) [of v b] by (simp add: beacon_name_as_str_def)
  show "unat (bn_length b) = length v" if "ok_or () (beacon_name_from_str v) = Inr b" for v b
    using that by (auto simp: beacon_name_from_str_def MAX_BEACON_NAME_LENGTH_def unat_of_nat_id split: if_splits)
qed (auto simp: beacon_name_from_str_def)

lemma controller_tx_power_ok:
  "is_ok (controller_tx_power dbm) \<longleftrightarrow>
     sint dbm \<in> {- 15, - 12, - 9, - 6, - 3, 0, 3, 6, 9, 12, 15, 18, 20}"
proof -
  have eq: "sint dbm = sint c \<longleftrightarrow> dbm = c" for c :: i8
    by (rule signed_word_eqI [THEN iffI]) simp_all
  show ?thesis
    using eq [of "- 15"] eq [of "- 12"] eq [of "- 9"] eq [of "- 6"] eq [of "- 3"] eq [of 0]
      eq [of 3] eq [of 6] eq [of 9] eq [of 12] eq [of 15] eq [of 18] eq [of 20]
    by (auto simp: controller_tx_power_def)
qed

lemma default_uuid_parses:
  "beacon_uuid_parse DEFAULT_BEACON_UUID = Inr (BeaconUuid
     [0x7a, 0x1e, 0x10, 0x00, 0x4c, 0x2a, 0x4f, 0x66, 0xa1, 0xd4, 0x3f, 0x55, 0xb5, 0x5a, 0x10, 0x00])"
proof -
  have "dashes_ok DEFAULT_BEACON_UUID"
    by (simp add: dashes_ok_def DEFAULT_BEACON_UUID_def)
  moreover have "without_dashes DEFAULT_BEACON_UUID = lit ''7a1e10004c2a4f66a1d43f55b55a1000''"
    by (simp add: without_dashes_def DEFAULT_BEACON_UUID_def)
  ultimately show ?thesis
    by (simp add: parse_reference decode_hex_def)
qed

lemma length_manufacturer_payload: "length (manufacturer_payload b) = 23"
  by (simp add: manufacturer_payload_def Let_def)

lemma settings_name:
  assumes "beacon_settings env a = Inr s"
  shows "length (beacon_name_as_bytes (bs_name s)) \<in> {1..29}"
proof -
  from assms consider v where "BEACON_NAME env = Some v" "beacon_name_from_str v = Some (bs_name s)"
    | "bs_name s = beacon_name_from_address a"
    by (auto simp: beacon_settings_def Let_def split: sum.splits option.splits)
  then show ?thesis
  proof cases
    case 1
    then show ?thesis using given_name [of v "bs_name s"] by simp
  next
    case 2
    then show ?thesis by (simp add: generated_name fmt_02X_def)
  qed
qed

lemma settings_radio:
  assumes "beacon_settings env a = Inr s"
  shows "controller_tx_power (bs_radio_tx_power_dbm s) = Inr (bs_radio_tx_power s)"
    "is_ok (from_millis (as_millis (bs_interval s)))"
  using assms
  by (auto simp: beacon_settings_def Let_def from_millis_def split: sum.splits if_splits)

lemma length_ad_bytes: "length (ad_bytes x) = ad_size x"
  by (cases x) simp_all

lemma sample_encoder_ok: "ad_encoder sample_encoder"
proof -
  have "length (concat (map ad_bytes xs)) = (\<Sum>x \<leftarrow> xs. ad_size x)" for xs
    by (induction xs) (simp_all add: length_ad_bytes)
  then show ?thesis
    by (simp add: ad_encoder_def sample_encoder_def Let_def)
qed

lemma loop_reports:
  "ReportConfiguration \<in> set (advertise_loop adv scan i rounds True) \<longleftrightarrow> (\<exists>r \<in> set rounds. r \<noteq> NotStarted)"
  "count_list (advertise_loop adv scan i rounds True) ReportConfiguration \<le> 1"
proof -
  have free: "count_list (advertise_loop adv scan i rounds False) ReportConfiguration = 0" for rounds
  proof (induction rounds)
    case (Cons r rounds)
    then show ?case by (cases r) simp_all
  qed simp
  show "count_list (advertise_loop adv scan i rounds True) ReportConfiguration \<le> 1"
  proof (induction rounds)
    case (Cons r rounds)
    then show ?case by (cases r) (simp_all add: free)
  qed simp
  show "ReportConfiguration \<in> set (advertise_loop adv scan i rounds True) \<longleftrightarrow> (\<exists>r \<in> set rounds. r \<noteq> NotStarted)"
  proof (induction rounds)
    case (Cons r rounds)
    then show ?case by (cases r) simp_all
  qed simp
qed

lemma loop_requests:
  "set (advertise_loop adv scan i rounds b) \<subseteq>
     {AdvertiseRequested adv scan i, AdvertisingFailed, Broadcasting, ReportConfiguration,
      AdvertisingStopped, WaitMillis BLUETOOTH_RECOVERY_RETRY_MS}"
  "count_list (advertise_loop adv scan i rounds b) (AdvertiseRequested adv scan i)
     \<le> Suc (count_list (advertise_loop adv scan i rounds b) (WaitMillis BLUETOOTH_RECOVERY_RETRY_MS))"
  by (induction adv scan i rounds b rule: advertise_loop.induct) auto

lemma settings_buffers:
  assumes "beacon_settings env a = Inr s" and "ad_encoder encode_slice"
  shows "\<exists>adv scan. beacon_buffers encode_slice s = Inr (adv, scan) \<and> length adv = 30
    \<and> length scan = 2 + length (beacon_name_as_bytes (bs_name s))"
proof -
  let ?adv = "[AdFlags 0x06, AdManufacturerSpecificData IBEACON_COMPANY_IDENTIFIER
      (manufacturer_payload (bs_frame s))]"
  let ?name = "beacon_name_as_bytes (bs_name s)"
  have name: "length ?name \<in> {1..29}"
    by (rule settings_name [OF assms(1)])
  have "fst (encode_slice ?adv (replicate 31 0)) = Inr 30 \<and> length (snd (encode_slice ?adv (replicate 31 0))) = 31"
    using assms(2) [unfolded ad_encoder_def, rule_format, of ?adv "replicate 31 0"]
    by (simp add: Let_def length_manufacturer_payload)
  moreover have "fst (encode_slice [AdCompleteLocalName ?name] (replicate 31 0)) = Inr (2 + length ?name)
      \<and> length (snd (encode_slice [AdCompleteLocalName ?name] (replicate 31 0))) = 31"
    using assms(2) [unfolded ad_encoder_def, rule_format, of "[AdCompleteLocalName ?name]" "replicate 31 0"] name
    by (simp add: Let_def)
  ultimately show ?thesis
    using name by (auto simp: beacon_buffers_def split: prod.splits)
qed

section \<open>Properties\<close>

text \<open>
  C33. The beacon always has a frame to send: whatever the environment, settings that are
  accepted have a name of 1 to 29 bytes, an interval the radio supports and a power level
  that matches the configured dBm; both the iBeacon advertisement (30 bytes) and the scan
  response with the name fit the 31 bytes of a legacy advertisement, so the advertising task
  never gives up on an encoding, and however the host behaves it only ever asks for that
  advertisement at that interval. It waits before it asks again, and it reports its
  configuration once, exactly when the host has started to advertise.
\<close>

theorem beacon_settings_sound:
  assumes "beacon_settings env a = Inr s" and "ad_encoder encode_slice"
  shows "length (beacon_name_as_bytes (bs_name s)) \<in> {1..29}
    \<and> unat (as_millis (bs_interval s)) \<in> {20..10240}
    \<and> sint (bs_radio_tx_power_dbm s) \<in> {- 15, - 12, - 9, - 6, - 3, 0, 3, 6, 9, 12, 15, 18, 20}
    \<and> controller_tx_power (bs_radio_tx_power_dbm s) = Inr (bs_radio_tx_power s)
    \<and> (\<exists>adv scan. beacon_buffers encode_slice s = Inr (adv, scan) \<and> length adv = 30
         \<and> length scan = 2 + length (beacon_name_as_bytes (bs_name s))
         \<and> (let log = advertise_forever encode_slice s rounds;
                request = AdvertiseRequested adv scan (as_millis (bs_interval s))
            in set log \<subseteq> {request, AdvertisingFailed, Broadcasting, ReportConfiguration,
                 AdvertisingStopped, WaitMillis 100}
               \<and> count_list log request \<le> Suc (count_list log (WaitMillis 100))
               \<and> (ReportConfiguration \<in> set log \<longleftrightarrow> (\<exists>r \<in> set rounds. r \<noteq> NotStarted))
               \<and> count_list log ReportConfiguration \<le> 1))"
proof -
  obtain adv scan where buffers: "beacon_buffers encode_slice s = Inr (adv, scan)" "length adv = 30"
    "length scan = 2 + length (beacon_name_as_bytes (bs_name s))"
    using settings_buffers [OF assms] by blast
  have "unat (as_millis (bs_interval s)) \<in> {20..10240}"
    using settings_radio(2) [OF assms(1)]
    by (auto simp: from_millis_def MIN_MILLIS_def MAX_MILLIS_def word_less_nat_alt split: if_splits)
  moreover have "sint (bs_radio_tx_power_dbm s) \<in> {- 15, - 12, - 9, - 6, - 3, 0, 3, 6, 9, 12, 15, 18, 20}"
    using controller_tx_power_ok [of "bs_radio_tx_power_dbm s"] settings_radio(1) [OF assms(1)]
    by (simp only: is_ok_simps)
  moreover have "advertise_forever encode_slice s rounds
      = advertise_loop adv scan (as_millis (bs_interval s)) rounds True"
    by (simp add: advertise_forever_def buffers(1))
  ultimately show ?thesis
    using settings_name [OF assms(1)] settings_radio(1) [OF assms(1)] buffers
      loop_requests [of adv scan _ rounds True] loop_reports [of adv scan _ rounds]
    by (simp add: Let_def BLUETOOTH_RECOVERY_RETRY_MS_def)
qed

theorem beacon_settings_sound_witness:
  "\<exists>s. beacon_settings beacon_env_empty (StaticRandomAddress [0xD0, 2, 3, 4, 0x5A, 6]) = Inr s
     \<and> is_ok (beacon_buffers sample_encoder s)"
proof -
  obtain s where s: "beacon_settings beacon_env_empty (StaticRandomAddress [0xD0, 2, 3, 4, 0x5A, 6]) = Inr s"
    by (simp add: beacon_settings_def beacon_env_empty_def default_uuid_parses parse_optional_def
        from_millis_def DEFAULT_ADVERTISING_INTERVAL_MS_def MIN_MILLIS_def MAX_MILLIS_def
        DEFAULT_RADIO_TX_POWER_DBM_def controller_tx_power_def)
  then show ?thesis
    using beacon_settings_sound [OF s sample_encoder_ok, of "[]"] by auto
qed

text \<open>
  A beacon needs no configuration: with no environment variable set, every address gives
  settings with the default UUID, major and power, the fastest interval, and the last two
  bytes of the address as minor value; its generated name is \<open>Beacon\<close> with the same two
  bytes in hexadecimal.
\<close>

lemma beacon_defaults:
  "\<exists>s. beacon_settings beacon_env_empty a = Inr s
     \<and> beacon_name_as_bytes (bs_name s) =
         lit ''Beacon '' @ fmt_02X (sra_bytes a ! 4) @ fmt_02X (sra_bytes a ! 5)
     \<and> beacon_uuid_parse DEFAULT_BEACON_UUID = Inr (ib_uuid (bs_frame s))
     \<and> ib_major (bs_frame s) = 1
     \<and> to_be_bytes (ib_minor (bs_frame s)) = [sra_bytes a ! 4, sra_bytes a ! 5]
     \<and> sint (ib_measured_power (bs_frame s)) = - 59
     \<and> as_millis (bs_interval s) = 20 \<and> bs_radio_tx_power s = P9"
proof -
  have minor: "to_be_bytes (from_be_bytes hi lo) = [hi, lo]" for hi lo
    unfolding to_be_bytes_def from_be_bytes_def list.inject
    by (intro conjI bit_word_eqI refl) (auto simp: bit_simps dest: bit_imp_le_length)
  show ?thesis
    by (simp add: beacon_settings_def beacon_env_empty_def default_uuid_parses parse_optional_def
        from_millis_def DEFAULT_ADVERTISING_INTERVAL_MS_def MIN_MILLIS_def MAX_MILLIS_def
        DEFAULT_RADIO_TX_POWER_DBM_def controller_tx_power_def ibeacon_new_def generated_name minor
        DEFAULT_BEACON_MAJOR_def DEFAULT_MEASURED_POWER_DBM_def)
qed

end
