(* ===== verification/Scanner.thy ===== *)
theory Scanner
  imports Rust_Str "HOL-Library.Multiset" "HOL-Library.Signed_Division"
begin

text \<open>
  \<open>firmware/seeed/xiao-esp32c6-beacon-scanner\<close>: the registry of advertising devices, the
  metadata read from advertisements, and the report printed after each scan window. The
  decoder of advertising structures and the text of an address belong to the Bluetooth host
  crate and are arguments; \<open>sort_unstable_by\<close> is an argument with its contract
  (\<open>sorts_strongest_first\<close>), because the order of equal elements is left open. The
  events the handler sees are the step relation \<open>scanner_step\<close>.
\<close>

section \<open>Definitions\<close>

subsection \<open>Constants\<close>

definition DEVICE_STALE_AFTER_MS :: u64 where
  "DEVICE_STALE_AFTER_MS = 15000"

definition DEVICE_CAPACITY :: nat where
  "DEVICE_CAPACITY = 128"

definition REMEMBERED_DEVICE_CAPACITY :: nat where
  "REMEMBERED_DEVICE_CAPACITY = 48"

definition SNAPSHOT_DISPLAY_LIMIT :: nat where
  "SNAPSHOT_DISPLAY_LIMIT = 12"

definition BEACON_DISPLAY_LIMIT :: nat where
  "BEACON_DISPLAY_LIMIT = 24"

definition LOCAL_NAME_CAPACITY :: nat where
  "LOCAL_NAME_CAPACITY = 29"

definition BEACON_FORMAT_IBEACON :: u8 where
  "BEACON_FORMAT_IBEACON = push_bit 0 1"

definition BEACON_FORMAT_EDDYSTONE_UID :: u8 where
  "BEACON_FORMAT_EDDYSTONE_UID = push_bit 1 1"

definition BEACON_FORMAT_EDDYSTONE_URL :: u8 where
  "BEACON_FORMAT_EDDYSTONE_URL = push_bit 2 1"

definition BEACON_FORMAT_EDDYSTONE_TLM :: u8 where
  "BEACON_FORMAT_EDDYSTONE_TLM = push_bit 3 1"

definition BEACON_FORMAT_EDDYSTONE_EID :: u8 where
  "BEACON_FORMAT_EDDYSTONE_EID = push_bit 4 1"

definition BEACON_FORMAT_ALTBEACON :: u8 where
  "BEACON_FORMAT_ALTBEACON = push_bit 5 1"

subsection \<open>Local names\<close>

record local_name =
  ln_bytes :: "u8 list"
  ln_len :: u8

definition local_name_from_bytes :: "u8 list \<Rightarrow> local_name option" where
  "local_name_from_bytes v =
     (if v = [] \<or> length v > LOCAL_NAME_CAPACITY \<or> from_utf8 v = None then None
      else Some \<lparr>ln_bytes = copy_prefix (replicate LOCAL_NAME_CAPACITY 0) v,
                 ln_len = of_nat (length v)\<rparr>)"

definition local_name_as_str :: "local_name \<Rightarrow> str" where
  "local_name_as_str n = unwrap_or [] (from_utf8 (take (unat (ln_len n)) (ln_bytes n)))"

subsection \<open>Beacon metadata\<close>

record beacon_metadata =
  bm_feasycom :: bool
  bm_formats :: u8

definition beacon_metadata_new :: beacon_metadata where
  "beacon_metadata_new = \<lparr>bm_feasycom = False, bm_formats = 0\<rparr>"

definition merge :: "beacon_metadata \<Rightarrow> beacon_metadata \<Rightarrow> beacon_metadata" where
  "merge b other =
     \<lparr>bm_feasycom = (bm_feasycom b \<or> bm_feasycom other), bm_formats = bm_formats b OR bm_formats other\<rparr>"

definition is_beacon :: "beacon_metadata \<Rightarrow> bool" where
  "is_beacon b \<longleftrightarrow> bm_feasycom b \<or> bm_formats b \<noteq> 0"

subsection \<open>Advertisements\<close>

text \<open>
  The structures the parser distinguishes; \<open>AdOther\<close> stands for the ones its wildcard arm
  covers.
\<close>

datatype adv_structure =
  CompleteLocalName "u8 list" | ShortenedLocalName "u8 list"
| ServiceData16 "u8 list" "u8 list" | ManufacturerSpecificData u16 "u8 list" | AdOther

record adv_metadata =
  md_name :: "local_name option"
  md_manufacturer :: "u16 option"
  md_beacon :: beacon_metadata

definition eddystone_format :: "u8 list \<Rightarrow> u8" where
  "eddystone_format data =
     (case data of
        [] \<Rightarrow> 0
      | b # _ \<Rightarrow>
          if b = 0x00 then BEACON_FORMAT_EDDYSTONE_UID
          else if b = 0x10 then BEACON_FORMAT_EDDYSTONE_URL
          else if b = 0x20 then BEACON_FORMAT_EDDYSTONE_TLM
          else if b = 0x30 then BEACON_FORMAT_EDDYSTONE_EID
          else 0)"

definition add_formats :: "u8 \<Rightarrow> beacon_metadata \<Rightarrow> beacon_metadata" where
  "add_formats f b = b\<lparr>bm_formats := bm_formats b OR f\<rparr>"

text \<open>The body of the loop over the decoded structures.\<close>

fun parse_structure :: "adv_structure \<Rightarrow> adv_metadata \<Rightarrow> adv_metadata" where
  "parse_structure (CompleteLocalName n) m = m\<lparr>md_name := local_name_from_bytes n\<rparr>"
| "parse_structure (ShortenedLocalName n) m = m\<lparr>md_name := local_name_from_bytes n\<rparr>"
| "parse_structure (ServiceData16 uuid data) m =
     (if uuid = [0xf0, 0xff] then
        (if length data \<ge> 11 then m\<lparr>md_beacon := (md_beacon m)\<lparr>bm_feasycom := True\<rparr>\<rparr> else m)
      else if uuid = [0xaa, 0xfe] then
        m\<lparr>md_beacon := add_formats (eddystone_format data) (md_beacon m)\<rparr>
      else m)"
| "parse_structure (ManufacturerSpecificData company payload) m =
     (let b0 = md_beacon m;
          b1 = (if company = 0x004c \<and> length payload \<ge> 23 \<and> take 2 payload = [0x02, 0x15]
                then add_formats BEACON_FORMAT_IBEACON b0 else b0);
          b2 = (if length payload \<ge> 24 \<and> take 2 payload = [0xbe, 0xac]
                then add_formats BEACON_FORMAT_ALTBEACON b1 else b1);
          b3 = (if company = 0xfff0 then b2\<lparr>bm_feasycom := True\<rparr> else b2)
      in m\<lparr>md_manufacturer := Some company, md_beacon := b3\<rparr>)"
| "parse_structure AdOther m = m"

definition metadata_parse :: "(u8 list \<Rightarrow> adv_structure list) \<Rightarrow> u8 list \<Rightarrow> adv_metadata" where
  "metadata_parse decode data =
     fold parse_structure (decode data)
       \<lparr>md_name = None, md_manufacturer = None, md_beacon = beacon_metadata_new\<rparr>"

subsection \<open>Devices\<close>

text \<open>An address: its kind as the raw byte, and its six bytes.\<close>

record address =
  ad_kind :: u8
  ad_addr :: "u8 list"

record device_entry =
  de_address :: address
  de_previous_window_average :: "i16 option"
  de_window_rssi_sum :: i32
  de_window_reports :: u32
  de_window_peak_rssi :: i8
  de_last_seen_ms :: u64
  de_name :: "local_name option"
  de_manufacturer :: "u16 option"
  de_beacon :: beacon_metadata

text \<open>Truncating division in 64 bits, cut to 16: \<open>(sum / reports) as i16\<close>.\<close>

definition window_average :: "device_entry \<Rightarrow> i16 option" where
  "window_average e =
     (if de_window_reports e = 0 then None
      else Some (word_of_int (sint (de_window_rssi_sum e) sdiv uint (de_window_reports e))))"

record displayed_device =
  dd_address :: address
  dd_average_rssi :: i16
  dd_last_seen_ms :: u64
  dd_name :: "local_name option"
  dd_manufacturer :: "u16 option"
  dd_beacon :: beacon_metadata

definition i16_MIN :: i16 where
  "i16_MIN = - 32768"

definition i8_MIN :: i8 where
  "i8_MIN = - 128"

definition from_entry :: "device_entry \<Rightarrow> displayed_device" where
  "from_entry e =
     \<lparr>dd_address = de_address e, dd_average_rssi = unwrap_or i16_MIN (window_average e),
      dd_last_seen_ms = de_last_seen_ms e, dd_name = de_name e,
      dd_manufacturer = de_manufacturer e, dd_beacon = de_beacon e\<rparr>"

definition matches_address :: "displayed_device \<Rightarrow> address \<Rightarrow> bool" where
  "matches_address d a \<longleftrightarrow>
     ad_kind (dd_address d) = ad_kind a \<and> ad_addr (dd_address d) = ad_addr a"

subsection \<open>The registry\<close>

record device_registry =
  dr_entries :: "device_entry option list"
  dr_previous_remembered :: "displayed_device option list"
  dr_window_reports :: u32
  dr_window_malformed_reports :: u32
  dr_window_evictions :: u32

definition registry_new :: device_registry where
  "registry_new =
     \<lparr>dr_entries = replicate DEVICE_CAPACITY None,
      dr_previous_remembered = replicate REMEMBERED_DEVICE_CAPACITY None,
      dr_window_reports = 0, dr_window_malformed_reports = 0, dr_window_evictions = 0\<rparr>"

text \<open>\<open>Iterator::position\<close>, and the index \<open>min_by_key\<close> returns: that of the first minimum.\<close>

fun position :: "('a \<Rightarrow> bool) \<Rightarrow> 'a list \<Rightarrow> nat option" where
  "position P [] = None"
| "position P (x # xs) = (if P x then Some 0 else map_option Suc (position P xs))"

fun first_min :: "('a \<Rightarrow> 'k::linorder) \<Rightarrow> 'a list \<Rightarrow> nat option" where
  "first_min key [] = None"
| "first_min key (x # xs) =
     (case first_min key xs of
        None \<Rightarrow> Some 0
      | Some i \<Rightarrow> if key x \<le> key (xs ! i) then Some 0 else Some (Suc i))"

definition same_address :: "address \<Rightarrow> device_entry option \<Rightarrow> bool" where
  "same_address a entry \<longleftrightarrow>
     (case entry of
        None \<Rightarrow> False
      | Some e \<Rightarrow> ad_kind (de_address e) = ad_kind a \<and> ad_addr (de_address e) = ad_addr a)"

definition i32_saturating_add :: "i32 \<Rightarrow> i32 \<Rightarrow> i32" where
  "i32_saturating_add a b = word_of_int (max (- (2 ^ 31)) (min (2 ^ 31 - 1) (sint a + sint b)))"

definition i8_max :: "i8 \<Rightarrow> i8 \<Rightarrow> i8" where
  "i8_max a b = (if sint a \<le> sint b then b else a)"

text \<open>What a report of a known device changes in its entry.\<close>

definition update_entry :: "i8 \<Rightarrow> adv_metadata \<Rightarrow> u64 \<Rightarrow> device_entry \<Rightarrow> device_entry" where
  "update_entry rssi metadata now_ms e =
     e\<lparr>de_window_rssi_sum := i32_saturating_add (de_window_rssi_sum e) (scast rssi),
       de_window_reports := saturating_add (de_window_reports e) 1,
       de_window_peak_rssi := i8_max (de_window_peak_rssi e) rssi,
       de_last_seen_ms := now_ms,
       de_name := (if md_name metadata \<noteq> None then md_name metadata else de_name e),
       de_manufacturer := (if md_manufacturer metadata \<noteq> None then md_manufacturer metadata
                           else de_manufacturer e),
       de_beacon := merge (de_beacon e) (md_beacon metadata)\<rparr>"

definition new_entry :: "address \<Rightarrow> i8 \<Rightarrow> adv_metadata \<Rightarrow> u64 \<Rightarrow> device_entry" where
  "new_entry a rssi metadata now_ms =
     \<lparr>de_address = a, de_previous_window_average = None, de_window_rssi_sum = scast rssi,
      de_window_reports = 1, de_window_peak_rssi = rssi, de_last_seen_ms = now_ms,
      de_name = md_name metadata, de_manufacturer = md_manufacturer metadata,
      de_beacon = md_beacon metadata\<rparr>"

definition eviction_key :: "device_entry option \<Rightarrow> u64" where
  "eviction_key entry = (case entry of None \<Rightarrow> umax | Some e \<Rightarrow> de_last_seen_ms e)"

definition registry_record ::
  "address \<Rightarrow> i8 \<Rightarrow> adv_metadata \<Rightarrow> u64 \<Rightarrow> device_registry \<Rightarrow> device_registry" where
  "registry_record a rssi metadata now_ms reg0 =
     (let reg = reg0\<lparr>dr_window_reports := dr_window_reports reg0 + 1\<rparr>
      in case position (same_address a) (dr_entries reg) of
           Some index \<Rightarrow>
             reg\<lparr>dr_entries := (dr_entries reg)
                  [index := map_option (update_entry rssi metadata now_ms) (dr_entries reg ! index)]\<rparr>
         | None \<Rightarrow>
             (let (index, reg') =
                (case position (\<lambda>e. e = None) (dr_entries reg) of
                   Some index \<Rightarrow> (index, reg)
                 | None \<Rightarrow>
                     (unwrap_or 0 (first_min eviction_key (dr_entries reg)),
                      reg\<lparr>dr_window_evictions := dr_window_evictions reg + 1\<rparr>))
              in reg'\<lparr>dr_entries := (dr_entries reg')
                   [index := Some (new_entry a rssi metadata now_ms)]\<rparr>))"

definition is_stale_entry :: "u64 \<Rightarrow> device_entry option \<Rightarrow> bool" where
  "is_stale_entry now_ms entry \<longleftrightarrow>
     (case entry of
        None \<Rightarrow> False
      | Some e \<Rightarrow> saturating_sub now_ms (de_last_seen_ms e) > DEVICE_STALE_AFTER_MS)"

definition remove_stale :: "u64 \<Rightarrow> device_registry \<Rightarrow> device_registry" where
  "remove_stale now_ms reg =
     reg\<lparr>dr_entries := map (\<lambda>e. if is_stale_entry now_ms e then None else e) (dr_entries reg)\<rparr>"

definition record_malformed_report :: "device_registry \<Rightarrow> device_registry" where
  "record_malformed_report reg =
     reg\<lparr>dr_window_malformed_reports := dr_window_malformed_reports reg + 1\<rparr>"

text \<open>
  \<open>ScanReportHandler::record\<close>: the advertisement is parsed, the clock read, and the
  registry updated.
\<close>

definition handler_record ::
  "(u8 list \<Rightarrow> adv_structure list) \<Rightarrow> u64 \<Rightarrow> address \<Rightarrow> i8 \<Rightarrow> u8 list \<Rightarrow> device_registry \<Rightarrow> device_registry" where
  "handler_record decode now_ms a rssi data reg =
     registry_record a rssi (metadata_parse decode data) now_ms reg"

text \<open>
  \<open>on_adv_reports\<close>: a report that cannot be decoded is counted as malformed. With each
  report comes what the clock shows while it is handled.
\<close>

record adv_report =
  ar_address :: address
  ar_rssi :: i8
  ar_data :: "u8 list"

type_synonym 'e timed_report = "u64 \<times> (adv_report, 'e) result"

fun on_adv_reports ::
  "(u8 list \<Rightarrow> adv_structure list) \<Rightarrow> 'e timed_report list \<Rightarrow> device_registry \<Rightarrow> device_registry" where
  "on_adv_reports decode [] reg = reg"
| "on_adv_reports decode ((now_ms, Inr r) # rs) reg =
     on_adv_reports decode rs (handler_record decode now_ms (ar_address r) (ar_rssi r) (ar_data r) reg)"
| "on_adv_reports decode ((now_ms, Inl e) # rs) reg =
     on_adv_reports decode rs (record_malformed_report reg)"

subsection \<open>The report of a scan window\<close>

definition end_window_entry :: "device_entry \<Rightarrow> device_entry" where
  "end_window_entry e =
     (let e1 = (case window_average e of
                  Some average \<Rightarrow> e\<lparr>de_previous_window_average := Some average\<rparr>
                | None \<Rightarrow> e)
      in e1\<lparr>de_window_rssi_sum := 0, de_window_reports := 0, de_window_peak_rssi := i8_MIN\<rparr>)"

text \<open>The first critical section: the snapshot that is printed, and the registry reset.\<close>

definition take_snapshot :: "u64 \<Rightarrow> device_registry \<Rightarrow> device_registry \<times> device_registry" where
  "take_snapshot now_ms reg0 =
     (let snapshot = remove_stale now_ms reg0
      in (snapshot,
          snapshot\<lparr>dr_entries := map (map_option end_window_entry) (dr_entries snapshot),
            dr_window_reports := 0, dr_window_malformed_reports := 0,
            dr_window_evictions := 0\<rparr>))"

text \<open>\<open>iter().flatten()\<close>, with and without the filter on the current window.\<close>

definition flatten :: "'a option list \<Rightarrow> 'a list" where
  "flatten xs = List.map_filter (\<lambda>x. x) xs"

definition seen :: "device_entry option list \<Rightarrow> device_entry list" where
  "seen entries = filter (\<lambda>e. de_window_reports e > 0) (flatten entries)"

text \<open>The sort key: devices without a report in the window come last.\<close>

definition average_rank :: "device_entry option \<Rightarrow> int option" where
  "average_rank entry = map_option sint (Option.bind entry window_average)"

fun option_le :: "int option \<Rightarrow> int option \<Rightarrow> bool" where
  "option_le None _ = True"
| "option_le (Some a) None = False"
| "option_le (Some a) (Some b) = (a \<le> b)"

definition sorts_strongest_first :: "(device_entry option list \<Rightarrow> device_entry option list) \<Rightarrow> bool" where
  "sorts_strongest_first sort_by \<longleftrightarrow>
     (\<forall>xs. mset (sort_by xs) = mset xs
        \<and> sorted_wrt (\<lambda>l r. option_le (average_rank r) (average_rank l)) (sort_by xs))"

definition lost_devices ::
  "displayed_device option list \<Rightarrow> device_entry option list \<Rightarrow> displayed_device list" where
  "lost_devices previous entries =
     filter (\<lambda>p. \<not> list_ex (\<lambda>c. de_window_reports c > 0 \<and> matches_address p (de_address c)) (flatten entries))
       (flatten previous)"

text \<open>Filling the remembered slots: \<open>iter_mut().zip(...)\<close> stops at the shorter list.\<close>

definition fill_remembered :: "device_entry list \<Rightarrow> displayed_device option list" where
  "fill_remembered entries =
     copy_prefix (replicate REMEMBERED_DEVICE_CAPACITY None)
       (map (\<lambda>e. Some (from_entry e)) (take REMEMBERED_DEVICE_CAPACITY entries))"

text \<open>One printed line of the device table and of the table of lost devices.\<close>

record device_row =
  row_average :: i16
  row_delta :: "i16 option"
  row_age_ms :: u64
  row_entry :: device_entry

definition device_row_of :: "u64 \<Rightarrow> device_entry \<Rightarrow> device_row" where
  "device_row_of now_ms e =
     (let average = unwrap_or i16_MIN (window_average e)
      in \<lparr>row_average = average,
          row_delta = map_option (\<lambda>previous. average - previous) (de_previous_window_average e),
          row_age_ms = saturating_sub now_ms (de_last_seen_ms e), row_entry = e\<rparr>)"

record scan_report =
  sr_count :: nat
  sr_packets :: u32
  sr_malformed :: u32
  sr_evicted :: u32
  sr_shown :: nat
  sr_rows :: "device_row list"
  sr_beacon_count :: nat
  sr_beacon_rows :: "device_row list"
  sr_lost_count :: nat
  sr_lost_rows :: "(displayed_device \<times> u64) list"

definition print_snapshot ::
  "(device_entry option list \<Rightarrow> device_entry option list) \<Rightarrow> u64 \<Rightarrow> device_registry
   \<Rightarrow> scan_report \<times> device_registry" where
  "print_snapshot sort_by now_ms reg0 =
     (let (snapshot0, reg1) = take_snapshot now_ms reg0;
          count = length (seen (dr_entries snapshot0));
          snapshot = snapshot0\<lparr>dr_entries := sort_by (dr_entries snapshot0)\<rparr>;
          shown = min count SNAPSHOT_DISPLAY_LIMIT;
          lost = lost_devices (dr_previous_remembered snapshot) (dr_entries snapshot);
          remembered = fill_remembered (seen (dr_entries snapshot));
          reg2 = reg1\<lparr>dr_previous_remembered := remembered\<rparr>;
          beacons = filter (\<lambda>e. is_beacon (de_beacon e)) (seen (dr_entries snapshot))
      in (\<lparr>sr_count = count, sr_packets = dr_window_reports snapshot,
           sr_malformed = dr_window_malformed_reports snapshot,
           sr_evicted = dr_window_evictions snapshot, sr_shown = shown,
           sr_rows = map (device_row_of now_ms)
             (take SNAPSHOT_DISPLAY_LIMIT (seen (dr_entries snapshot))),
           sr_beacon_count = length beacons,
           sr_beacon_rows = map (device_row_of now_ms) (take BEACON_DISPLAY_LIMIT beacons),
           sr_lost_count = length lost,
           sr_lost_rows = map (\<lambda>d. (d, saturating_sub now_ms (dd_last_seen_ms d)))
             (take SNAPSHOT_DISPLAY_LIMIT lost)\<rparr>, reg2))"

subsection \<open>Text\<close>

definition pad_right :: "nat \<Rightarrow> str \<Rightarrow> str" where
  "pad_right width s = s @ replicate (width - length s) 0x20"

definition pad_left :: "nat \<Rightarrow> str \<Rightarrow> str" where
  "pad_left width s = replicate (width - length s) 0x20 @ s"

text \<open>\<open>{delta:+5}\<close>: the sign is always printed.\<close>

definition fmt_signed :: "int \<Rightarrow> str" where
  "fmt_signed n = (if n < 0 then [0x2D] else [0x2B]) @ fmt_dec (nat \<bar>n\<bar>)"

definition rssi_delta_display :: "i16 option \<Rightarrow> str" where
  "rssi_delta_display delta =
     (case delta of Some d \<Rightarrow> pad_left 5 (fmt_signed (sint d)) | None \<Rightarrow> lit ''    -'')"

definition address_kind_display :: "u8 \<Rightarrow> str" where
  "address_kind_display kind =
     (if kind = 0 then lit ''pub'' else if kind = 1 then lit ''rnd''
      else pad_right 3 (fmt_dec (unat kind)))"

definition manufacturer_display :: "u16 option \<Rightarrow> str" where
  "manufacturer_display m =
     (case m of
        Some i \<Rightarrow> lit ''0x'' @ fmt_02x (ucast (drop_bit 8 i)) @ fmt_02x (ucast i)
      | None \<Rightarrow> lit ''-     '')"

text \<open>The loop over the format flags, with whether a label was written before.\<close>

fun label_loop :: "(u8 \<times> str) list \<Rightarrow> u8 \<Rightarrow> bool \<Rightarrow> str \<times> bool" where
  "label_loop [] formats wrote = ([], wrote)"
| "label_loop ((flag, label) # rest) formats wrote =
     (if formats AND flag \<noteq> 0
      then let (out, wrote') = label_loop rest formats True
           in ((if wrote then [0x2F] else []) @ label @ out, wrote')
      else label_loop rest formats wrote)"

definition format_labels :: "(u8 \<times> str) list" where
  "format_labels =
     [(BEACON_FORMAT_IBEACON, lit ''iBeacon''), (BEACON_FORMAT_EDDYSTONE_UID, lit ''E-UID''),
      (BEACON_FORMAT_EDDYSTONE_URL, lit ''E-URL''), (BEACON_FORMAT_EDDYSTONE_TLM, lit ''E-TLM''),
      (BEACON_FORMAT_EDDYSTONE_EID, lit ''E-EID''), (BEACON_FORMAT_ALTBEACON, lit ''AltBeacon'')]"

definition beacon_label_display :: "beacon_metadata \<Rightarrow> str" where
  "beacon_label_display b =
     (let (labels, wrote) = label_loop format_labels (bm_formats b) (bm_feasycom b)
      in (if bm_feasycom b then lit ''Feasy'' else []) @ labels @ (if wrote then [] else [0x2D]))"

text \<open>
  The name as printed, in code points: quotes and backslashes are escaped and control
  characters (category Cc) replaced.
\<close>

definition is_control :: "nat \<Rightarrow> bool" where
  "is_control c \<longleftrightarrow> c < 0x20 \<or> (0x7F \<le> c \<and> c < 0xA0)"

definition display_char :: "nat \<Rightarrow> nat list" where
  "display_char c =
     (if c = 0x22 \<or> c = 0x5C then [0x5C, c] else if is_control c then [0x2E] else [c])"

definition display_name :: "local_name option \<Rightarrow> nat list" where
  "display_name name =
     (case name of
        None \<Rightarrow> [0x2D]
      | Some n \<Rightarrow>
          0x22 # concat (map display_char (unwrap_or [] (chars (local_name_as_str n)))) @ [0x22])"

subsection \<open>Steps and reachable registries\<close>

text \<open>
  The two things that happen to the registry, in any order and number: the host delivers a
  batch of reports, and a scan window ends.
\<close>

inductive scanner_step ::
  "(u8 list \<Rightarrow> adv_structure list) \<Rightarrow> (device_entry option list \<Rightarrow> device_entry option list)
   \<Rightarrow> device_registry \<Rightarrow> device_registry \<Rightarrow> bool"
  for decode sort_by where
  reports: "scanner_step decode sort_by reg (on_adv_reports decode (rs :: unit timed_report list) reg)"
| window: "scanner_step decode sort_by reg (snd (print_snapshot sort_by now_ms reg))"

inductive scanner_reachable ::
  "(u8 list \<Rightarrow> adv_structure list) \<Rightarrow> (device_entry option list \<Rightarrow> device_entry option list)
   \<Rightarrow> device_registry \<Rightarrow> bool"
  for decode sort_by where
  start: "scanner_reachable decode sort_by registry_new"
| step: "\<lbrakk>scanner_reachable decode sort_by reg; scanner_step decode sort_by reg reg'\<rbrakk> \<Longrightarrow>
     scanner_reachable decode sort_by reg'"

inductive_cases scanner_stepE: "scanner_step decode sort_by reg reg'"

subsection \<open>Well-formedness and the abstract table\<close>

text \<open>
  An entry's sum lies between the least and the greatest sum its number of reports allows,
  also where the counters have saturated; so its averages fit a signed byte.
\<close>

definition average_ok :: "i16 \<Rightarrow> bool" where
  "average_ok a \<longleftrightarrow> - 128 \<le> sint a \<and> sint a \<le> 127"

definition entry_wf :: "device_entry \<Rightarrow> bool" where
  "entry_wf e \<longleftrightarrow>
     - 128 * uint (de_window_reports e) \<le> sint (de_window_rssi_sum e)
     \<and> sint (de_window_rssi_sum e) \<le> 127 * uint (de_window_reports e)
     \<and> (case de_previous_window_average e of None \<Rightarrow> True | Some a \<Rightarrow> average_ok a)"

definition unique_addresses :: "device_entry option list \<Rightarrow> bool" where
  "unique_addresses es \<longleftrightarrow>
     (\<forall>i < length es. \<forall>j < length es. \<forall>e f.
        es ! i = Some e \<and> es ! j = Some f \<and> de_address e = de_address f \<longrightarrow> i = j)"

definition registry_wf :: "device_registry \<Rightarrow> bool" where
  "registry_wf reg \<longleftrightarrow>
     length (dr_entries reg) = DEVICE_CAPACITY
     \<and> length (dr_previous_remembered reg) = REMEMBERED_DEVICE_CAPACITY
     \<and> unique_addresses (dr_entries reg)
     \<and> (\<forall>e. Some e \<in> set (dr_entries reg) \<longrightarrow> entry_wf e)"

text \<open>The table the registry implements: at most one entry per address.\<close>

definition lookup :: "device_entry option list \<Rightarrow> address \<Rightarrow> device_entry option" where
  "lookup es a = (case position (same_address a) es of None \<Rightarrow> None | Some i \<Rightarrow> es ! i)"

definition is_full :: "device_registry \<Rightarrow> bool" where
  "is_full reg \<longleftrightarrow> None \<notin> set (dr_entries reg)"

text \<open>What the removal of stale entries leaves of a slot.\<close>

definition stale_filter :: "u64 \<Rightarrow> device_entry option \<Rightarrow> device_entry option" where
  "stale_filter now e = (if is_stale_entry now e then None else e)"

text \<open>The average a seen device is ranked by.\<close>

definition average_of :: "device_entry \<Rightarrow> int" where
  "average_of e = sint (unwrap_or i16_MIN (window_average e))"

text \<open>A sequence of reports of one device: signal strength, metadata and time of each.\<close>

fun hear :: "i8 \<times> adv_metadata \<times> u64 \<Rightarrow> device_entry \<Rightarrow> device_entry" where
  "hear (rssi, md, now) e = update_entry rssi md now e"

text \<open>The structures that carry an iBeacon frame.\<close>

fun ibeacon_structure :: "adv_structure \<Rightarrow> bool" where
  "ibeacon_structure (ManufacturerSpecificData company payload) \<longleftrightarrow>
     company = 0x004c \<and> 23 \<le> length payload \<and> take 2 payload = [0x02, 0x15]"
| "ibeacon_structure _ \<longleftrightarrow> False"

text \<open>Reading a displayed name back: escapes removed, and no quote that is not escaped.\<close>

fun unescape :: "nat list \<Rightarrow> nat list" where
  "unescape [] = []"
| "unescape [c] = [c]"
| "unescape (c # d # cs) = (if c = 0x5C then d # unescape cs else c # unescape (d # cs))"

fun no_bare_quote :: "nat list \<Rightarrow> bool" where
  "no_bare_quote [] = True"
| "no_bare_quote [c] = (c \<noteq> 0x22 \<and> c \<noteq> 0x5C)"
| "no_bare_quote (c # d # cs) =
     (if c = 0x5C then no_bare_quote cs else c \<noteq> 0x22 \<and> no_bare_quote (d # cs))"

text \<open>A sort by insertion, and sample data, for evaluations.\<close>

fun strongest_insert :: "device_entry option \<Rightarrow> device_entry option list \<Rightarrow> device_entry option list" where
  "strongest_insert x [] = [x]"
| "strongest_insert x (y # ys) =
     (if option_le (average_rank y) (average_rank x) then x # y # ys else y # strongest_insert x ys)"

definition strongest_sort :: "device_entry option list \<Rightarrow> device_entry option list" where
  "strongest_sort xs = foldr strongest_insert xs []"

definition sample_address :: address where
  "sample_address = \<lparr>ad_kind = 1, ad_addr = [1, 2, 3, 4, 5, 6]\<rparr>"

definition sample_metadata :: adv_metadata where
  "sample_metadata = \<lparr>md_name = None, md_manufacturer = None, md_beacon = beacon_metadata_new\<rparr>"

definition sample_registry :: device_registry where
  "sample_registry = registry_record sample_address (- 60) sample_metadata 5 registry_new"

section \<open>Lemmas\<close>

subsection \<open>Searching\<close>

lemma position_Some:
  "position P xs = Some i \<longleftrightarrow> i < length xs \<and> P (xs ! i) \<and> (\<forall>j < i. \<not> P (xs ! j))"
proof (induction xs arbitrary: i)
  case (Cons x xs)
  show ?case
    by (cases i) (auto simp: Cons.IH less_Suc_eq_0_disj)
qed simp

lemma position_None: "position P xs = None \<longleftrightarrow> (\<forall>x \<in> set xs. \<not> P x)"
  by (induction xs) auto

lemma first_min_Some:
  "xs \<noteq> [] \<Longrightarrow> \<exists>i. first_min key xs = Some i \<and> i < length xs \<and> (\<forall>x \<in> set xs. key (xs ! i) \<le> key x)"
proof (induction xs)
  case (Cons x xs)
  show ?case
  proof (cases "xs = []")
    case False
    with Cons.IH obtain i where "first_min key xs = Some i" "i < length xs"
      "\<forall>x \<in> set xs. key (xs ! i) \<le> key x"
      by blast
    then show ?thesis
      by (cases "key x \<le> key (xs ! i)") (auto intro: order_trans)
  qed simp
qed simp

lemma same_address_iff: "same_address a entry \<longleftrightarrow> (\<exists>e. entry = Some e \<and> de_address e = a)"
  by (cases entry) (auto simp: same_address_def)

lemma lookup_None: "lookup es a = None \<longleftrightarrow> (\<forall>e. Some e \<in> set es \<longrightarrow> de_address e \<noteq> a)"
proof (cases "position (same_address a) es")
  case None
  then have "\<forall>x \<in> set es. \<not> same_address a x"
    by (simp add: position_None)
  with None show ?thesis
    by (auto simp: lookup_def same_address_iff)
next
  case (Some i)
  then have "i < length es" "\<exists>e. es ! i = Some e \<and> de_address e = a"
    by (simp_all add: position_Some same_address_iff)
  with Some show ?thesis
    by (auto simp: lookup_def) (metis nth_mem)
qed

lemma lookup_SomeD: "lookup es a = Some e \<Longrightarrow> Some e \<in> set es \<and> de_address e = a"
  by (auto simp: lookup_def position_Some same_address_iff split: option.splits) (metis nth_mem)

lemma lookup_Some:
  assumes "unique_addresses es"
  shows "lookup es a = Some e \<longleftrightarrow> Some e \<in> set es \<and> de_address e = a"
proof
  assume r: "Some e \<in> set es \<and> de_address e = a"
  then obtain i where i: "i < length es" "es ! i = Some e"
    by (auto simp: in_set_conv_nth)
  obtain f where f: "lookup es a = Some f"
    using r lookup_None [of es a] by (cases "lookup es a") auto
  then obtain j where "j < length es" "es ! j = Some f" "de_address f = a"
    using lookup_SomeD [OF f] by (auto simp: in_set_conv_nth)
  with i r assms have "i = j"
    by (auto simp: unique_addresses_def)
  with i f \<open>es ! j = Some f\<close> show "lookup es a = Some e"
    by simp
qed (rule lookup_SomeD)

text \<open>Writing an entry into a slot that holds no other entry of its address.\<close>

lemma unique_update:
  assumes "unique_addresses es" and "i < length es"
    and "\<And>j e. \<lbrakk>j < length es; j \<noteq> i; es ! j = Some e\<rbrakk> \<Longrightarrow> de_address e \<noteq> de_address x"
  shows "unique_addresses (es[i := Some x])"
  unfolding unique_addresses_def
proof (intro allI impI)
  fix j k e f
  assume "j < length (es[i := Some x])" "k < length (es[i := Some x])"
    and eq: "es[i := Some x] ! j = Some e \<and> es[i := Some x] ! k = Some f \<and> de_address e = de_address f"
  then have "j < length es" "k < length es"
    by simp_all
  with eq assms show "j = k"
    by (cases "j = i"; cases "k = i") (auto simp: unique_addresses_def)
qed

lemma lookup_update:
  assumes "unique_addresses es" and "i < length es"
    and other: "\<And>j e. \<lbrakk>j < length es; j \<noteq> i; es ! j = Some e\<rbrakk> \<Longrightarrow> de_address e \<noteq> de_address x"
  shows "lookup (es[i := Some x]) =
    (case es ! i of None \<Rightarrow> lookup es | Some y \<Rightarrow> (lookup es)(de_address y := None))(de_address x \<mapsto> x)"
proof
  fix a
  let ?new = "es[i := Some x]"
  have uniq: "unique_addresses ?new"
    by (rule unique_update [OF assms])
  have mem: "Some e \<in> set ?new \<longleftrightarrow> e = x \<or> (\<exists>j < length es. j \<noteq> i \<and> es ! j = Some e)" for e
    using assms(2) by (auto simp: in_set_conv_nth nth_list_update)
  have old: "(\<exists>j < length es. j \<noteq> i \<and> es ! j = Some e)
      \<longleftrightarrow> Some e \<in> set es \<and> (\<forall>y. es ! i = Some y \<longrightarrow> de_address y \<noteq> de_address e)" for e
    using assms(1,2) unfolding unique_addresses_def in_set_conv_nth by metis
  show "lookup ?new a = ((case es ! i of None \<Rightarrow> lookup es
      | Some y \<Rightarrow> (lookup es)(de_address y := None))(de_address x \<mapsto> x)) a"
  proof (cases "a = de_address x")
    case True
    then show ?thesis
      using lookup_Some [OF uniq, of a x] mem by simp
  next
    case False
    have "lookup ?new a = Some e \<longleftrightarrow>
        (case es ! i of None \<Rightarrow> lookup es | Some y \<Rightarrow> (lookup es)(de_address y := None)) a = Some e" for e
      using False by (cases "es ! i") (auto simp: lookup_Some [OF uniq] lookup_Some [OF assms(1)] mem old)
    then have "lookup ?new a =
        (case es ! i of None \<Rightarrow> lookup es | Some y \<Rightarrow> (lookup es)(de_address y := None)) a"
      by (metis not_None_eq)
    with False show ?thesis
      by (cases "es ! i") simp_all
  qed
qed

subsection \<open>Recording a report\<close>

text \<open>The table after a report: an update of a known device, or a new one, for which the
  least recently seen device makes room when all slots are taken.\<close>

lemma record_known:
  fixes rssi :: i8 and md :: adv_metadata and now :: u64
  assumes "unique_addresses (dr_entries reg)" and "lookup (dr_entries reg) a = Some e"
  defines "reg' \<equiv> registry_record a rssi md now reg"
  shows "lookup (dr_entries reg') = (lookup (dr_entries reg))(a \<mapsto> update_entry rssi md now e)"
    and "unique_addresses (dr_entries reg')"
    and "length (dr_entries reg') = length (dr_entries reg)"
    and "dr_window_evictions reg' = dr_window_evictions reg"
    and "dr_previous_remembered reg' = dr_previous_remembered reg"
    and "set (dr_entries reg') \<subseteq> insert (Some (update_entry rssi md now e)) (set (dr_entries reg))"
proof -
  let ?es = "dr_entries reg" and ?x = "update_entry rssi md now e"
  have x: "de_address ?x = de_address e"
    by (simp add: update_entry_def)
  from assms(2) obtain i where i: "position (same_address a) ?es = Some i" "?es ! i = Some e"
    by (auto simp: lookup_def split: option.splits)
  then have len: "i < length ?es" and a: "de_address e = a"
    by (simp_all add: position_Some same_address_iff)
  have reg': "reg' = reg\<lparr>dr_window_reports := dr_window_reports reg + 1, dr_entries := ?es[i := Some ?x]\<rparr>"
    using i by (simp add: reg'_def registry_record_def Let_def)
  have other: "de_address f \<noteq> de_address ?x" if "j < length ?es" "j \<noteq> i" "?es ! j = Some f" for j f
    using assms(1) that len i(2) x unfolding unique_addresses_def by metis
  show "unique_addresses (dr_entries reg')"
    using unique_update [OF assms(1) len other] by (simp add: reg')
  show "lookup (dr_entries reg') = (lookup ?es)(a \<mapsto> ?x)"
    using lookup_update [OF assms(1) len other] by (simp add: reg' i(2) x a)
  show "set (dr_entries reg') \<subseteq> insert (Some ?x) (set ?es)"
    by (simp add: reg' set_update_subset_insert)
qed (use assms(2) in \<open>auto simp: reg'_def registry_record_def Let_def lookup_def split: option.splits\<close>)

lemma record_new:
  fixes rssi :: i8 and md :: adv_metadata and now :: u64
  assumes "unique_addresses (dr_entries reg)" and "lookup (dr_entries reg) a = None"
    and "\<not> is_full reg"
  defines "reg' \<equiv> registry_record a rssi md now reg"
  shows "lookup (dr_entries reg') = (lookup (dr_entries reg))(a \<mapsto> new_entry a rssi md now)"
    and "unique_addresses (dr_entries reg')"
    and "length (dr_entries reg') = length (dr_entries reg)"
    and "dr_window_evictions reg' = dr_window_evictions reg"
    and "dr_previous_remembered reg' = dr_previous_remembered reg"
    and "set (dr_entries reg') \<subseteq> insert (Some (new_entry a rssi md now)) (set (dr_entries reg))"
proof -
  let ?es = "dr_entries reg" and ?x = "new_entry a rssi md now"
  have x: "de_address ?x = a"
    by (simp add: new_entry_def)
  obtain i where free: "position (\<lambda>e. e = None) ?es = Some i"
    using assms(3) by (cases "position (\<lambda>e. e = None) ?es") (auto simp: is_full_def position_None)
  then have len: "i < length ?es" and i: "?es ! i = None"
    by (simp_all add: position_Some)
  have unknown: "de_address f \<noteq> a" if "Some f \<in> set ?es" for f
    using assms(2) that by (simp add: lookup_None)
  then have none: "position (same_address a) ?es = None"
    by (auto simp: position_None same_address_iff)
  have reg': "reg' = reg\<lparr>dr_window_reports := dr_window_reports reg + 1, dr_entries := ?es[i := Some ?x]\<rparr>"
    using none free by (simp add: reg'_def registry_record_def Let_def)
  have other: "de_address f \<noteq> de_address ?x" if "j < length ?es" "j \<noteq> i" "?es ! j = Some f" for j f
    using that unknown [of f] nth_mem [of j ?es] by (simp add: x)
  show "unique_addresses (dr_entries reg')"
    using unique_update [OF assms(1) len other] by (simp add: reg')
  show "lookup (dr_entries reg') = (lookup ?es)(a \<mapsto> ?x)"
    using lookup_update [OF assms(1) len other] by (simp add: reg' i x)
  show "set (dr_entries reg') \<subseteq> insert (Some ?x) (set ?es)"
    by (simp add: reg' set_update_subset_insert)
  show "length (dr_entries reg') = length ?es" "dr_window_evictions reg' = dr_window_evictions reg"
    "dr_previous_remembered reg' = dr_previous_remembered reg"
    by (simp_all add: reg')
qed

lemma record_evicting:
  fixes rssi :: i8 and md :: adv_metadata and now :: u64
  assumes "unique_addresses (dr_entries reg)" and "lookup (dr_entries reg) a = None"
    and "is_full reg" and "dr_entries reg \<noteq> []"
  defines "reg' \<equiv> registry_record a rssi md now reg"
  shows "\<exists>v. lookup (dr_entries reg) (de_address v) = Some v
      \<and> (\<forall>b e. lookup (dr_entries reg) b = Some e \<longrightarrow> de_last_seen_ms v \<le> de_last_seen_ms e)
      \<and> lookup (dr_entries reg') =
          ((lookup (dr_entries reg))(de_address v := None))(a \<mapsto> new_entry a rssi md now)"
    and "unique_addresses (dr_entries reg')"
    and "length (dr_entries reg') = length (dr_entries reg)"
    and "dr_window_evictions reg' = dr_window_evictions reg + 1"
    and "dr_previous_remembered reg' = dr_previous_remembered reg"
    and "set (dr_entries reg') \<subseteq> insert (Some (new_entry a rssi md now)) (set (dr_entries reg))"
proof -
  let ?es = "dr_entries reg" and ?x = "new_entry a rssi md now"
  have x: "de_address ?x = a"
    by (simp add: new_entry_def)
  obtain i where oldest: "first_min eviction_key ?es = Some i" and len: "i < length ?es"
    and least: "\<forall>y \<in> set ?es. eviction_key (?es ! i) \<le> eviction_key y"
    using first_min_Some [OF assms(4), of eviction_key] by blast
  obtain v where v: "?es ! i = Some v"
    using assms(3) len nth_mem [OF len] by (cases "?es ! i") (auto simp: is_full_def)
  have unknown: "de_address f \<noteq> a" if "Some f \<in> set ?es" for f
    using assms(2) that by (simp add: lookup_None)
  then have none: "position (same_address a) ?es = None"
    by (auto simp: position_None same_address_iff)
  have full: "position (\<lambda>e. e = None) ?es = None"
    using assms(3) unfolding position_None is_full_def by metis
  have reg': "reg' = reg\<lparr>dr_window_reports := dr_window_reports reg + 1,
      dr_window_evictions := dr_window_evictions reg + 1, dr_entries := ?es[i := Some ?x]\<rparr>"
    using none full oldest by (simp add: reg'_def registry_record_def Let_def)
  have other: "de_address f \<noteq> de_address ?x" if "j < length ?es" "j \<noteq> i" "?es ! j = Some f" for j f
    using that unknown [of f] nth_mem [of j ?es] by (simp add: x)
  show "unique_addresses (dr_entries reg')"
    using unique_update [OF assms(1) len other] by (simp add: reg')
  show "\<exists>v. lookup ?es (de_address v) = Some v
      \<and> (\<forall>b e. lookup ?es b = Some e \<longrightarrow> de_last_seen_ms v \<le> de_last_seen_ms e)
      \<and> lookup (dr_entries reg') = ((lookup ?es)(de_address v := None))(a \<mapsto> ?x)"
  proof (intro exI [of _ v] conjI allI impI)
    show "lookup ?es (de_address v) = Some v"
      using v nth_mem [OF len] by (simp add: lookup_Some [OF assms(1)])
    show "de_last_seen_ms v \<le> de_last_seen_ms e" if "lookup ?es b = Some e" for b e
      using lookup_SomeD [OF that] least by (force simp: v eviction_key_def)
    show "lookup (dr_entries reg') = ((lookup ?es)(de_address v := None))(a \<mapsto> ?x)"
      using lookup_update [OF assms(1) len other] by (simp add: reg' v x)
  qed
  show "set (dr_entries reg') \<subseteq> insert (Some ?x) (set ?es)"
    by (simp add: reg' set_update_subset_insert)
  show "length (dr_entries reg') = length ?es" "dr_window_evictions reg' = dr_window_evictions reg + 1"
    "dr_previous_remembered reg' = dr_previous_remembered reg"
    by (simp_all add: reg')
qed

subsection \<open>Sums and averages\<close>

lemma sint_clamped:
  "sint (i32_saturating_add a b) = max (- (2 ^ 31)) (min (2 ^ 31 - 1) (sint a + sint b))"
proof -
  have "signed_take_bit 31 x = x" if "- (2 ^ 31) \<le> x" "x < 2 ^ 31" for x :: int
    using that by (simp add: signed_take_bit_int_eq_self)
  then show ?thesis
    by (simp add: i32_saturating_add_def sint_sbintrunc')
qed

lemma sint_i8_bounds: "- 128 \<le> sint (w :: i8)" "sint (w :: i8) \<le> 127"
  using sint_greater_eq [of w] sint_less [of w] by simp_all

lemma sint_widen: "sint (scast (w :: i8) :: i32) = sint w"
proof -
  have "signed_take_bit 31 (sint w) = sint w"
    using sint_i8_bounds [of w] by (simp add: signed_take_bit_int_eq_self)
  then show ?thesis
    by (simp add: signed_scast_eq)
qed

lemma sdiv_bounds:
  fixes s r :: int
  assumes "0 < r" and "- 128 * r \<le> s" and "s \<le> 127 * r"
  shows "- 128 \<le> s sdiv r" "s sdiv r \<le> 127"
proof -
  have "\<bar>s\<bar> div r \<le> 127" if "0 \<le> s"
    using that assms zdiv_mono1 [of s "127 * r" r] by simp
  moreover have "\<bar>s\<bar> div r \<le> 128" if "s < 0"
  proof -
    have "\<bar>s\<bar> \<le> 128 * r"
      using that assms by simp
    then have "\<bar>s\<bar> div r \<le> (128 * r) div r"
      using assms(1) by (intro zdiv_mono1)
    then show ?thesis
      using assms(1) by simp
  qed
  moreover have "0 \<le> \<bar>s\<bar> div r"
    using assms(1) by (simp add: pos_imp_zdiv_nonneg_iff)
  ultimately show "- 128 \<le> s sdiv r" "s sdiv r \<le> 127"
    using assms(1) by (auto simp: signed_divide_int_def sgn_if)
qed

lemma window_average_quotient:
  assumes "de_window_reports e \<noteq> 0"
    and "- 128 * uint (de_window_reports e) \<le> sint (de_window_rssi_sum e)"
    and "sint (de_window_rssi_sum e) \<le> 127 * uint (de_window_reports e)"
  shows "\<exists>w. window_average e = Some w \<and> average_ok w
    \<and> sint w = sint (de_window_rssi_sum e) sdiv uint (de_window_reports e)"
proof -
  let ?q = "sint (de_window_rssi_sum e) sdiv uint (de_window_reports e)"
  have "0 < uint (de_window_reports e)"
    using assms(1) by (simp add: order_less_le uint_0_iff)
  then have q: "- 128 \<le> ?q" "?q \<le> 127"
    using sdiv_bounds [of "uint (de_window_reports e)" "sint (de_window_rssi_sum e)"] assms(2,3)
    by simp_all
  then have "sint (word_of_int ?q :: i16) = ?q"
    by (simp add: sint_sbintrunc' signed_take_bit_int_eq_self)
  with q assms(1) show ?thesis
    by (simp add: window_average_def average_ok_def)
qed

lemma window_average_exact:
  assumes "entry_wf e" and "de_window_reports e \<noteq> 0"
  shows "\<exists>w. window_average e = Some w \<and> average_ok w
    \<and> sint w = sint (de_window_rssi_sum e) sdiv uint (de_window_reports e)"
  using window_average_quotient [OF assms(2)] assms(1) by (simp add: entry_wf_def)

lemma uint_saturating_add_1: "uint (saturating_add (r :: u32) 1) = min (uint r + 1) (2 ^ 32 - 1)"
proof -
  have "uint (saturating_add r 1) = int (unat (saturating_add r 1))"
    by simp
  also have "\<dots> = int (min (unat r + 1) (2 ^ 32 - 1))"
    by (simp add: unat_saturating_add)
  also have "\<dots> = min (uint r + 1) (2 ^ 32 - 1)"
    by (simp add: of_nat_min)
  finally show ?thesis .
qed

lemma entry_wf_new: "entry_wf (new_entry a rssi md now)"
  using sint_i8_bounds [of rssi] by (simp add: entry_wf_def new_entry_def sint_widen)

lemma entry_wf_update:
  assumes "entry_wf e"
  shows "entry_wf (update_entry rssi md now e)"
proof -
  let ?s = "sint (de_window_rssi_sum e)" and ?r = "uint (de_window_reports e)"
  have s: "- 128 * ?r \<le> ?s" "?s \<le> 127 * ?r"
    using assms by (simp_all add: entry_wf_def)
  have r: "0 \<le> ?r"
    by simp
  have lo: "- 128 * min (?r + 1) (2 ^ 32 - 1) \<le> max (- (2 ^ 31)) (min (2 ^ 31 - 1) (?s + sint rssi))"
    using s r sint_i8_bounds [of rssi] by (simp add: min_def max_def)
  have hi: "max (- (2 ^ 31)) (min (2 ^ 31 - 1) (?s + sint rssi)) \<le> 127 * min (?r + 1) (2 ^ 32 - 1)"
    using s r sint_i8_bounds [of rssi] by (simp add: min_def max_def)
  have fields: "de_previous_window_average (update_entry rssi md now e) = de_previous_window_average e"
    "sint (de_window_rssi_sum (update_entry rssi md now e)) = max (- (2 ^ 31)) (min (2 ^ 31 - 1) (?s + sint rssi))"
    "uint (de_window_reports (update_entry rssi md now e)) = min (?r + 1) (2 ^ 32 - 1)"
    by (simp_all add: update_entry_def sint_clamped sint_widen uint_saturating_add_1)
  from lo hi assms show ?thesis
    unfolding entry_wf_def fields by blast
qed

lemma end_window_simps [simp]:
  "de_address (end_window_entry e) = de_address e"
  "de_window_reports (end_window_entry e) = 0"
  "de_window_rssi_sum (end_window_entry e) = 0"
  "de_window_peak_rssi (end_window_entry e) = i8_MIN"
  "de_last_seen_ms (end_window_entry e) = de_last_seen_ms e"
  "de_name (end_window_entry e) = de_name e"
  "de_manufacturer (end_window_entry e) = de_manufacturer e"
  "de_beacon (end_window_entry e) = de_beacon e"
  "de_previous_window_average (end_window_entry e) =
     (case window_average e of Some a \<Rightarrow> Some a | None \<Rightarrow> de_previous_window_average e)"
  by (simp_all add: end_window_entry_def Let_def split: option.split)

lemma entry_wf_end: "entry_wf e \<Longrightarrow> entry_wf (end_window_entry e)"
  using window_average_exact [of e]
  by (cases "de_window_reports e = 0") (auto simp: entry_wf_def window_average_def split: option.splits)

subsection \<open>The invariant\<close>

lemma unique_map:
  assumes "unique_addresses es" and "f None = None"
    and same: "\<And>e e'. f (Some e) = Some e' \<Longrightarrow> de_address e' = de_address e"
  shows "unique_addresses (map f es)"
  unfolding unique_addresses_def
proof (intro allI impI)
  fix i j e g
  assume "i < length (map f es)" "j < length (map f es)"
    and eq: "map f es ! i = Some e \<and> map f es ! j = Some g \<and> de_address e = de_address g"
  then have len: "i < length es" "j < length es"
    by simp_all
  with eq assms(2) obtain x y where "es ! i = Some x" "es ! j = Some y"
    by (cases "es ! i"; cases "es ! j") auto
  with eq len same have "de_address x = de_address y"
    by (metis nth_map)
  with len \<open>es ! i = Some x\<close> \<open>es ! j = Some y\<close> assms(1) show "i = j"
    by (auto simp: unique_addresses_def)
qed

lemma lookup_map:
  assumes "unique_addresses es" and "f None = None"
    and same: "\<And>e e'. f (Some e) = Some e' \<Longrightarrow> de_address e' = de_address e"
  shows "lookup (map f es) a = Option.bind (lookup es a) (\<lambda>e. f (Some e))"
proof -
  have mem: "Some x \<in> set (map f es) \<longleftrightarrow> (\<exists>e. Some e \<in> set es \<and> f (Some e) = Some x)" for x
  proof -
    have "\<exists>e. y = Some e" if "f y = Some x" for y
      using that assms(2) by (cases y) auto
    then show ?thesis
      by (auto simp: image_iff) (metis, metis)
  qed
  have uniq: "unique_addresses (map f es)"
    by (rule unique_map) (fact assms(1), fact assms(2), erule same)
  have "lookup (map f es) a = Some x \<longleftrightarrow> Option.bind (lookup es a) (\<lambda>e. f (Some e)) = Some x" for x
    unfolding lookup_Some [OF uniq] mem bind_eq_Some_conv lookup_Some [OF assms(1)]
    using same by metis
  then show ?thesis
    by (metis not_None_eq)
qed

lemma length_fill_remembered [simp]: "length (fill_remembered es) = REMEMBERED_DEVICE_CAPACITY"
  by (simp add: fill_remembered_def)

lemma registry_wf_new: "registry_wf registry_new"
  by (auto simp: registry_wf_def registry_new_def unique_addresses_def)

lemma registry_wf_record:
  assumes "registry_wf reg"
  shows "registry_wf (registry_record a rssi md now reg)"
proof -
  let ?es = "dr_entries reg" and ?reg = "registry_record a rssi md now reg"
  have u: "unique_addresses ?es" and len: "length ?es = DEVICE_CAPACITY"
    and wf: "\<And>e. Some e \<in> set ?es \<Longrightarrow> entry_wf e"
    and rem: "length (dr_previous_remembered reg) = REMEMBERED_DEVICE_CAPACITY"
    using assms by (simp_all add: registry_wf_def)
  from len have ne: "?es \<noteq> []"
    by (auto simp: DEVICE_CAPACITY_def)
  obtain x where "unique_addresses (dr_entries ?reg)" "length (dr_entries ?reg) = length ?es"
    "dr_previous_remembered ?reg = dr_previous_remembered reg" "entry_wf x"
    "set (dr_entries ?reg) \<subseteq> insert (Some x) (set ?es)"
  proof (cases "lookup ?es a")
    case (Some e)
    then have "entry_wf (update_entry rssi md now e)"
      using wf lookup_SomeD [OF Some] by (blast intro: entry_wf_update)
    then show ?thesis
      by (rule that [OF record_known(2,3,5) [OF u Some] _ record_known(6) [OF u Some]])
  next
    case None
    show ?thesis
    proof (cases "is_full reg")
      case True
      show ?thesis
        by (rule that [OF record_evicting(2,3,5) [OF u None True ne] entry_wf_new
              record_evicting(6) [OF u None True ne]])
    next
      case False
      show ?thesis
        by (rule that [OF record_new(2,3,5) [OF u None False] entry_wf_new
              record_new(6) [OF u None False]])
    qed
  qed
  with wf len rem show ?thesis
    by (auto simp: registry_wf_def)
qed

lemma registry_wf_reports:
  "registry_wf reg \<Longrightarrow> registry_wf (on_adv_reports decode rs reg)"
proof (induction decode rs reg rule: on_adv_reports.induct)
  case (3 decode now e rs reg)
  then have "registry_wf (record_malformed_report reg)"
    by (simp add: registry_wf_def record_malformed_report_def)
  with 3 show ?case by simp
qed (simp_all add: handler_record_def registry_wf_record)

lemma stale_filter_None [simp]: "stale_filter now None = None"
  by (simp add: stale_filter_def)

lemma stale_filter_Some: "stale_filter now (Some e) = Some e' \<Longrightarrow> e' = e"
  by (simp add: stale_filter_def split: if_splits)

lemma remove_stale_entries: "dr_entries (remove_stale now reg) = map (stale_filter now) (dr_entries reg)"
  by (simp add: remove_stale_def stale_filter_def)

lemma registry_wf_remove_stale: "registry_wf reg \<Longrightarrow> registry_wf (remove_stale now reg)"
  unfolding registry_wf_def remove_stale_entries
  by (auto simp: remove_stale_def stale_filter_def intro!: unique_map split: if_splits)

lemma print_snapshot_registry:
  "snd (print_snapshot sort_by now reg) =
     (remove_stale now reg)
       \<lparr>dr_entries := map (map_option end_window_entry) (dr_entries (remove_stale now reg)),
        dr_window_reports := 0, dr_window_malformed_reports := 0, dr_window_evictions := 0,
        dr_previous_remembered := fill_remembered (seen (sort_by (dr_entries (remove_stale now reg))))\<rparr>"
  by (simp add: print_snapshot_def take_snapshot_def Let_def)

lemma registry_wf_snapshot:
  assumes "registry_wf reg"
  shows "registry_wf (snd (print_snapshot sort_by now reg))"
proof -
  let ?reg = "remove_stale now reg"
  have "registry_wf ?reg"
    by (rule registry_wf_remove_stale [OF assms])
  then show ?thesis
    unfolding print_snapshot_registry registry_wf_def
    by (auto intro!: unique_map entry_wf_end dest: sym [of "Some _"])
qed

lemma reachable_wf: "scanner_reachable decode sort_by reg \<Longrightarrow> registry_wf reg"
proof (induction rule: scanner_reachable.induct)
  case (step reg reg')
  from step.hyps(2) step.IH show ?case
    by (auto elim!: scanner_stepE simp: registry_wf_reports registry_wf_snapshot)
qed (rule registry_wf_new)

subsection \<open>The printed report\<close>

lemma flatten_mset: "mset xs = mset ys \<Longrightarrow> mset (flatten xs) = mset (flatten ys)"
proof -
  have "mset (flatten zs) = image_mset the (filter_mset (\<lambda>x. x \<noteq> None) (mset zs))" for zs :: "'a option list"
    by (simp add: flatten_def List.map_filter_def comp_def)
  then show "mset xs = mset ys \<Longrightarrow> ?thesis"
    by simp
qed

lemma set_flatten: "x \<in> set (flatten xs) \<longleftrightarrow> Some x \<in> set xs"
  by (auto simp: flatten_def List.map_filter_def) force

lemma seen_mset: "mset xs = mset ys \<Longrightarrow> mset (seen xs) = mset (seen ys)"
  using flatten_mset [of xs ys] by (simp add: seen_def mset_filter)

lemma set_seen: "e \<in> set (seen xs) \<longleftrightarrow> Some e \<in> set xs \<and> de_window_reports e > 0"
  by (simp add: seen_def set_flatten)

lemma seen_sorted:
  assumes "sorts_strongest_first sort_by"
  shows "sorted_wrt (\<lambda>l r. average_of r \<le> average_of l) (seen (sort_by xs))"
proof -
  have "sorted_wrt (\<lambda>l r. option_le (average_rank (Some r)) (average_rank (Some l))) (flatten ys)"
    if "sorted_wrt (\<lambda>l r. option_le (average_rank r) (average_rank l)) ys" for ys
    using that
    by (induction ys) (auto simp: flatten_def List.map_filter_simps set_flatten [unfolded flatten_def]
        split: option.splits)
  then have "sorted_wrt (\<lambda>l r. option_le (average_rank (Some r)) (average_rank (Some l))) (flatten (sort_by xs))"
    using assms by (simp add: sorts_strongest_first_def)
  then have "sorted_wrt (\<lambda>l r. option_le (average_rank (Some r)) (average_rank (Some l))) (seen (sort_by xs))"
    by (simp add: seen_def sorted_wrt_filter)
  then show ?thesis
  proof (rule sorted_wrt_mono_rel [rotated])
    fix l r
    assume "l \<in> set (seen (sort_by xs))" "r \<in> set (seen (sort_by xs))"
      "option_le (average_rank (Some r)) (average_rank (Some l))"
    then show "average_of r \<le> average_of l"
      by (auto simp: set_seen average_rank_def average_of_def window_average_def)
  qed
qed

lemma sorted_wrt_take_drop:
  "\<lbrakk>sorted_wrt P xs; x \<in> set (take n xs); y \<in> set (drop n xs)\<rbrakk> \<Longrightarrow> P x y"
  using sorted_wrt_append [of P "take n xs" "drop n xs"] by simp

lemma reports_step:
  "- (2 ^ 31) \<le> sint (de_window_rssi_sum e) + sint rssi \<Longrightarrow>
   sint (de_window_rssi_sum e) + sint rssi < 2 ^ 31 \<Longrightarrow> unat (de_window_reports e) < 2 ^ 32 - 1 \<Longrightarrow>
   sint (de_window_rssi_sum (update_entry rssi md now e)) = sint (de_window_rssi_sum e) + sint rssi
   \<and> unat (de_window_reports (update_entry rssi md now e)) = Suc (unat (de_window_reports e))"
  by (simp add: update_entry_def sint_clamped sint_widen unat_saturating_add)

lemma sum_sint_bounds:
  "- 128 * int (length xs) \<le> (\<Sum>r \<leftarrow> xs. sint (fst r :: i8)) \<and> (\<Sum>r \<leftarrow> xs. sint (fst r)) \<le> 127 * int (length xs)"
proof (induction xs)
  case (Cons x xs)
  then show ?case
    using sint_i8_bounds [of "fst x"] by simp
qed simp

lemma window_statistics:
  assumes "length rs \<le> 2 ^ 24"
  shows "sint (de_window_rssi_sum (fold hear rs (end_window_entry e)))
      = (\<Sum>r \<leftarrow> rs. sint (fst r))
    \<and> unat (de_window_reports (fold hear rs (end_window_entry e)))
      = length rs
    \<and> sint (de_window_peak_rssi (fold hear rs (end_window_entry e)))
      = Max (insert (- 128) ((\<lambda>r. sint (fst r)) ` set rs))"
  using assms
proof (induction rs rule: rev_induct)
  case Nil
  then show ?case
    by (simp add: i8_MIN_def)
next
  case (snoc r rs)
  obtain rssi md now where r: "r = (rssi, md, now)"
    by (rule prod_cases3)
  let ?e = "fold hear rs (end_window_entry e)"
  have IH: "sint (de_window_rssi_sum ?e) = (\<Sum>r \<leftarrow> rs. sint (fst r))"
    "unat (de_window_reports ?e) = length rs"
    "sint (de_window_peak_rssi ?e) = Max (insert (- 128) ((\<lambda>r. sint (fst r)) ` set rs))"
    using snoc by simp_all
  have len: "length rs < 2 ^ 24"
    using snoc.prems by simp
  have step: "sint (de_window_rssi_sum (update_entry rssi md now ?e)) = sint (de_window_rssi_sum ?e) + sint rssi
      \<and> unat (de_window_reports (update_entry rssi md now ?e)) = Suc (unat (de_window_reports ?e))"
  proof (rule reports_step)
    show "- (2 ^ 31) \<le> sint (de_window_rssi_sum ?e) + sint rssi"
      "sint (de_window_rssi_sum ?e) + sint rssi < 2 ^ 31"
      using sum_sint_bounds [of rs] len sint_i8_bounds [of rssi] by (simp_all add: IH)
    show "unat (de_window_reports ?e) < 2 ^ 32 - 1"
      using len by (simp add: IH)
  qed
  have peak: "sint (de_window_peak_rssi (update_entry rssi md now ?e)) = max (sint (de_window_peak_rssi ?e)) (sint rssi)"
    by (simp add: update_entry_def i8_max_def max_def)
  have "Max (insert (- 128) ((\<lambda>r. sint (fst r)) ` set (rs @ [r])))
      = max (Max (insert (- 128) ((\<lambda>r. sint (fst r)) ` set rs))) (sint rssi)"
    by (simp add: r insert_commute max.commute)
  with step peak show ?case
    by (simp add: r IH)
qed

lemma merge_assoc: "merge (merge a b) c = merge a (merge b c)"
  by (simp add: merge_def ac_simps)

lemma format_bits:
  "bit BEACON_FORMAT_IBEACON 0" "\<not> bit BEACON_FORMAT_ALTBEACON 0" "\<not> bit (eddystone_format data) 0"
  by (auto simp: BEACON_FORMAT_IBEACON_def BEACON_FORMAT_ALTBEACON_def eddystone_format_def
      BEACON_FORMAT_EDDYSTONE_UID_def BEACON_FORMAT_EDDYSTONE_URL_def BEACON_FORMAT_EDDYSTONE_TLM_def
      BEACON_FORMAT_EDDYSTONE_EID_def bit_simps split: list.splits)

lemma parse_structure_ibeacon:
  "bit (bm_formats (md_beacon (parse_structure x m))) 0
     \<longleftrightarrow> bit (bm_formats (md_beacon m)) 0 \<or> ibeacon_structure x"
  by (cases x) (auto simp: add_formats_def Let_def bit_or_iff format_bits)

lemma parse_ibeacon:
  "bit (bm_formats (md_beacon (fold parse_structure xs m))) 0
     \<longleftrightarrow> bit (bm_formats (md_beacon m)) 0 \<or> list_ex ibeacon_structure xs"
  by (induction xs arbitrary: m) (auto simp: parse_structure_ibeacon)

lemma local_name_from_bytes_ok:
  assumes "local_name_from_bytes v = Some n"
  shows "local_name_as_str n = v" "utf8_valid v" "length v \<in> {1..29}"
proof -
  from assms have len: "v \<noteq> []" "length v \<le> 29" and u: "utf8_valid v"
    and n: "n = \<lparr>ln_bytes = copy_prefix (replicate LOCAL_NAME_CAPACITY 0) v, ln_len = of_nat (length v)\<rparr>"
    by (auto simp: local_name_from_bytes_def LOCAL_NAME_CAPACITY_def from_utf8_def split: if_splits)
  from len have "unat (of_nat (length v) :: u8) = length v"
    by (simp add: unat_of_nat_id)
  then show "local_name_as_str n = v" "utf8_valid v" "length v \<in> {1..29}"
    using len u by (simp_all add: n local_name_as_str_def Suc_le_eq)
qed

interpretation local_name_store: bounded_store LOCAL_NAME_CAPACITY "\<lambda>_. True"
  "\<lambda>v. v \<noteq> [] \<and> length v \<le> LOCAL_NAME_CAPACITY \<and> utf8_valid v" "\<lambda>v. ok_or () (local_name_from_bytes v)"
  local_name_as_str "\<lambda>n. unat (ln_len n)"
proof unfold_locales
  show "local_name_as_str b = v" if "ok_or () (local_name_from_bytes v) = Inr b" for v b
    using that local_name_from_bytes_ok(1) [of v b] by simp
  show "unat (ln_len b) = length v" if "ok_or () (local_name_from_bytes v) = Inr b" for v b
    using that by (auto simp: local_name_from_bytes_def LOCAL_NAME_CAPACITY_def unat_of_nat_id split: if_splits)
qed (auto simp: local_name_from_bytes_def from_utf8_def)

lemma unescape_plain: "c \<noteq> 0x5C \<Longrightarrow> unescape (c # cs) = c # unescape cs"
  by (cases cs) simp_all

lemma no_bare_quote_plain: "c \<noteq> 0x5C \<Longrightarrow> no_bare_quote (c # cs) \<longleftrightarrow> c \<noteq> 0x22 \<and> no_bare_quote cs"
  by (cases cs) simp_all

lemma unescape_display:
  "unescape (concat (map display_char cs)) = map (\<lambda>c. if is_control c then 0x2E else c) cs
   \<and> no_bare_quote (concat (map display_char cs))"
proof (induction cs)
  case (Cons c cs)
  have "\<not> is_control 0x22" "\<not> is_control 0x5C"
    by (simp_all add: is_control_def)
  with Cons show ?case
    by (auto simp: display_char_def unescape_plain no_bare_quote_plain)
qed simp

lemma display_char_printable: "c \<in> set (display_char d) \<Longrightarrow> \<not> is_control c"
proof -
  have "\<not> is_control 0x22" "\<not> is_control 0x5C" "\<not> is_control 0x2E"
    by (simp_all add: is_control_def)
  then show "c \<in> set (display_char d) \<Longrightarrow> \<not> is_control c"
    by (auto simp: display_char_def split: if_splits)
qed

lemma display_printable: "c \<in> set (concat (map display_char cs)) \<Longrightarrow> \<not> is_control c"
  using display_char_printable [of c] by auto

lemma matches_address_iff: "matches_address p a \<longleftrightarrow> dd_address p = a"
  by (auto simp: matches_address_def)

lemma lost_devices_eq:
  "lost_devices previous entries =
     filter (\<lambda>p. \<forall>e \<in> set (seen entries). de_address e \<noteq> dd_address p) (flatten previous)"
  unfolding lost_devices_def
  by (rule filter_cong) (auto simp: list_ex_iff matches_address_iff set_seen set_flatten)

lemma flatten_fill: "flatten (fill_remembered es) = map from_entry (take REMEMBERED_DEVICE_CAPACITY es)"
proof -
  have "flatten (map (\<lambda>e. Some (from_entry e)) xs @ replicate n None) = map from_entry xs" for xs n
    by (induction xs) (simp_all add: flatten_def List.map_filter_def)
  then show ?thesis
    by (simp add: fill_remembered_def copy_prefix_def)
qed

subsection \<open>Samples\<close>

lemma option_le_total: "\<not> option_le b a \<Longrightarrow> option_le a b"
  by (cases a; cases b) auto

lemma option_le_trans: "option_le a b \<Longrightarrow> option_le b c \<Longrightarrow> option_le a c"
  by (cases a; cases b; cases c) auto

lemma strongest_insert_mset: "mset (strongest_insert x ys) = add_mset x (mset ys)"
  by (induction ys) auto

lemma strongest_insert_sorted:
  "sorted_wrt (\<lambda>l r. option_le (average_rank r) (average_rank l)) ys \<Longrightarrow>
     sorted_wrt (\<lambda>l r. option_le (average_rank r) (average_rank l)) (strongest_insert x ys)"
proof (induction ys)
  case (Cons y ys)
  have set: "set (strongest_insert x ys) = insert x (set ys)"
    using strongest_insert_mset [of x ys] by (metis set_mset_add_mset_insert set_mset_mset)
  show ?case
    using Cons by (auto simp: set dest: option_le_total intro: option_le_trans)
qed simp

lemma strongest_sort_ok: "sorts_strongest_first strongest_sort"
proof -
  have "mset (strongest_sort xs) = mset xs
      \<and> sorted_wrt (\<lambda>l r. option_le (average_rank r) (average_rank l)) (strongest_sort xs)" for xs
    by (induction xs) (simp_all add: strongest_sort_def strongest_insert_mset strongest_insert_sorted)
  then show ?thesis
    by (simp add: sorts_strongest_first_def)
qed

lemma registry_new_lookup: "lookup (dr_entries registry_new) a = None"
  by (simp add: lookup_None registry_new_def)

lemma sample_registry_lookup:
  "lookup (dr_entries sample_registry) sample_address = Some (new_entry sample_address (- 60) sample_metadata 5)"
proof -
  have "unique_addresses (dr_entries registry_new)" "\<not> is_full registry_new"
    using registry_wf_new by (simp_all add: registry_wf_def is_full_def registry_new_def DEVICE_CAPACITY_def)
  from record_new(1) [OF this(1) registry_new_lookup this(2)] show ?thesis
    by (simp add: sample_registry_def)
qed

lemma sample_registry_reachable: "scanner_reachable (\<lambda>_. []) strongest_sort sample_registry"
proof -
  let ?r = "\<lparr>ar_address = sample_address, ar_rssi = - 60, ar_data = []\<rparr>"
  have "sample_registry = on_adv_reports (\<lambda>_. []) [(5, Inr ?r) :: unit timed_report] registry_new"
    by (simp add: sample_registry_def handler_record_def metadata_parse_def sample_metadata_def)
  then show ?thesis
    by (rule ssubst) (rule scanner_reachable.step [OF scanner_reachable.start scanner_step.reports])
qed

section \<open>Properties\<close>

text \<open>
  C5. The registry stays well-formed: whatever reports arrive and whenever windows end, it
  has 128 slots and 48 remembered ones, no address occupies two slots, and the average of
  every device fits a signed byte, is the exact truncated quotient, and can be subtracted from
  the previous one without overflow, however many reports there were.
\<close>

theorem scanner_invariant:
  assumes "scanner_reachable decode sort_by reg" and "Some e \<in> set (dr_entries reg)"
    and "de_window_reports e \<noteq> 0"
  shows "length (dr_entries reg) = 128 \<and> length (dr_previous_remembered reg) = 48
    \<and> unique_addresses (dr_entries reg)
    \<and> (\<exists>w. window_average e = Some w
         \<and> sint w = sint (de_window_rssi_sum e) sdiv uint (de_window_reports e)
         \<and> - 128 \<le> sint w \<and> sint w \<le> 127
         \<and> (\<forall>p. de_previous_window_average e = Some p \<longrightarrow> sint (w - p) = sint w - sint p))"
proof -
  have wf: "registry_wf reg"
    using assms(1) by (rule reachable_wf)
  then have e: "entry_wf e"
    using assms(2) by (simp add: registry_wf_def)
  obtain w where w: "window_average e = Some w" "average_ok w"
    "sint w = sint (de_window_rssi_sum e) sdiv uint (de_window_reports e)"
    using window_average_exact [OF e assms(3)] by blast
  have "sint (w - p) = sint w - sint p" if "de_previous_window_average e = Some p" for p
  proof -
    have "average_ok p"
      using e that by (simp add: entry_wf_def)
    with w(2) have "signed_take_bit 15 (sint w - sint p) = sint w - sint p"
      by (intro signed_take_bit_int_eq_self) (simp_all add: average_ok_def)
    then show ?thesis
      by (simp add: sint_word_ariths(2))
  qed
  with w wf show ?thesis
    by (simp add: registry_wf_def DEVICE_CAPACITY_def REMEMBERED_DEVICE_CAPACITY_def average_ok_def)
qed

theorem scanner_invariant_witness:
  "length (dr_entries sample_registry) = 128
   \<and> window_average (new_entry sample_address (- 60) sample_metadata 5) \<noteq> None"
proof -
  have "Some (new_entry sample_address (- 60) sample_metadata 5) \<in> set (dr_entries sample_registry)"
    using lookup_SomeD [OF sample_registry_lookup] by blast
  from scanner_invariant [OF sample_registry_reachable this] show ?thesis
    by (auto simp: new_entry_def)
qed

text \<open>
  C6. Recording a report updates a table of devices: the reported device gets its entry
  updated or a new entry, and every other device keeps its entry, except that a device not
  known before takes the place of a least recently seen one when all 128 slots are taken,
  which is counted as an eviction.
\<close>

theorem record_refines_table:
  fixes a :: address and rssi :: i8 and md :: adv_metadata and now :: u64
  assumes "registry_wf reg"
  defines "reg' \<equiv> registry_record a rssi md now reg"
  shows "lookup (dr_entries reg') a =
      Some (case lookup (dr_entries reg) a of
              Some e \<Rightarrow> update_entry rssi md now e | None \<Rightarrow> new_entry a rssi md now)
    \<and> (if lookup (dr_entries reg) a = None \<and> is_full reg
       then \<exists>v. lookup (dr_entries reg) (de_address v) = Some v
         \<and> (\<forall>b e. lookup (dr_entries reg) b = Some e \<longrightarrow> de_last_seen_ms v \<le> de_last_seen_ms e)
         \<and> (\<forall>b. b \<noteq> a \<longrightarrow> lookup (dr_entries reg') b =
              (if b = de_address v then None else lookup (dr_entries reg) b))
         \<and> dr_window_evictions reg' = dr_window_evictions reg + 1
       else (\<forall>b. b \<noteq> a \<longrightarrow> lookup (dr_entries reg') b = lookup (dr_entries reg) b)
         \<and> dr_window_evictions reg' = dr_window_evictions reg)"
proof -
  have u: "unique_addresses (dr_entries reg)"
    using assms(1) by (simp add: registry_wf_def)
  have ne: "dr_entries reg \<noteq> []"
    using assms(1) by (auto simp: registry_wf_def DEVICE_CAPACITY_def)
  show ?thesis
  proof (cases "lookup (dr_entries reg) a")
    case (Some e)
    then show ?thesis
      using record_known(1,4) [OF u Some] by (simp add: reg'_def)
  next
    case None
    show ?thesis
    proof (cases "is_full reg")
      case False
      with None show ?thesis
        using record_new(1,4) [OF u None False] by (simp add: reg'_def)
    next
      case True
      obtain v where "lookup (dr_entries reg) (de_address v) = Some v"
        "\<forall>b e. lookup (dr_entries reg) b = Some e \<longrightarrow> de_last_seen_ms v \<le> de_last_seen_ms e"
        "lookup (dr_entries reg') =
          ((lookup (dr_entries reg))(de_address v := None))(a \<mapsto> new_entry a rssi md now)"
        using record_evicting(1) [OF u None True ne] unfolding reg'_def by blast
      with None True show ?thesis
        using record_evicting(4) [OF u None True ne] by (auto simp: reg'_def)
    qed
  qed
qed

theorem record_refines_table_witness:
  "lookup (dr_entries (registry_record sample_address (- 40) sample_metadata 9 sample_registry)) sample_address
     = Some (update_entry (- 40) sample_metadata 9 (new_entry sample_address (- 60) sample_metadata 5))"
proof -
  have "registry_wf sample_registry"
    by (rule reachable_wf [OF sample_registry_reachable])
  from record_refines_table [OF this, of sample_address "- 40" sample_metadata 9] show ?thesis
    by (simp add: sample_registry_lookup)
qed







text \<open>
  A device name cannot forge the log: what is printed for a name contains no control
  character and no quote that is not escaped between the two that enclose it, and reading the
  escapes back gives the name's characters with the control characters replaced by dots.
\<close>

lemma displayed_name_safe:
  assumes "local_name_from_bytes v = Some n"
  shows "\<exists>cs body. chars v = Some cs \<and> display_name (Some n) = 0x22 # body @ [0x22]
    \<and> no_bare_quote body \<and> (\<forall>c \<in> set body. \<not> is_control c)
    \<and> unescape body = map (\<lambda>c. if is_control c then 0x2E else c) cs"
proof -
  obtain cs where cs: "chars v = Some cs"
    using local_name_from_bytes_ok(2) [OF assms] by (auto simp: utf8_valid_def)
  show ?thesis
    using cs unescape_display [of cs] display_printable [of _ cs] local_name_from_bytes_ok(1) [OF assms]
    by (intro exI [of _ cs] exI [of _ "concat (map display_char cs)"]) (simp add: display_name_def)
qed

text \<open>
  iBeacon frames are recognised: an advertisement is marked as an iBeacon exactly when
  one of its structures is Apple manufacturer data of at least 23 bytes with the iBeacon
  prefix, and later reports of the device never take a recognised format away.
\<close>

lemma ibeacon_recognised:
  "(bm_formats (md_beacon (metadata_parse decode data)) AND BEACON_FORMAT_IBEACON \<noteq> 0
      \<longleftrightarrow> list_ex ibeacon_structure (decode data))
   \<and> (bm_formats (de_beacon e) AND f \<noteq> 0 \<longrightarrow>
        bm_formats (de_beacon (update_entry rssi md now e)) AND f \<noteq> 0)
   \<and> (is_beacon (de_beacon e) \<longrightarrow> is_beacon (de_beacon (update_entry rssi md now e)))"
proof (intro conjI impI)
  have "w AND 1 \<noteq> 0 \<longleftrightarrow> bit w 0" for w :: u8
    by (simp add: and_one_eq bit_0 odd_iff_mod_2_eq_one mod2_eq_if)
  then show "bm_formats (md_beacon (metadata_parse decode data)) AND BEACON_FORMAT_IBEACON \<noteq> 0
      \<longleftrightarrow> list_ex ibeacon_structure (decode data)"
    by (simp add: metadata_parse_def parse_ibeacon beacon_metadata_new_def BEACON_FORMAT_IBEACON_def)
  show "bm_formats (de_beacon (update_entry rssi md now e)) AND f \<noteq> 0"
    if "bm_formats (de_beacon e) AND f \<noteq> 0"
    using that by (simp add: update_entry_def merge_def bit.conj_disj_distrib2 or_eq_0_iff)
  show "is_beacon (de_beacon (update_entry rssi md now e))" if "is_beacon (de_beacon e)"
    using that by (auto simp: is_beacon_def update_entry_def merge_def or_eq_0_iff)
qed

end
