(* ===== verification/Scanner_Task.thy ===== *)
theory Scanner_Task
  imports Scanner Hardware Bluetooth
begin

text \<open>
  The running scanner image, \<open>main\<close>, \<open>scanner_task\<close> and \<open>bluetooth_runner\<close> of
  \<open>firmware/seeed/xiao-esp32c6-beacon-scanner\<close>: two loops on one executor that share the
  registry, with their timers, and the text of what they print. What the host stack does and
  when the timers fire are the events of the step function \<open>scanner_task_step\<close>.
\<close>

section \<open>Definitions\<close>

subsection \<open>The printed text\<close>

definition SCAN_WINDOW_MS :: nat where
  "SCAN_WINDOW_MS = 5000"

definition SCAN_INTERVAL_MS :: nat where
  "SCAN_INTERVAL_MS = 100"

text \<open>A line of the console as code points, because names may hold any character.\<close>

type_synonym line = "nat list"

definition ascii :: "str \<Rightarrow> line" where
  "ascii s = map unat s"

definition average_cell :: "device_row \<Rightarrow> str" where
  "average_cell r = pad_right 5 (fmt_int (sint (row_average r)))"

definition device_line :: "(address \<Rightarrow> str) \<Rightarrow> device_row \<Rightarrow> line" where
  "device_line show_address r =
     (let e = row_entry r
      in ascii (average_cell r @ lit '' '' @ rssi_delta_display (row_delta r) @ lit '' ''
           @ pad_right 4 (fmt_int (sint (de_window_peak_rssi e))) @ lit '' ''
           @ pad_right 5 (fmt_dec (unat (row_age_ms r))) @ lit '' ''
           @ pad_right 4 (fmt_dec (unat (de_window_reports e))) @ lit '' ''
           @ address_kind_display (ad_kind (de_address e)) @ lit ''  ''
           @ show_address (de_address e) @ lit '' '' @ manufacturer_display (de_manufacturer e)
           @ lit '' '' @ beacon_label_display (de_beacon e) @ lit '' '')
         @ display_name (de_name e))"

definition beacon_line :: "(address \<Rightarrow> str) \<Rightarrow> device_row \<Rightarrow> line" where
  "beacon_line show_address r =
     (let e = row_entry r
      in ascii (average_cell r @ lit '' '' @ rssi_delta_display (row_delta r) @ lit '' ''
           @ show_address (de_address e) @ lit '' '' @ manufacturer_display (de_manufacturer e)
           @ lit '' '' @ beacon_label_display (de_beacon e) @ lit '' '')
         @ display_name (de_name e))"

definition lost_line :: "(address \<Rightarrow> str) \<Rightarrow> displayed_device \<times> u64 \<Rightarrow> line" where
  "lost_line show_address row =
     (let (d, age_ms) = row
      in ascii (pad_right 5 (fmt_int (sint (dd_average_rssi d))) @ lit '' ''
           @ pad_right 5 (fmt_dec (unat age_ms)) @ lit '' ''
           @ address_kind_display (ad_kind (dd_address d)) @ lit ''  ''
           @ show_address (dd_address d) @ lit '' '' @ manufacturer_display (dd_manufacturer d)
           @ lit '' '' @ beacon_label_display (dd_beacon d) @ lit '' '')
         @ display_name (dd_name d))"

definition report_lines :: "(address \<Rightarrow> str) \<Rightarrow> scan_report \<Rightarrow> line list" where
  "report_lines show_address rep =
     [ascii (lit ''Seen '' @ fmt_dec (sr_count rep) @ lit '' devices (''
        @ fmt_dec (unat (sr_packets rep)) @ lit '' packets, ''
        @ fmt_dec (unat (sr_malformed rep)) @ lit '' malformed, ''
        @ fmt_dec (unat (sr_evicted rep)) @ lit '' evicted); showing strongest ''
        @ fmt_dec (sr_shown rep)),
      ascii (lit ''  AVG DELTA  MAX AGEms PKTS KIND ADDRESS             MFG    BEACON NAME'')]
     @ map (device_line show_address) (sr_rows rep)
     @ (if sr_beacon_count rep > 0
        then [ascii (lit ''Detected beacons: '' @ fmt_dec (sr_beacon_count rep)
                @ lit ''; showing strongest '' @ fmt_dec (min (sr_beacon_count rep) BEACON_DISPLAY_LIMIT)),
              ascii (lit ''  AVG DELTA ADDRESS             MFG    BEACON NAME'')]
             @ map (beacon_line show_address) (sr_beacon_rows rep)
        else [])
     @ (if sr_lost_count rep > 0
        then [ascii (lit ''Lost since previous scan: '' @ fmt_dec (sr_lost_count rep)
                @ lit ''; showing strongest '' @ fmt_dec (min (sr_lost_count rep) SNAPSHOT_DISPLAY_LIMIT)),
              ascii (lit '' LAST AGEms KIND ADDRESS             MFG    BEACON NAME'')]
             @ map (lost_line show_address) (sr_lost_rows rep)
        else [])
     @ [[]]"

subsection \<open>The two loops\<close>

datatype scanner_log =
  ScanningStarted | ScanStartFailed | ScanRunnerFailed | WindowReported scan_report

fun scanner_console :: "(address \<Rightarrow> str) \<Rightarrow> scanner_log \<Rightarrow> line list" where
  "scanner_console show_address ScanningStarted =
     [ascii (lit ''Scanning for '' @ fmt_dec (SCAN_WINDOW_MS div 1000) @ lit ''s...'')]"
| "scanner_console show_address ScanStartFailed =
     [ascii (lit ''embedded-sdk beacon scanner scan start failed; retrying'')]"
| "scanner_console show_address ScanRunnerFailed =
     [ascii (lit ''embedded-sdk beacon scanner host runner failed; retrying'')]"
| "scanner_console show_address (WindowReported rep) = report_lines show_address rep"

text \<open>
  Where the loops stand. \<open>bluetooth_runner\<close> lets the host run, or waits for the time at which
  it tries again; the scan loop is about to start a scan, has a window open, or waits to try
  again. Deadlines are natural numbers, so they do not wrap.
\<close>

datatype runner_state = HostRuns | HostWaits nat

datatype scan_state = ScanStarts | WindowOpen nat | ScanWaits nat

record scanner_system =
  sy_clock :: u64
  sy_registry :: device_registry
  sy_runner :: runner_state
  sy_scan :: scan_state
  sy_log :: "(u64 \<times> scanner_log) list"

text \<open>
  What can happen: the running host delivers reports to the handler or returns, with an error
  or without; the host answers the request to scan; a timer fires.
\<close>

datatype 'e scanner_event =
  HostReports "'e timed_report list" | HostReturns bool | HostTimer | ScanAnswer bool | ScanTimer

fun event_times :: "'e scanner_event \<Rightarrow> u64 list" where
  "event_times (HostReports rs) = map fst rs"
| "event_times _ = []"

definition say :: "u64 \<Rightarrow> scanner_log \<Rightarrow> scanner_system \<Rightarrow> scanner_system" where
  "say t entry s = s\<lparr>sy_log := sy_log s @ [(t, entry)]\<rparr>"

text \<open>\<open>bluetooth_runner\<close>: after a run that failed it waits a second.\<close>

fun runner_step ::
  "(u8 list \<Rightarrow> adv_structure list) \<Rightarrow> u64 \<Rightarrow> 'e scanner_event \<Rightarrow> scanner_system \<Rightarrow> scanner_system option" where
  "runner_step decode t (HostReports rs) s =
     (if sy_runner s = HostRuns
      then Some (s\<lparr>sy_registry := on_adv_reports decode rs (sy_registry s)\<rparr>) else None)"
| "runner_step decode t (HostReturns is_err) s =
     (if sy_runner s = HostRuns
      then Some (if is_err then say t ScanRunnerFailed (s\<lparr>sy_runner := HostWaits (unat t + 1000)\<rparr>) else s)
      else None)"
| "runner_step decode t HostTimer s =
     (case sy_runner s of
        HostRuns \<Rightarrow> None
      | HostWaits deadline \<Rightarrow>
          if deadline \<le> unat t then Some (s\<lparr>sy_runner := HostRuns\<rparr>) else None)"
| "runner_step decode t _ s = None"

text \<open>The scan loop: a window that has been open for its time ends with the report.\<close>

fun scan_step ::
  "(device_entry option list \<Rightarrow> device_entry option list) \<Rightarrow> u64 \<Rightarrow> 'e scanner_event \<Rightarrow> scanner_system
   \<Rightarrow> scanner_system option" where
  "scan_step sort_by t (ScanAnswer ok) s =
     (if sy_scan s = ScanStarts
      then Some (if ok then say t ScanningStarted (s\<lparr>sy_scan := WindowOpen (unat t + SCAN_WINDOW_MS)\<rparr>)
                 else say t ScanStartFailed (s\<lparr>sy_scan := ScanWaits (unat t + 1000)\<rparr>))
      else None)"
| "scan_step sort_by t ScanTimer s =
     (case sy_scan s of
        ScanStarts \<Rightarrow> None
      | WindowOpen deadline \<Rightarrow>
          if deadline \<le> unat t
          then let (rep, reg) = print_snapshot sort_by t (sy_registry s)
               in Some (say t (WindowReported rep) (s\<lparr>sy_registry := reg, sy_scan := ScanStarts\<rparr>))
          else None
      | ScanWaits deadline \<Rightarrow>
          if deadline \<le> unat t then Some (s\<lparr>sy_scan := ScanStarts\<rparr>) else None)"
| "scan_step sort_by t _ s = None"

text \<open>
  \<open>scanner_task\<close>: the executor runs either loop when it can go on, and the clock never goes
  back. \<^const>\<open>None\<close>: the event cannot happen now.
\<close>

definition scanner_task_step ::
  "(u8 list \<Rightarrow> adv_structure list) \<Rightarrow> (device_entry option list \<Rightarrow> device_entry option list)
   \<Rightarrow> u64 \<times> 'e scanner_event \<Rightarrow> scanner_system \<Rightarrow> scanner_system option" where
  "scanner_task_step decode sort_by te s =
     (let (t, ev) = te
      in if sorted (sy_clock s # event_times ev @ [t])
         then map_option (sy_clock_update (\<lambda>_. t))
           (case runner_step decode t ev s of Some s' \<Rightarrow> Some s' | None \<Rightarrow> scan_step sort_by t ev s)
         else None)"

fun scanner_run ::
  "(u8 list \<Rightarrow> adv_structure list) \<Rightarrow> (device_entry option list \<Rightarrow> device_entry option list)
   \<Rightarrow> (u64 \<times> 'e scanner_event) list \<Rightarrow> scanner_system \<Rightarrow> scanner_system option" where
  "scanner_run decode sort_by [] s = Some s"
| "scanner_run decode sort_by (te # tes) s =
     Option.bind (scanner_task_step decode sort_by te s) (scanner_run decode sort_by tes)"

definition scanner_task :: "u64 \<Rightarrow> scanner_system" where
  "scanner_task now =
     \<lparr>sy_clock = now, sy_registry = registry_new, sy_runner = HostRuns, sy_scan = ScanStarts, sy_log = []\<rparr>"

text \<open>
  \<open>main\<close>: the lines it prints, and the scanner with the address and the scan
  parameters its host is given, or the message
  of a controller that does not come up, after which the image only waits.
\<close>

definition boot_lines :: "str list" where
  "boot_lines =
     [lit ''embedded-sdk beacon scanner boot: board='' @ hw_board HARDWARE @ lit '', chip='' @ hw_chip HARDWARE,
      lit ''embedded-sdk beacon scanner output: scan_window_ms='' @ fmt_dec SCAN_WINDOW_MS
        @ lit '', stale_after_ms='' @ fmt_dec (unat DEVICE_STALE_AFTER_MS)
        @ lit '', capacity='' @ fmt_dec DEVICE_CAPACITY
        @ lit '', remembered='' @ fmt_dec REMEMBERED_DEVICE_CAPACITY
        @ lit '', displayed='' @ fmt_dec SNAPSHOT_DISPLAY_LIMIT]"

record scan_config =
  sc_active :: bool
  sc_interval_ms :: nat
  sc_window_ms :: nat

definition scanner_config :: scan_config where
  "scanner_config = \<lparr>sc_active = True, sc_interval_ms = SCAN_INTERVAL_MS, sc_window_ms = SCAN_INTERVAL_MS\<rparr>"

definition scanner_main ::
  "u8 list \<Rightarrow> (controller_config \<Rightarrow> ('b, 'e) result) \<Rightarrow> ('e \<Rightarrow> str) \<Rightarrow> u64
   \<Rightarrow> (u8 \<times> bool) list \<times> str list \<times> (u8 list \<times> scan_config \<times> scanner_system) option" where
  "scanner_main mac init show_init now =
     ([(15, True), (3, False), (14, False)],
      case esp_bt_new_with_config init (controller_config_default\<lparr>cc_max_connections := Some 1\<rparr>) of
        Inr bluetooth \<Rightarrow>
          (boot_lines, Some (to_hci_bytes (esp_static_random_address mac), scanner_config, scanner_task now))
      | Inl error \<Rightarrow>
          (boot_lines @ [lit ''embedded-sdk beacon scanner controller init failed: ''
             @ esp_bt_error_display show_init error], None))"

subsection \<open>Specifications\<close>

text \<open>The reports a run has printed, and the reports of devices it has been given.\<close>

fun reports_of :: "(u64 \<times> scanner_log) list \<Rightarrow> (u64 \<times> scan_report) list" where
  "reports_of [] = []"
| "reports_of ((t, WindowReported rep) # log) = (t, rep) # reports_of log"
| "reports_of ((t, _) # log) = reports_of log"

definition printed_reports :: "scanner_system \<Rightarrow> (u64 \<times> scan_report) list" where
  "printed_reports s = reports_of (sy_log s)"

fun event_reports :: "u64 \<times> 'e scanner_event \<Rightarrow> 'e timed_report list" where
  "event_reports (t, HostReports rs) = rs"
| "event_reports _ = []"

definition delivered :: "(u64 \<times> 'e scanner_event) list \<Rightarrow> 'e timed_report list" where
  "delivered tes = concat (map event_reports tes)"

text \<open>The entries of the scan loop in the log, and how one may follow another.\<close>

fun scan_entry :: "u64 \<times> scanner_log \<Rightarrow> bool" where
  "scan_entry (t, entry) \<longleftrightarrow> entry \<noteq> ScanRunnerFailed"

fun is_report :: "scanner_log \<Rightarrow> bool" where
  "is_report (WindowReported rep) = True"
| "is_report _ = False"

fun scan_follows :: "u64 \<times> scanner_log \<Rightarrow> u64 \<times> scanner_log \<Rightarrow> bool" where
  "scan_follows (t, ScanningStarted) (t', x) \<longleftrightarrow> is_report x \<and> unat t + 5000 \<le> unat t'"
| "scan_follows (t, ScanStartFailed) (t', x) \<longleftrightarrow> \<not> is_report x \<and> unat t + 1000 \<le> unat t'"
| "scan_follows (t, WindowReported rep) (t', x) \<longleftrightarrow> \<not> is_report x \<and> t \<le> t'"
| "scan_follows (t, ScanRunnerFailed) (t', x) \<longleftrightarrow> False"

text \<open>Nothing the registry knows was seen in the future.\<close>

definition seen_by :: "u64 \<Rightarrow> device_registry \<Rightarrow> bool" where
  "seen_by now reg \<longleftrightarrow>
     (\<forall>e. Some e \<in> set (dr_entries reg) \<longrightarrow> de_last_seen_ms e \<le> now)
     \<and> (\<forall>d. Some d \<in> set (dr_previous_remembered reg) \<longrightarrow> dd_last_seen_ms d \<le> now)"

definition report_fresh :: "u64 \<Rightarrow> scan_report \<Rightarrow> bool" where
  "report_fresh now rep \<longleftrightarrow>
     (\<forall>r \<in> set (sr_rows rep @ sr_beacon_rows rep).
        unat (row_age_ms r) + unat (de_last_seen_ms (row_entry r)) = unat now \<and> unat (row_age_ms r) \<le> 15000)
     \<and> (\<forall>(d, age) \<in> set (sr_lost_rows rep). unat age + unat (dd_last_seen_ms d) = unat now)"

section \<open>Lemmas\<close>

subsection \<open>Runs\<close>

lemma scanner_run_append:
  "scanner_run decode sort_by (xs @ ys) s =
     Option.bind (scanner_run decode sort_by xs s) (scanner_run decode sort_by ys)"
proof (induction xs arbitrary: s)
  case (Cons x xs)
  then show ?case
    by (cases "scanner_task_step decode sort_by x s") simp_all
qed simp

text \<open>Induction over a run, by its last event.\<close>

lemma scanner_run_induct [consumes 1, case_names start step]:
  assumes "scanner_run decode sort_by tes (scanner_task t0) = Some s"
    and "P [] (scanner_task t0)"
    and "\<And>tes te s s'. \<lbrakk>scanner_run decode sort_by tes (scanner_task t0) = Some s; P tes s;
      scanner_task_step decode sort_by te s = Some s'\<rbrakk> \<Longrightarrow> P (tes @ [te]) s'"
  shows "P tes s"
  using assms(1)
proof (induction tes arbitrary: s rule: rev_induct)
  case (snoc te tes)
  then obtain s1 where "scanner_run decode sort_by tes (scanner_task t0) = Some s1"
    "scanner_task_step decode sort_by te s1 = Some s"
    by (auto simp: scanner_run_append bind_eq_Some_conv)
  with snoc.IH show ?case
    by (blast intro: assms(3))
qed (use assms(2) in simp)

text \<open>A step either belongs to the runner or to the scan loop.\<close>

lemma scanner_task_step_cases:
  assumes "scanner_task_step decode sort_by (t, ev) s = Some s'"
  obtains (reports) rs where "ev = HostReports rs" "sorted (sy_clock s # map fst rs @ [t])"
      "s' = s\<lparr>sy_clock := t, sy_registry := on_adv_reports decode rs (sy_registry s)\<rparr>"
  | (returned) "ev = HostReturns False" "sy_clock s \<le> t" "s' = s\<lparr>sy_clock := t\<rparr>"
  | (runner_failed) "ev = HostReturns True" "sy_clock s \<le> t" "sy_runner s = HostRuns"
      "s' = s\<lparr>sy_clock := t, sy_runner := HostWaits (unat t + 1000),
              sy_log := sy_log s @ [(t, ScanRunnerFailed)]\<rparr>"
  | (runner_retries) deadline where "ev = HostTimer" "sy_clock s \<le> t" "sy_runner s = HostWaits deadline"
      "deadline \<le> unat t" "s' = s\<lparr>sy_clock := t, sy_runner := HostRuns\<rparr>"
  | (scanning) "ev = ScanAnswer True" "sy_clock s \<le> t" "sy_scan s = ScanStarts"
      "s' = s\<lparr>sy_clock := t, sy_scan := WindowOpen (unat t + 5000),
              sy_log := sy_log s @ [(t, ScanningStarted)]\<rparr>"
  | (scan_failed) "ev = ScanAnswer False" "sy_clock s \<le> t" "sy_scan s = ScanStarts"
      "s' = s\<lparr>sy_clock := t, sy_scan := ScanWaits (unat t + 1000),
              sy_log := sy_log s @ [(t, ScanStartFailed)]\<rparr>"
  | (window) deadline where "ev = ScanTimer" "sy_clock s \<le> t" "sy_scan s = WindowOpen deadline"
      "deadline \<le> unat t"
      "s' = s\<lparr>sy_clock := t, sy_registry := snd (print_snapshot sort_by t (sy_registry s)),
              sy_scan := ScanStarts,
              sy_log := sy_log s @ [(t, WindowReported (fst (print_snapshot sort_by t (sy_registry s))))]\<rparr>"
  | (scan_retries) deadline where "ev = ScanTimer" "sy_clock s \<le> t" "sy_scan s = ScanWaits deadline"
      "deadline \<le> unat t" "s' = s\<lparr>sy_clock := t, sy_scan := ScanStarts\<rparr>"
proof (cases ev)
  case (HostReports rs)
  with assms that(1) show ?thesis
    by (auto simp: scanner_task_step_def split: if_splits)
next
  case (HostReturns b)
  with assms that(2, 3) show ?thesis
    by (cases b) (auto simp: scanner_task_step_def say_def split: if_splits)
next
  case HostTimer
  with assms that(4) show ?thesis
    by (auto simp: scanner_task_step_def split: if_splits runner_state.splits)
next
  case (ScanAnswer b)
  with assms that(5, 6) show ?thesis
    by (cases b) (auto simp: scanner_task_step_def say_def SCAN_WINDOW_MS_def split: if_splits)
next
  case ScanTimer
  with assms that(7, 8) show ?thesis
    by (auto simp: scanner_task_step_def say_def Let_def case_prod_beta split: if_splits scan_state.splits)
qed

subsection \<open>Accounting\<close>

lemma registry_record_counts:
  "dr_window_reports (registry_record a rssi md now reg) = dr_window_reports reg + 1"
  "dr_window_malformed_reports (registry_record a rssi md now reg) = dr_window_malformed_reports reg"
  by (auto simp: registry_record_def Let_def split: option.splits prod.splits)

lemma on_adv_reports_counts:
  "dr_window_reports (on_adv_reports decode rs reg) =
     dr_window_reports reg + of_nat (length (filter (\<lambda>r. is_ok (snd r)) rs))
   \<and> dr_window_malformed_reports (on_adv_reports decode rs reg) =
     dr_window_malformed_reports reg + of_nat (length (filter (\<lambda>r. \<not> is_ok (snd r)) rs))"
  by (induction decode rs reg rule: on_adv_reports.induct)
    (simp_all add: handler_record_def registry_record_counts record_malformed_report_def add_ac)

lemma print_snapshot_counts:
  "sr_packets (fst (print_snapshot sort_by now reg)) = dr_window_reports reg"
  "sr_malformed (fst (print_snapshot sort_by now reg)) = dr_window_malformed_reports reg"
  "dr_window_reports (snd (print_snapshot sort_by now reg)) = 0"
  "dr_window_malformed_reports (snd (print_snapshot sort_by now reg)) = 0"
  by (simp_all add: print_snapshot_def take_snapshot_def remove_stale_def Let_def)

lemma reports_of_append [simp]: "reports_of (xs @ ys) = reports_of xs @ reports_of ys"
  by (induction xs rule: reports_of.induct) simp_all

lemma delivered_snoc: "delivered (tes @ [te]) = delivered tes @ event_reports te"
  by (simp add: delivered_def)

lemma run_accounts:
  assumes "scanner_run decode sort_by tes (scanner_task t0) = Some s"
  shows "(\<Sum>(t, rep) \<leftarrow> printed_reports s. sr_packets rep) + dr_window_reports (sy_registry s)
      = of_nat (length (filter (\<lambda>r. is_ok (snd r)) (delivered tes)))
    \<and> (\<Sum>(t, rep) \<leftarrow> printed_reports s. sr_malformed rep) + dr_window_malformed_reports (sy_registry s)
      = of_nat (length (filter (\<lambda>r. \<not> is_ok (snd r)) (delivered tes)))"
  using assms
proof (induction rule: scanner_run_induct)
  case start
  show ?case
    by (simp add: printed_reports_def delivered_def scanner_task_def registry_new_def)
next
  case (step tes te s s')
  obtain t ev where te: "te = (t, ev)"
    by fastforce
  note IH = step.IH [unfolded printed_reports_def]
  from step.hyps(2) [unfolded te] show ?case
    using IH
    by (cases rule: scanner_task_step_cases)
      (simp_all add: te delivered_snoc printed_reports_def on_adv_reports_counts print_snapshot_counts add_ac)
qed

subsection \<open>Pacing\<close>

text \<open>The state of the scan loop tells how its last entry in the log may be followed.\<close>

fun scan_state_ok :: "(u64 \<times> scanner_log) list \<Rightarrow> u64 \<Rightarrow> scan_state \<Rightarrow> bool" where
  "scan_state_ok log now ScanStarts \<longleftrightarrow>
     log = [] \<or> (\<exists>t rep. last log = (t, WindowReported rep) \<and> t \<le> now)
     \<or> (\<exists>t. last log = (t, ScanStartFailed) \<and> unat t + 1000 \<le> unat now)"
| "scan_state_ok log now (WindowOpen deadline) \<longleftrightarrow>
     (\<exists>t. log \<noteq> [] \<and> last log = (t, ScanningStarted) \<and> deadline = unat t + 5000)"
| "scan_state_ok log now (ScanWaits deadline) \<longleftrightarrow>
     (\<exists>t. log \<noteq> [] \<and> last log = (t, ScanStartFailed) \<and> deadline = unat t + 1000)"

lemma scan_state_later: "scan_state_ok log now st \<Longrightarrow> now \<le> t \<Longrightarrow> scan_state_ok log t st"
  by (cases st) (auto intro: order_trans simp: word_le_nat_alt)

lemma successively_snoc:
  "successively R (xs @ [x]) \<longleftrightarrow> successively R xs \<and> (xs = [] \<or> R (last xs) x)"
  by (auto simp: successively_append_iff)

lemma run_paced:
  assumes "scanner_run decode sort_by tes (scanner_task t0) = Some s"
  shows "successively scan_follows (filter scan_entry (sy_log s))
    \<and> scan_state_ok (filter scan_entry (sy_log s)) (sy_clock s) (sy_scan s)"
  using assms
proof (induction rule: scanner_run_induct)
  case start
  show ?case
    by (simp add: scanner_task_def)
next
  case (step tes te s s')
  obtain t ev where te: "te = (t, ev)"
    by fastforce
  have IH: "successively scan_follows (filter scan_entry (sy_log s))"
    and now: "scan_state_ok (filter scan_entry (sy_log s)) (sy_clock s) (sy_scan s)"
    using step.IH by blast+
  have later: "sy_clock s \<le> t \<Longrightarrow> scan_state_ok (filter scan_entry (sy_log s)) t (sy_scan s)"
    by (rule scan_state_later [OF now])
  from step.hyps(2) [unfolded te] show ?case
  proof (cases rule: scanner_task_step_cases)
    case (window deadline)
    with IH now show ?thesis
      by (auto simp: successively_snoc)
  next
    case (scan_retries deadline)
    with IH now show ?thesis
      by auto
  qed (use IH later in \<open>auto simp: successively_snoc\<close>)
qed

text \<open>Failures of the runner are a second apart.\<close>

fun runner_entry :: "u64 \<times> scanner_log \<Rightarrow> bool" where
  "runner_entry (t, entry) \<longleftrightarrow> entry = ScanRunnerFailed"

lemma run_runner_paced:
  assumes "scanner_run decode sort_by tes (scanner_task t0) = Some s"
  shows "successively (\<lambda>x y. unat (fst x) + 1000 \<le> unat (fst y)) (filter runner_entry (sy_log s))
    \<and> (filter runner_entry (sy_log s) \<noteq> [] \<longrightarrow>
         (case sy_runner s of
            HostRuns \<Rightarrow> unat (fst (last (filter runner_entry (sy_log s)))) + 1000 \<le> unat (sy_clock s)
          | HostWaits deadline \<Rightarrow> deadline = unat (fst (last (filter runner_entry (sy_log s)))) + 1000))"
  using assms
proof (induction rule: scanner_run_induct)
  case start
  show ?case
    by (simp add: scanner_task_def)
next
  case (step tes te s s')
  obtain t ev where te: "te = (t, ev)"
    by fastforce
  from step.hyps(2) [unfolded te] step.IH show ?case
    by (cases rule: scanner_task_step_cases)
      (auto simp: successively_snoc word_le_nat_alt split: runner_state.splits)
qed

subsection \<open>Freshness\<close>

lemma seen_by_later: "seen_by now reg \<Longrightarrow> now \<le> t \<Longrightarrow> seen_by t reg"
  by (auto simp: seen_by_def intro: order_trans)

lemma record_last_seen:
  assumes "Some e \<in> set (dr_entries (registry_record a rssi md now reg))"
  shows "Some e \<in> set (dr_entries reg) \<or> de_last_seen_ms e = now"
  using assms
  by (auto simp: registry_record_def Let_def update_entry_def new_entry_def
      split: option.splits prod.splits dest!: set_update_subset_insert [THEN subsetD]
      dest: sym [of "Some _"])

lemma seen_by_record:
  "seen_by now reg \<Longrightarrow> seen_by now (registry_record a rssi md now reg)"
proof -
  have "dr_previous_remembered (registry_record a rssi md now reg) = dr_previous_remembered reg"
    by (auto simp: registry_record_def Let_def split: option.splits prod.splits)
  then show "seen_by now reg \<Longrightarrow> ?thesis"
    by (auto simp: seen_by_def dest: record_last_seen)
qed

lemma seen_by_reports:
  "sorted (now # map fst rs @ [t]) \<Longrightarrow> seen_by now reg \<Longrightarrow> seen_by t (on_adv_reports decode rs reg)"
proof (induction decode rs reg arbitrary: now rule: on_adv_reports.induct)
  case (1 decode reg)
  then show ?case
    by (auto intro: seen_by_later)
next
  case (2 decode now_ms r rs reg)
  then show ?case
    by (auto simp: handler_record_def intro!: "2.IH" [of now_ms] seen_by_record intro: seen_by_later)
next
  case (3 decode now_ms e rs reg)
  have "seen_by now_ms (record_malformed_report reg)"
    using 3 seen_by_later [of now reg now_ms] by (simp add: seen_by_def record_malformed_report_def)
  with 3 show ?case
    by (auto intro!: "3.IH" [of now_ms])
qed

lemma saturating_sub_exact: "b \<le> a \<Longrightarrow> unat (saturating_sub a b) + unat b = unat a"
  by (simp add: unat_saturating_sub word_le_nat_alt)

lemma not_stale_age:
  "\<not> is_stale_entry now (Some e) \<Longrightarrow> unat (saturating_sub now (de_last_seen_ms e)) \<le> 15000"
  by (simp add: is_stale_entry_def DEVICE_STALE_AFTER_MS_def word_less_nat_alt)

lemma snapshot_fresh:
  assumes "sorts_strongest_first sort_by" and "seen_by now reg"
  shows "report_fresh now (fst (print_snapshot sort_by now reg))"
    and "seen_by now (snd (print_snapshot sort_by now reg))"
proof -
  let ?es = "map (stale_filter now) (dr_entries reg)" and ?s = "seen (sort_by (map (stale_filter now) (dr_entries reg)))"
  have set: "set ?s = set (seen ?es)"
    using assms(1) by (auto simp: sorts_strongest_first_def intro!: mset_eq_setD seen_mset)
  have heard: "de_last_seen_ms e \<le> now \<and> \<not> is_stale_entry now (Some e)" if "e \<in> set ?s" for e
  proof -
    have "Some e \<in> set ?es"
      using that unfolding set by (simp add: set_seen set_flatten)
    then have "Some e \<in> set (dr_entries reg)" "\<not> is_stale_entry now (Some e)"
      by (auto simp: stale_filter_def split: if_splits)
    with assms(2) show ?thesis
      by (simp add: seen_by_def)
  qed
  have row: "unat (row_age_ms (device_row_of now e)) + unat (de_last_seen_ms (row_entry (device_row_of now e))) = unat now
      \<and> unat (row_age_ms (device_row_of now e)) \<le> 15000" if "e \<in> set ?s" for e
    using heard [OF that] not_stale_age [of now e]
    by (simp add: device_row_of_def Let_def saturating_sub_exact)
  have rows: "sr_rows (fst (print_snapshot sort_by now reg)) = map (device_row_of now) (take 12 ?s)"
    "sr_beacon_rows (fst (print_snapshot sort_by now reg)) =
       map (device_row_of now) (take 24 (filter (\<lambda>e. is_beacon (de_beacon e)) ?s))"
    "sr_lost_rows (fst (print_snapshot sort_by now reg)) =
       map (\<lambda>d. (d, saturating_sub now (dd_last_seen_ms d)))
         (take 12 (lost_devices (dr_previous_remembered reg) (sort_by ?es)))"
    by (simp_all add: print_snapshot_def take_snapshot_def Let_def remove_stale_entries
        SNAPSHOT_DISPLAY_LIMIT_def BEACON_DISPLAY_LIMIT_def) (simp add: remove_stale_def)
  have lost: "dd_last_seen_ms d \<le> now" if "d \<in> set (lost_devices (dr_previous_remembered reg) xs)" for d xs
    using that assms(2) by (simp add: lost_devices_def set_flatten seen_by_def)
  show "report_fresh now (fst (print_snapshot sort_by now reg))"
    unfolding report_fresh_def rows
    using row lost by (auto simp: saturating_sub_exact dest!: in_set_takeD)
  have "\<forall>e \<in> set ?s. de_last_seen_ms e \<le> now"
    using heard by blast
  then have "dd_last_seen_ms d \<le> now" if "Some d \<in> set (fill_remembered ?s)" for d
    using that by (auto simp: flatten_fill from_entry_def simp flip: set_flatten dest!: in_set_takeD)
  moreover have "de_last_seen_ms e \<le> now" if "Some e \<in> map_option end_window_entry ` set ?es" for e
    using that assms(2)
    by (auto simp: seen_by_def stale_filter_def end_window_entry_def Let_def split: if_splits option.splits
        dest!: sym [of "Some _"])
  ultimately show "seen_by now (snd (print_snapshot sort_by now reg))"
    unfolding seen_by_def print_snapshot_registry by (simp add: remove_stale_entries image_image)
qed

lemma run_fresh:
  assumes "scanner_run decode sort_by tes (scanner_task t0) = Some s" and "sorts_strongest_first sort_by"
  shows "(\<forall>(t, rep) \<in> set (printed_reports s). report_fresh t rep) \<and> seen_by (sy_clock s) (sy_registry s)"
  using assms(1)
proof (induction rule: scanner_run_induct)
  case start
  show ?case
    by (simp add: scanner_task_def printed_reports_def seen_by_def registry_new_def)
next
  case (step tes te s s')
  obtain t ev where te: "te = (t, ev)"
    by fastforce
  have IH: "\<forall>(t, rep) \<in> set (reports_of (sy_log s)). report_fresh t rep"
    and now: "seen_by (sy_clock s) (sy_registry s)"
    using step.IH by (simp_all add: printed_reports_def)
  have later: "sy_clock s \<le> t \<Longrightarrow> seen_by t (sy_registry s)"
    by (rule seen_by_later [OF now])
  from step.hyps(2) [unfolded te] show ?case
    by (cases rule: scanner_task_step_cases)
      (use IH later snapshot_fresh [OF assms(2), of t "sy_registry s"] seen_by_reports [OF _ now]
        in \<open>simp_all add: printed_reports_def\<close>)
qed

text \<open>The running scanner only takes the steps of the registry.\<close>

lemma run_reachable:
  fixes tes :: "(u64 \<times> unit scanner_event) list"
  assumes "scanner_run decode sort_by tes (scanner_task t0) = Some s"
  shows "scanner_reachable decode sort_by (sy_registry s)"
  using assms
proof (induction rule: scanner_run_induct)
  case start
  show ?case
    by (simp add: scanner_task_def scanner_reachable.start)
next
  case (step tes te s s')
  obtain t ev where te: "te = (t, ev)"
    by fastforce
  from step.hyps(2) [unfolded te] step.IH show ?case
    by (cases rule: scanner_task_step_cases)
      (auto intro: scanner_reachable.step scanner_step.reports scanner_step.window)
qed

subsection \<open>Printed lines\<close>

text \<open>ASCII text without control characters and quotes.\<close>

definition printable :: "str \<Rightarrow> bool" where
  "printable s \<longleftrightarrow> (\<forall>b \<in> set s. 0x20 \<le> b \<and> b < 0x7F \<and> b \<noteq> 0x22)"

lemma printable_simps [simp]:
  "printable []"
  "printable (b # s) \<longleftrightarrow> (0x20 \<le> b \<and> b < 0x7F \<and> b \<noteq> 0x22) \<and> printable s"
  "printable (xs @ ys) \<longleftrightarrow> printable xs \<and> printable ys"
  by (auto simp: printable_def)

lemma printable_ascii: "printable s \<Longrightarrow> c \<in> set (ascii s) \<Longrightarrow> \<not> is_control c"
  by (auto simp: printable_def ascii_def is_control_def word_le_nat_alt word_less_nat_alt)

lemma printable_no_quote: "printable s \<Longrightarrow> 0x22 \<notin> set (ascii s)"
proof
  assume "printable s" "0x22 \<in> set (ascii s)"
  then obtain b where "b \<in> set s" "unat b = 0x22" "b \<noteq> 0x22"
    by (auto simp: printable_def ascii_def)
  then show False
    by (simp add: word_unat_eq_iff)
qed

lemma printable_digit: "n < 10 \<Longrightarrow> printable [0x30 + of_nat n]"
proof -
  assume "n < 10"
  then have "unat (0x30 + of_nat n :: u8) = 48 + n"
    by (simp add: unat_word_ariths unat_of_nat)
  with \<open>n < 10\<close> show "printable [0x30 + of_nat n]"
    by (simp add: word_le_nat_alt word_less_nat_alt word_unat_eq_iff)
qed

lemma printable_fmt_dec [simp]: "printable (fmt_dec n)"
proof (induction n rule: fmt_dec.induct)
  case (1 n)
  then show ?case
    by (subst fmt_dec.simps) (auto simp del: printable_simps(2) intro: printable_digit)
qed

lemma printable_fmt_int [simp]: "printable (fmt_int n)" "printable (fmt_signed n)"
  by (simp_all add: fmt_int_def fmt_signed_def)

lemma printable_pad [simp]: "printable s \<Longrightarrow> printable (pad_right w s)" "printable s \<Longrightarrow> printable (pad_left w s)"
  by (auto simp: pad_right_def pad_left_def printable_def)

lemma printable_fmt_02x [simp]: "printable (fmt_02x b)"
proof -
  have "printable [hex_lower n]" if "unat n < 16" for n :: u8
  proof -
    have "n \<in> {0, 1, 2, 3, 4, 5, 6, 7, 8, 9, 10, 11, 12, 13, 14, 15}"
      using that by (simp add: word_unat_eq_iff) presburger
    then show ?thesis
      by (auto simp: hex_lower_def)
  qed
  then show ?thesis
    using nibbles_small [of b] by (simp add: fmt_02x_def)
qed

lemma printable_cells [simp]:
  "printable (rssi_delta_display d)" "printable (address_kind_display k)" "printable (manufacturer_display m)"
  by (auto simp: rssi_delta_display_def address_kind_display_def manufacturer_display_def split: option.splits)

lemma printable_label_loop:
  "\<forall>(flag, label) \<in> set labels. printable label \<Longrightarrow> printable (fst (label_loop labels formats wrote))"
  by (induction labels formats wrote rule: label_loop.induct) (auto simp: case_prod_beta Let_def)

lemma printable_beacon_label [simp]: "printable (beacon_label_display b)"
proof -
  have "printable (fst (label_loop format_labels (bm_formats b) (bm_feasycom b)))"
    by (rule printable_label_loop) (simp add: format_labels_def)
  then show ?thesis
    by (simp add: beacon_label_display_def case_prod_beta)
qed

lemma display_name_printable: "c \<in> set (display_name name) \<Longrightarrow> \<not> is_control c"
proof -
  have "\<not> is_control 0x22" "\<not> is_control 0x2D"
    by (simp_all add: is_control_def)
  then show "c \<in> set (display_name name) \<Longrightarrow> \<not> is_control c"
    using display_printable [of c] by (auto simp: display_name_def split: option.splits)
qed

lemma line_printable:
  assumes "\<And>a. printable (show_address a)"
  shows "c \<in> set (device_line show_address r) \<Longrightarrow> \<not> is_control c"
    and "c \<in> set (beacon_line show_address r) \<Longrightarrow> \<not> is_control c"
    and "c \<in> set (lost_line show_address d) \<Longrightarrow> \<not> is_control c"
  by (auto simp: device_line_def beacon_line_def lost_line_def average_cell_def Let_def assms
      dest!: display_name_printable printable_ascii [rotated] split: prod.splits)

lemma device_line_cells:
  assumes "\<And>a. printable (show_address a)"
  obtains cells where "device_line show_address r = ascii cells @ display_name (de_name (row_entry r))"
    "printable cells"
  by (rule that, unfold device_line_def Let_def, rule refl) (simp add: average_cell_def assms)

lemma report_line_printable:
  assumes "\<And>a. printable (show_address a)" and "l \<in> set (report_lines show_address rep)" and "c \<in> set l"
  shows "\<not> is_control c"
proof -
  define plain where "plain l \<longleftrightarrow> (\<forall>c \<in> set l. \<not> is_control c)" for l
  have [simp]: "printable s \<Longrightarrow> plain (ascii s)" "plain []"
    "plain (device_line show_address r)" "plain (beacon_line show_address r)" "plain (lost_line show_address d)" for s r d
    using printable_ascii line_printable [of show_address, OF assms(1)] by (auto simp: plain_def)
  have "list_all plain (report_lines show_address rep)"
    by (simp add: report_lines_def list.pred_map comp_def list.pred_True)
  with assms(2, 3) show ?thesis
    by (auto simp: list_all_iff plain_def)
qed

subsection \<open>A sample run\<close>

definition sample_run :: "(u64 \<times> unit scanner_event) list" where
  "sample_run =
     [(0, ScanAnswer False), (500, HostReturns True), (1000, ScanTimer), (1001, ScanAnswer True),
      (1500, HostTimer),
      (1602, HostReports [(1600, Inr \<lparr>ar_address = sample_address, ar_rssi = - 60, ar_data = []\<rparr>),
         (1601, Inl ()), (1602, Inr \<lparr>ar_address = sample_address, ar_rssi = - 50, ar_data = []\<rparr>)]),
      (6001, ScanTimer)]"

definition sample_system :: scanner_system where
  "sample_system = the (scanner_run (\<lambda>_. []) strongest_sort sample_run (scanner_task 0))"

lemma sample_run_result:
  "scanner_run (\<lambda>_. []) strongest_sort sample_run (scanner_task 0) = Some sample_system"
  "map fst (sy_log sample_system) = [0, 500, 1001, 6001]"
  "length (printed_reports sample_system) = 1"
proof -
  have "\<exists>s. scanner_run (\<lambda>_. []) strongest_sort sample_run (scanner_task 0) = Some s
      \<and> map fst (sy_log s) = [0, 500, 1001, 6001] \<and> length (printed_reports s) = 1"
    by (simp add: sample_run_def scanner_task_def scanner_task_step_def say_def SCAN_WINDOW_MS_def
        printed_reports_def Let_def case_prod_beta del: on_adv_reports.simps)
  then show "scanner_run (\<lambda>_. []) strongest_sort sample_run (scanner_task 0) = Some sample_system"
    "map fst (sy_log sample_system) = [0, 500, 1001, 6001]"
    "length (printed_reports sample_system) = 1"
    by (auto simp: sample_system_def)
qed

section \<open>Properties\<close>

text \<open>
  C10. Every advertisement is accounted for: however the two loops of the scanner interleave,
  whatever the host delivers and however often scans and the host's runner fail, the reports
  printed so far together with the window that is still open count every report that was
  delivered, well-formed and malformed ones apart, exactly once (in the 32 bits of the
  counters).
\<close>

theorem scan_reports_accounted:
  assumes "scanner_run decode sort_by tes (scanner_task t0) = Some s"
  shows "(\<Sum>(t, rep) \<leftarrow> printed_reports s. sr_packets rep) + dr_window_reports (sy_registry s)
      = of_nat (length (filter (\<lambda>r. is_ok (snd r)) (delivered tes)))
    \<and> (\<Sum>(t, rep) \<leftarrow> printed_reports s. sr_malformed rep) + dr_window_malformed_reports (sy_registry s)
      = of_nat (length (filter (\<lambda>r. \<not> is_ok (snd r)) (delivered tes)))"
  by (rule run_accounts [OF assms])

theorem scan_reports_accounted_witness:
  "(\<Sum>(t, rep) \<leftarrow> printed_reports sample_system. sr_packets rep)
      + dr_window_reports (sy_registry sample_system) = 2
   \<and> (\<Sum>(t, rep) \<leftarrow> printed_reports sample_system. sr_malformed rep)
      + dr_window_malformed_reports (sy_registry sample_system) = 1"
  using scan_reports_accounted [OF sample_run_result(1)]
  by (simp add: sample_run_def delivered_def)

text \<open>
  C11. Scans keep their pace: a report is printed at least five seconds after its scan was
  started and each started scan is followed by its report, a scan that could not start is
  tried again after at least a second, and so is a runner that failed; when the time of an
  open window has passed the report is printed. Every age in a report is the exact difference
  to the time of the report, and no listed device is older than 15 seconds.
\<close>

theorem scan_windows_paced:
  assumes "scanner_run decode sort_by tes (scanner_task t0) = Some s" and "sorts_strongest_first sort_by"
  shows "successively scan_follows (filter scan_entry (sy_log s))
    \<and> successively (\<lambda>x y. unat (fst x) + 1000 \<le> unat (fst y)) (filter runner_entry (sy_log s))
    \<and> (\<forall>(t, rep) \<in> set (printed_reports s). report_fresh t rep)
    \<and> (\<forall>t deadline. sy_scan s = WindowOpen deadline \<and> deadline \<le> unat t \<and> sy_clock s \<le> t \<longrightarrow>
         (\<exists>s' rep. scanner_task_step decode sort_by (t, ScanTimer :: 'e scanner_event) s = Some s'
            \<and> printed_reports s' = printed_reports s @ [(t, rep)] \<and> sy_scan s' = ScanStarts))"
proof (intro conjI allI impI)
  fix t deadline
  assume "sy_scan s = WindowOpen deadline \<and> deadline \<le> unat t \<and> sy_clock s \<le> t"
  then show "\<exists>s' rep. scanner_task_step decode sort_by (t, ScanTimer :: 'e scanner_event) s = Some s'
      \<and> printed_reports s' = printed_reports s @ [(t, rep)] \<and> sy_scan s' = ScanStarts"
    by (simp add: scanner_task_step_def say_def printed_reports_def Let_def case_prod_beta)
qed (use run_paced [OF assms(1)] run_runner_paced [OF assms(1)] run_fresh [OF assms] in blast)+

theorem scan_windows_paced_witness:
  "successively scan_follows (filter scan_entry (sy_log sample_system))
   \<and> map fst (sy_log sample_system) = [0, 500, 1001, 6001]"
  using scan_windows_paced [OF sample_run_result(1) strongest_sort_ok] sample_run_result(2) by blast

text \<open>
  C36. Advertised data cannot forge the console: no line of a report contains a control
  character, so a device cannot start a line of its own; and the line of a named device
  consists of cells without a quote followed by the name in quotes, in which every quote is
  escaped and from which the name can be read back with its control characters replaced.
\<close>

theorem report_log_safe:
  assumes "\<And>a. printable (show_address a)" and "local_name_from_bytes v = Some n"
    and "de_name (row_entry r) = Some n"
  shows "(\<forall>l \<in> set (report_lines show_address rep). \<forall>c \<in> set l. \<not> is_control c)
    \<and> (\<exists>cells body cs. device_line show_address r = cells @ 0x22 # body @ [0x22]
         \<and> 0x22 \<notin> set cells \<and> no_bare_quote body \<and> chars v = Some cs
         \<and> unescape body = map (\<lambda>c. if is_control c then 0x2E else c) cs)"
proof
  show "\<forall>l \<in> set (report_lines show_address rep). \<forall>c \<in> set l. \<not> is_control c"
    using report_line_printable [of show_address, OF assms(1)] by blast
  obtain cs body where name: "chars v = Some cs" "display_name (Some n) = 0x22 # body @ [0x22]"
    "no_bare_quote body" "unescape body = map (\<lambda>c. if is_control c then 0x2E else c) cs"
    using displayed_name_safe [OF assms(2)] by blast
  obtain cells where "device_line show_address r = ascii cells @ display_name (Some n)" "printable cells"
    using device_line_cells [of show_address, OF assms(1), of r] unfolding assms(3) .
  with name printable_no_quote [of cells] show "\<exists>cells body cs. device_line show_address r = cells @ 0x22 # body @ [0x22]
      \<and> 0x22 \<notin> set cells \<and> no_bare_quote body \<and> chars v = Some cs
      \<and> unescape body = map (\<lambda>c. if is_control c then 0x2E else c) cs"
    by (intro exI [of _ "ascii cells"] exI [of _ body] exI [of _ cs]) simp
qed

theorem report_log_safe_witness:
  "\<exists>n. local_name_from_bytes [0x61, 0x22, 0x0A] = Some n
     \<and> (\<forall>l \<in> set (report_lines (\<lambda>_. lit ''00:00'')
           (fst (print_snapshot strongest_sort 100 sample_registry))). \<forall>c \<in> set l. \<not> is_control c)"
proof -
  have "utf8_valid [0x61, 0x22, 0x0A]"
    by (rule utf8_valid_ascii) simp
  then obtain n where n: "local_name_from_bytes [0x61, 0x22, 0x0A] = Some n"
    by (simp add: local_name_from_bytes_def LOCAL_NAME_CAPACITY_def)
  let ?r = "device_row_of 9 ((new_entry sample_address (- 60) sample_metadata 5)\<lparr>de_name := Some n\<rparr>)"
  have "de_name (row_entry ?r) = Some n"
    by (simp add: device_row_of_def Let_def)
  from report_log_safe [of "\<lambda>_. lit ''00:00''", OF _ n this] n show ?thesis
    by simp
qed

end
