(* ===== verification/Detection.thy ===== *)
theory Detection
  imports Scanner_Task Beacon
begin

text \<open>
  The two Bluetooth images together: what the scanner's registry holds after any sequence of
  reports, as the history of each device, and from that, that a scanner which hears a beacon
  of this repository recognises it. The encoder and the decoder of advertising structures
  belong to the Bluetooth host crate; their contract \<open>ad_codec\<close> is that decoding the
  encoded structures gives them back.
\<close>

section \<open>Definitions\<close>

subsection \<open>Device histories\<close>

definition occupied :: "device_registry \<Rightarrow> nat" where
  "occupied reg = length (filter (\<lambda>e. e \<noteq> None) (dr_entries reg))"

text \<open>What a report makes of the entry of its device.\<close>

definition hear_report ::
  "(u8 list \<Rightarrow> adv_structure list) \<Rightarrow> u64 \<Rightarrow> adv_report \<Rightarrow> device_entry option \<Rightarrow> device_entry" where
  "hear_report decode now r x =
     (let md = metadata_parse decode (ar_data r)
      in case x of
           None \<Rightarrow> new_entry (ar_address r) (ar_rssi r) md now
         | Some e \<Rightarrow> update_entry (ar_rssi r) md now e)"

text \<open>The history of one device: its reports in their order, and nothing else.\<close>

fun device_history ::
  "(u8 list \<Rightarrow> adv_structure list) \<Rightarrow> address \<Rightarrow> 'e timed_report list \<Rightarrow> device_entry option
   \<Rightarrow> device_entry option" where
  "device_history decode a [] x = x"
| "device_history decode a ((now, Inr r) # rs) x =
     device_history decode a rs (if ar_address r = a then Some (hear_report decode now r x) else x)"
| "device_history decode a ((now, Inl e) # rs) x = device_history decode a rs x"

text \<open>The advertisements of a device among the reports.\<close>

fun reports_from :: "address \<Rightarrow> 'e timed_report list \<Rightarrow> (u64 \<times> adv_report) list" where
  "reports_from a [] = []"
| "reports_from a ((now, Inr r) # rs) =
     (if ar_address r = a then [(now, r)] else []) @ reports_from a rs"
| "reports_from a ((now, Inl e) # rs) = reports_from a rs"

subsection \<open>Over the air\<close>

text \<open>
  What the decoder makes of the structures a beacon sends, and the contract of both sides for
  the 31 bytes of a legacy advertisement.
\<close>

fun heard :: "ad_structure \<Rightarrow> adv_structure" where
  "heard (AdFlags f) = AdOther"
| "heard (AdManufacturerSpecificData company payload) = ManufacturerSpecificData company payload"
| "heard (AdCompleteLocalName name) = CompleteLocalName name"

definition ad_codec ::
  "(ad_structure list \<Rightarrow> u8 list \<Rightarrow> (nat, 'e) result \<times> u8 list) \<Rightarrow> (u8 list \<Rightarrow> adv_structure list) \<Rightarrow> bool" where
  "ad_codec encode_slice decode \<longleftrightarrow>
     ad_encoder encode_slice
     \<and> (\<forall>xs buffer n. length buffer \<le> 31 \<and> fst (encode_slice xs buffer) = Inr n \<longrightarrow>
          decode (take n (snd (encode_slice xs buffer))) = map heard xs)"

text \<open>The address a scanner sees of a host that uses a random address.\<close>

definition air_address :: "static_random_address \<Rightarrow> address" where
  "air_address a = \<lparr>ad_kind = 1, ad_addr = to_hci_bytes a\<rparr>"

text \<open>
  A decoder for the structures the beacon sends, for evaluations: length, type and content, up
  to the end of the data.
\<close>

fun decode_one :: "u8 list \<Rightarrow> adv_structure" where
  "decode_one (ty # content) =
     (if ty = 0xFF \<and> 2 \<le> length content
      then ManufacturerSpecificData (push_bit 8 (ucast (content ! 1)) OR ucast (content ! 0)) (drop 2 content)
      else if ty = 0x09 then CompleteLocalName content
      else AdOther)"
| "decode_one [] = AdOther"

fun sample_decode :: "u8 list \<Rightarrow> adv_structure list" where
  "sample_decode [] = []"
| "sample_decode (n # bytes) = decode_one (take (unat n) bytes) # sample_decode (drop (unat n) bytes)"

section \<open>Lemmas\<close>

subsection \<open>Latest fields\<close>

text \<open>A part of an entry that follows the latest advertisement that has it.\<close>

locale latest_field =
  fixes field :: "device_entry \<Rightarrow> 'v option"
    and advertised :: "adv_metadata \<Rightarrow> 'v option"
  assumes field_new: "field (new_entry a rssi md now) = advertised md"
    and field_update: "field (update_entry rssi md now e) = (if advertised md \<noteq> None then advertised md else field e)"
begin

lemma field_history:
  assumes "device_history decode a rs x = Some e"
    and "\<forall>(t, r) \<in> set (reports_from a rs). advertised (metadata_parse decode (ar_data r)) \<in> {None, Some v}"
    and "x \<noteq> None \<and> field (the x) = Some v
      \<or> (\<exists>(t, r) \<in> set (reports_from a rs). advertised (metadata_parse decode (ar_data r)) = Some v)"
  shows "field e = Some v"
  using assms
proof (induction decode a rs x rule: device_history.induct)
  case (2 decode a now r rs x)
  show ?case
  proof (cases "ar_address r = a")
    case True
    have "field (hear_report decode now r x) = Some v"
      if "advertised (metadata_parse decode (ar_data r)) = Some v \<or> x \<noteq> None \<and> field (the x) = Some v"
      using that "2.prems"(2) True
      by (auto simp: hear_report_def Let_def field_new field_update split: option.splits)
    with True "2.prems" show ?thesis
      by (intro "2.IH") auto
  next
    case False
    with 2 show ?thesis
      by simp
  qed
qed auto

end

interpretation name_field: latest_field de_name md_name
  by unfold_locales (simp_all add: new_entry_def update_entry_def)

interpretation manufacturer_field: latest_field de_manufacturer md_manufacturer
  by unfold_locales (simp_all add: new_entry_def update_entry_def)

subsection \<open>The registry as a table of histories\<close>

lemma filter_update_le: "length (filter P (xs[i := x])) \<le> Suc (length (filter P xs))"
proof (induction xs arbitrary: i)
  case (Cons y ys)
  then show ?case
    by (cases i) (auto intro: le_SucI)
qed simp

lemma occupied_record: "occupied (registry_record a rssi md now reg) \<le> Suc (occupied reg)"
  by (simp add: occupied_def registry_record_def Let_def filter_update_le split: option.splits prod.splits)

lemma not_full: "occupied reg < length (dr_entries reg) \<Longrightarrow> \<not> is_full reg"
proof
  assume "occupied reg < length (dr_entries reg)" and "is_full reg"
  then have "\<forall>e \<in> set (dr_entries reg). e \<noteq> None"
    by (metis is_full_def)
  then have "filter (\<lambda>e. e \<noteq> None) (dr_entries reg) = dr_entries reg"
    by (rule filter_True)
  with \<open>occupied reg < length (dr_entries reg)\<close> show False
    by (simp add: occupied_def)
qed

lemma record_history:
  assumes "registry_wf reg" and "occupied reg < DEVICE_CAPACITY"
  shows "lookup (dr_entries (handler_record decode now (ar_address r) (ar_rssi r) (ar_data r) reg)) b =
    (if b = ar_address r then Some (hear_report decode now r (lookup (dr_entries reg) b))
     else lookup (dr_entries reg) b)"
proof -
  have u: "unique_addresses (dr_entries reg)" and full: "\<not> is_full reg"
    using assms not_full [of reg] by (simp_all add: registry_wf_def)
  show ?thesis
  proof (cases "lookup (dr_entries reg) (ar_address r)")
    case None
    then show ?thesis
      using record_new(1) [OF u None full] by (simp add: handler_record_def hear_report_def Let_def)
  next
    case (Some e)
    then show ?thesis
      using record_known(1) [OF u Some] by (simp add: handler_record_def hear_report_def Let_def)
  qed
qed

lemma reports_history:
  "registry_wf reg \<Longrightarrow> occupied reg + length rs \<le> DEVICE_CAPACITY \<Longrightarrow>
     lookup (dr_entries (on_adv_reports decode rs reg)) a = device_history decode a rs (lookup (dr_entries reg) a)"
proof (induction decode rs reg rule: on_adv_reports.induct)
  case (2 decode now r rs reg)
  let ?reg = "handler_record decode now (ar_address r) (ar_rssi r) (ar_data r) reg"
  have "registry_wf ?reg"
    using "2.prems"(1) by (simp add: handler_record_def registry_wf_record)
  moreover have "occupied ?reg + length rs \<le> DEVICE_CAPACITY"
    using "2.prems"(2) occupied_record [of "ar_address r" "ar_rssi r" "metadata_parse decode (ar_data r)" now reg]
    by (simp add: handler_record_def)
  moreover have "occupied reg < DEVICE_CAPACITY"
    using "2.prems"(2) by simp
  ultimately show ?case
    using record_history [OF "2.prems"(1), of decode now r a] "2.IH" by simp
next
  case (3 decode now e rs reg)
  then have "registry_wf (record_malformed_report reg)" "occupied (record_malformed_report reg) = occupied reg"
    by (simp_all add: registry_wf_def record_malformed_report_def occupied_def)
  with 3 show ?case
    by (simp add: record_malformed_report_def)
qed simp

subsection \<open>Facts about histories\<close>

lemma hear_report_counts:
  "0 < de_window_reports (hear_report decode now r x)" "de_last_seen_ms (hear_report decode now r x) = now"
proof -
  have "0 < saturating_add w 1" for w :: u32
    by (simp add: word_less_nat_alt unat_saturating_add)
  then show "0 < de_window_reports (hear_report decode now r x)" "de_last_seen_ms (hear_report decode now r x) = now"
    by (cases x; simp add: hear_report_def Let_def new_entry_def update_entry_def)+
qed

lemma history_silent: "reports_from a rs = [] \<Longrightarrow> device_history decode a rs x = x"
  by (induction decode a rs x rule: device_history.induct) (simp_all split: if_splits)

lemma history_heard:
  assumes "reports_from a rs \<noteq> []"
  shows "\<exists>e. device_history decode a rs x = Some e \<and> 0 < de_window_reports e
    \<and> de_last_seen_ms e \<in> fst ` set (reports_from a rs)"
  using assms
proof (induction decode a rs x rule: device_history.induct)
  case (2 decode a now r rs x)
  show ?case
  proof (cases "reports_from a rs = [] \<and> ar_address r = a")
    case True
    then have "device_history decode a ((now, Inr r) # rs) x = Some (hear_report decode now r x)"
      by (simp add: history_silent)
    moreover have "now \<in> fst ` set (reports_from a ((now, Inr r) # rs))"
      using True by simp
    ultimately show ?thesis
      using hear_report_counts [of decode now r x] by blast
  next
    case False
    then have "reports_from a rs \<noteq> []"
      using "2.prems" by (cases "ar_address r = a") simp_all
    from "2.IH" [OF this] obtain e where
      "device_history decode a ((now, Inr r) # rs) x = Some e" "0 < de_window_reports e"
      "de_last_seen_ms e \<in> fst ` set (reports_from a rs)"
      by auto
    then show ?thesis
      by (intro exI [of _ e]) (simp add: image_Un)
  qed
qed auto

lemma bit_merge: "bit (bm_formats (merge a b)) n \<longleftrightarrow> bit (bm_formats a) n \<or> bit (bm_formats b) n"
  by (simp add: merge_def bit_or_iff)

lemma history_formats:
  assumes "device_history decode a rs x = Some e"
    and "(t, r) \<in> set (reports_from a rs) \<and> bit (bm_formats (md_beacon (metadata_parse decode (ar_data r)))) n
      \<or> x \<noteq> None \<and> bit (bm_formats (de_beacon (the x))) n"
  shows "bit (bm_formats (de_beacon e)) n"
  using assms
proof (induction decode a rs x rule: device_history.induct)
  case (2 decode a now q rs x)
  have "bit (bm_formats (de_beacon (hear_report decode now q x))) n"
    if "bit (bm_formats (md_beacon (metadata_parse decode (ar_data q)))) n \<or> x \<noteq> None \<and> bit (bm_formats (de_beacon (the x))) n"
    using that by (auto simp: hear_report_def Let_def new_entry_def update_entry_def bit_merge split: option.splits)
  with "2.prems" show ?case
    by (intro "2.IH") (auto split: if_splits)
qed auto

subsection \<open>The beacon as the scanner hears it\<close>

lemma codec_encoder: "ad_codec encode_slice decode \<Longrightarrow> ad_encoder encode_slice"
  by (simp add: ad_codec_def)

text \<open>The two packets of a beacon, decoded.\<close>

lemma beacon_packets:
  assumes "beacon_settings env a = Inr s" and "ad_codec encode_slice decode"
    and "beacon_buffers encode_slice s = Inr (adv, scan)"
  shows "decode adv = [AdOther, ManufacturerSpecificData 0x004c (manufacturer_payload (bs_frame s))]"
    and "decode scan = [CompleteLocalName (beacon_name_as_bytes (bs_name s))]"
proof -
  let ?adv = "[AdFlags 0x06, AdManufacturerSpecificData IBEACON_COMPANY_IDENTIFIER
      (manufacturer_payload (bs_frame s))]" and ?scan = "[AdCompleteLocalName (beacon_name_as_bytes (bs_name s))]"
  obtain n m where n: "fst (encode_slice ?adv (replicate 31 0)) = Inr n"
      "adv = take n (snd (encode_slice ?adv (replicate 31 0)))"
    and m: "fst (encode_slice ?scan (replicate 31 0)) = Inr m"
      "scan = take m (snd (encode_slice ?scan (replicate 31 0)))"
    using assms(3) by (auto simp: beacon_buffers_def split: prod.splits sum.splits)
  have "decode (take k (snd (encode_slice xs (replicate 31 0)))) = map heard xs"
    if "fst (encode_slice xs (replicate 31 0)) = Inr k" for xs k
    using assms(2) that by (simp add: ad_codec_def)
  from this [OF n(1)] this [OF m(1)]
  show "decode adv = [AdOther, ManufacturerSpecificData 0x004c (manufacturer_payload (bs_frame s))]"
    "decode scan = [CompleteLocalName (beacon_name_as_bytes (bs_name s))]"
    by (simp_all add: n(2) m(2) IBEACON_COMPANY_IDENTIFIER_def)
qed

lemma payload_prefix: "take 2 (manufacturer_payload b) = [0x02, 0x15]"
  by (simp add: manufacturer_payload_def Let_def)

lemma beacon_metadata_heard:
  assumes "beacon_settings env a = Inr s" and "ad_codec encode_slice decode"
    and "beacon_buffers encode_slice s = Inr (adv, scan)"
  shows "bit (bm_formats (md_beacon (metadata_parse decode adv))) 0"
    and "md_manufacturer (metadata_parse decode adv) = Some 0x004c" "md_manufacturer (metadata_parse decode scan) = None"
    and "md_name (metadata_parse decode adv) = None"
    and "md_name (metadata_parse decode scan) = local_name_from_bytes (beacon_name_as_bytes (bs_name s))"
proof -
  note packets = beacon_packets [OF assms]
  show "bit (bm_formats (md_beacon (metadata_parse decode adv))) 0"
    unfolding metadata_parse_def parse_ibeacon packets
    by (simp add: payload_prefix length_manufacturer_payload)
  show "md_manufacturer (metadata_parse decode adv) = Some 0x004c" "md_manufacturer (metadata_parse decode scan) = None"
    "md_name (metadata_parse decode adv) = None"
    "md_name (metadata_parse decode scan) = local_name_from_bytes (beacon_name_as_bytes (bs_name s))"
    by (simp_all add: metadata_parse_def packets Let_def)
qed

lemma generated_name_valid: "utf8_valid (beacon_name_as_bytes (beacon_name_from_address a))"
proof (rule utf8_valid_ascii)
  have "hex_upper n < 0x80" if "unat n < 16" for n :: u8
  proof -
    have "n \<in> {0, 1, 2, 3, 4, 5, 6, 7, 8, 9, 10, 11, 12, 13, 14, 15}"
      using that by (simp add: word_unat_eq_iff) presburger
    then show ?thesis
      by (auto simp: hex_upper_def)
  qed
  then have "\<forall>b \<in> set (fmt_02X w). b < 0x80" for w :: u8
    using nibbles_small [of w] by (simp add: fmt_02X_def)
  then show "\<forall>b \<in> set (beacon_name_as_bytes (beacon_name_from_address a)). b < 0x80"
    by (auto simp: generated_name)
qed

lemma settings_name_valid:
  assumes "beacon_settings env a = Inr s" and "\<forall>v. BEACON_NAME env = Some v \<longrightarrow> utf8_valid v"
  shows "utf8_valid (beacon_name_as_bytes (bs_name s))"
proof -
  from assms(1) consider v where "BEACON_NAME env = Some v" "beacon_name_from_str v = Some (bs_name s)"
    | "bs_name s = beacon_name_from_address a"
    by (auto simp: beacon_settings_def Let_def split: sum.splits option.splits)
  then show ?thesis
  proof cases
    case 1
    then show ?thesis
      using given_name(1) [of v "bs_name s"] assms(2) by simp
  next
    case 2
    then show ?thesis
      by (simp add: generated_name_valid)
  qed
qed

lemma local_name_accepted:
  "utf8_valid v \<Longrightarrow> length v \<in> {1..29} \<Longrightarrow> \<exists>n. local_name_from_bytes v = Some n"
  by (auto simp: local_name_from_bytes_def LOCAL_NAME_CAPACITY_def)

lemma ibeacon_flag: "w AND BEACON_FORMAT_IBEACON \<noteq> 0 \<longleftrightarrow> bit w 0"
  by (simp add: BEACON_FORMAT_IBEACON_def and_one_eq bit_0 odd_iff_mod_2_eq_one mod2_eq_if)

lemma beacon_entry:
  assumes "beacon_settings env a = Inr s" and "\<forall>v. BEACON_NAME env = Some v \<longrightarrow> utf8_valid v"
    and "ad_codec encode_slice decode" and "beacon_buffers encode_slice s = Inr (adv, scan)"
    and "ar_data ` snd ` set (reports_from b rs) = {adv, scan}" and "device_history decode b rs x = Some e"
  shows "bm_formats (de_beacon e) AND BEACON_FORMAT_IBEACON \<noteq> 0" "de_manufacturer e = Some 0x004c"
    "map_option local_name_as_str (de_name e) = Some (beacon_name_as_str (bs_name s))"
proof -
  note md = beacon_metadata_heard [OF assms(1, 3, 4)]
  have sent: "\<exists>(t, r) \<in> set (reports_from b rs). ar_data r = d" if "d \<in> {adv, scan}" for d
    using that unfolding assms(5) [symmetric] by force
  have only: "ar_data r = adv \<or> ar_data r = scan" if "(t, r) \<in> set (reports_from b rs)" for t r
    using that assms(5) by (metis (no_types, lifting) imageI insertE singletonD snd_conv)
  obtain t r where "(t, r) \<in> set (reports_from b rs)" "ar_data r = adv"
    using sent [of adv] by auto
  with md(1) show "bm_formats (de_beacon e) AND BEACON_FORMAT_IBEACON \<noteq> 0"
    unfolding ibeacon_flag by (intro history_formats [OF assms(6), of t r]) simp
  show "de_manufacturer e = Some 0x004c"
  proof (rule manufacturer_field.field_history [OF assms(6)])
    show "\<forall>(t, r) \<in> set (reports_from b rs). md_manufacturer (metadata_parse decode (ar_data r)) \<in> {None, Some 0x004c}"
      using only md(2, 3) by fastforce
    show "x \<noteq> None \<and> de_manufacturer (the x) = Some 0x004c \<or>
        (\<exists>(t, r) \<in> set (reports_from b rs). md_manufacturer (metadata_parse decode (ar_data r)) = Some 0x004c)"
      using sent [of adv] md(2) by fastforce
  qed
  obtain n where n: "local_name_from_bytes (beacon_name_as_bytes (bs_name s)) = Some n"
    using local_name_accepted [OF settings_name_valid [OF assms(1, 2)] settings_name [OF assms(1)]] by blast
  have "de_name e = Some n"
  proof (rule name_field.field_history [OF assms(6)])
    show "\<forall>(t, r) \<in> set (reports_from b rs). md_name (metadata_parse decode (ar_data r)) \<in> {None, Some n}"
      using only md(4, 5) n by fastforce
    show "x \<noteq> None \<and> de_name (the x) = Some n \<or>
        (\<exists>(t, r) \<in> set (reports_from b rs). md_name (metadata_parse decode (ar_data r)) = Some n)"
      using sent [of scan] md(5) n by fastforce
  qed
  then show "map_option local_name_as_str (de_name e) = Some (beacon_name_as_str (bs_name s))"
    using local_name_from_bytes_ok(1) [OF n] settings_name_valid [OF assms(1, 2)]
    by (simp add: beacon_name_as_str_def)
qed

text \<open>A beacon heard in the window and not stale is in the report, unless more than 24 are.\<close>

lemma beacon_reported:
  assumes "sorts_strongest_first sort_by" and "Some e \<in> set (dr_entries reg)" and "0 < de_window_reports e"
    and "is_beacon (de_beacon e)" and "\<not> is_stale_entry now (Some e)"
  defines "rep \<equiv> fst (print_snapshot sort_by now reg)"
  shows "1 \<le> sr_beacon_count rep" "sr_beacon_count rep \<le> 24 \<Longrightarrow> e \<in> row_entry ` set (sr_beacon_rows rep)"
proof -
  let ?es = "map (stale_filter now) (dr_entries reg)"
  let ?s = "filter (\<lambda>e. is_beacon (de_beacon e)) (seen (sort_by ?es))"
  have "set (seen (sort_by ?es)) = set (seen ?es)"
    using assms(1) by (auto simp: sorts_strongest_first_def intro!: mset_eq_setD seen_mset)
  moreover have "Some e \<in> set ?es"
    using assms(2, 5) by (force simp: stale_filter_def)
  ultimately have e: "e \<in> set ?s"
    using assms(3, 4) by (simp add: set_seen)
  have rep: "sr_beacon_count rep = length ?s" "sr_beacon_rows rep = map (device_row_of now) (take 24 ?s)"
    by (simp_all add: rep_def print_snapshot_def take_snapshot_def Let_def remove_stale_entries BEACON_DISPLAY_LIMIT_def)
  show "1 \<le> sr_beacon_count rep"
    using e unfolding rep by (cases ?s) simp_all
  have row: "row_entry (device_row_of now e) = e"
    by (simp add: device_row_of_def Let_def)
  show "e \<in> row_entry ` set (sr_beacon_rows rep)" if "sr_beacon_count rep \<le> 24"
  proof (rule image_eqI [of _ _ "device_row_of now e"])
    show "device_row_of now e \<in> set (sr_beacon_rows rep)"
      using e that unfolding rep by simp
  qed (simp add: row)
qed

subsection \<open>A codec\<close>

lemma company_bytes: "push_bit 8 (ucast (ucast (drop_bit 8 c) :: u8)) OR ucast (ucast c :: u8) = c" for c :: u16
  by (rule bit_word_eqI) (auto simp: bit_simps)

lemma sample_decode_structure:
  assumes "ad_size x \<le> 255"
  shows "sample_decode (ad_bytes x @ rest) = heard x # sample_decode rest"
proof (cases x)
  case (AdManufacturerSpecificData c payload)
  then have "unat (of_nat (3 + length payload) :: u8) = 3 + length payload"
    using assms by (intro unat_of_nat_id) simp
  with AdManufacturerSpecificData show ?thesis
    using company_bytes [of c] by (simp add: numeral_3_eq_3 del: of_nat_add of_nat_Suc)
next
  case (AdCompleteLocalName name)
  then have "unat (of_nat (1 + length name) :: u8) = 1 + length name"
    using assms by (intro unat_of_nat_id) simp
  with AdCompleteLocalName show ?thesis
    by (simp del: of_nat_add of_nat_Suc)
qed simp

lemma sample_decode_structures:
  "(\<Sum>x \<leftarrow> xs. ad_size x) \<le> 255 \<Longrightarrow> sample_decode (concat (map ad_bytes xs)) = map heard xs"
  by (induction xs) (simp_all add: sample_decode_structure)

lemma sample_codec: "ad_codec sample_encoder sample_decode"
proof -
  have "sample_decode (take n (snd (sample_encoder xs buffer))) = map heard xs"
    if "length buffer \<le> 31" "fst (sample_encoder xs buffer) = Inr n" for xs buffer n
  proof -
    have fits: "length (concat (map ad_bytes xs)) \<le> 31" "n = length (concat (map ad_bytes xs))"
      "snd (sample_encoder xs buffer) = copy_prefix buffer (concat (map ad_bytes xs))"
      using that by (auto simp: sample_encoder_def Let_def split: if_splits)
    have "length (concat (map ad_bytes xs)) = (\<Sum>x \<leftarrow> xs. ad_size x)"
      by (induction xs) (simp_all add: length_ad_bytes)
    with fits show ?thesis
      using sample_decode_structures [of xs] take_copy_prefix [of "concat (map ad_bytes xs)" buffer] by simp
  qed
  then show ?thesis
    by (simp add: ad_codec_def sample_encoder_ok)
qed

section \<open>Properties\<close>





end
