(* ===== verification/Firmware.thy ===== *)
theory Firmware
  imports Bluetooth Networking Mqtt_Client Esp_Wifi
begin

text \<open>
  \<open>firmware/seeed/xiao-esp32c6\<close>: the reference firmware's composition of the SDK. Its
  build-time configuration is a function of the environment variables. Its loops run
  forever; each is a function of the list of answers the world gives at the points where
  the loop waits, so that a finite list describes the loop up to some moment.
\<close>

section \<open>Definitions\<close>

subsection \<open>Constants\<close>

definition NETWORK_OPERATION_TIMEOUT_S :: nat where
  "NETWORK_OPERATION_TIMEOUT_S = 10"

definition MQTT_RX_PACKET_BUFFER_SIZE :: nat where
  "MQTT_RX_PACKET_BUFFER_SIZE = 512"

definition MQTT_TX_REPLAY_BUFFER_SIZE :: nat where
  "MQTT_TX_REPLAY_BUFFER_SIZE = 1024"

subsection \<open>Build-time configuration\<close>

definition development_station_config ::
  "str option \<Rightarrow> str option \<Rightarrow> (station_config option, wifi_config_error) result" where
  "development_station_config WIFI_SSID WIFI_PASSWORD =
     (case (WIFI_SSID, WIFI_PASSWORD) of
        (None, None) \<Rightarrow> Ok None
      | (Some s, None) \<Rightarrow>
          (case ssid_try_from s of
             Inl e \<Rightarrow> Err e
           | Inr i \<Rightarrow> (case station_open i of Inl e \<Rightarrow> Err e | Inr c \<Rightarrow> Ok (Some c)))
      | (Some s, Some password) \<Rightarrow>
          (case ssid_try_from s of
             Inl e \<Rightarrow> Err e
           | Inr i \<Rightarrow>
               (case passphrase_new password of
                  Inl e \<Rightarrow> Err e
                | Inr p \<Rightarrow>
                    (case station_personal i p Wpa2Wpa3Personal of
                       Inl e \<Rightarrow> Err e
                     | Inr c \<Rightarrow> Ok (Some c))))
      | (None, Some _) \<Rightarrow> Err EmptySsid)"

record network_probe =
  np_host :: str
  np_port :: u16

definition probe_port_error :: str where
  "probe_port_error = lit ''NETWORK_TEST_PORT must be an integer from 1 through 65535''"

definition development_network_probe ::
  "str option \<Rightarrow> str option \<Rightarrow> (network_probe option, str) result" where
  "development_network_probe NETWORK_TEST_HOST NETWORK_TEST_PORT =
     (case (NETWORK_TEST_HOST, NETWORK_TEST_PORT) of
        (None, None) \<Rightarrow> Ok None
      | (Some host, Some port) \<Rightarrow>
          if host \<noteq> [] then
            (case ok_or probe_port_error (parse_u16 port) of
               Inl e \<Rightarrow> Err e
             | Inr p \<Rightarrow>
                 if p = 0 then Err probe_port_error
                 else Ok (Some \<lparr>np_host = host, np_port = p\<rparr>))
          else Err (lit ''NETWORK_TEST_HOST must not be empty'')
      | _ \<Rightarrow> Err (lit ''NETWORK_TEST_HOST and NETWORK_TEST_PORT must be set together''))"

definition TOPIC_PREFIX :: str where
  "TOPIC_PREFIX = lit ''embedded-sdk/test/''"

text \<open>The storage is the caller's zeroed array of \<open>MAX_TOPIC_LEN\<close> bytes.\<close>

definition fixture_topic_text :: "u8 list \<Rightarrow> bounded_text \<Rightarrow> str \<Rightarrow> (str, str) result" where
  "fixture_topic_text storage client_id suffix =
     (let client = text_as_str client_id;
          len = length TOPIC_PREFIX + length client + length suffix
      in if len > length storage then Err (lit ''MQTT fixture topic exceeds its bounded capacity'')
         else ok_or (lit ''MQTT fixture topic is not UTF-8'')
                (from_utf8 (take len (copy_prefix storage (TOPIC_PREFIX @ client @ suffix)))))"

record mqtt_development_config =
  md_session :: mqtt_config
  md_telemetry_topic :: bounded_text
  md_command_filter :: bounded_text

record mqtt_env =
  MQTT_HOST :: "str option"
  MQTT_PORT :: "str option"
  MQTT_CLIENT_ID :: "str option"
  MQTT_PLAINTEXT_FIXTURE :: "str option"
  MQTT_USERNAME :: "str option"
  MQTT_PASSWORD :: "str option"

definition mqtt_port_error :: str where
  "mqtt_port_error = lit ''MQTT_PORT must be an integer from 1 through 65535''"

text \<open>The second half of \<open>development_mqtt_config\<close>: the values, once all three are set.\<close>

definition mqtt_config_values ::
  "str \<Rightarrow> str \<Rightarrow> str \<Rightarrow> (mqtt_development_config, str) result" where
  "mqtt_config_values host port client_id =
     (case map_err (\<lambda>_. lit ''MQTT_HOST is invalid'') (broker_hostname_new host) of
        Inl e \<Rightarrow> Err e
      | Inr hostname \<Rightarrow>
     (case ok_or mqtt_port_error (parse_u16 port) of
        Inl e \<Rightarrow> Err e
      | Inr port_number \<Rightarrow>
     (case map_err (\<lambda>_. mqtt_port_error) (broker_port_new port_number) of
        Inl e \<Rightarrow> Err e
      | Inr broker_port \<Rightarrow>
     (case map_err (\<lambda>_. lit ''MQTT_CLIENT_ID is invalid'') (client_id_new client_id) of
        Inl e \<Rightarrow> Err e
      | Inr cid \<Rightarrow>
     (case fixture_topic_text (replicate MAX_TOPIC_LEN 0) cid (lit ''/telemetry'') of
        Inl e \<Rightarrow> Err e
      | Inr telemetry \<Rightarrow>
     (case map_err (\<lambda>_. lit ''MQTT telemetry topic is invalid'') (topic_name_new telemetry) of
        Inl e \<Rightarrow> Err e
      | Inr telemetry_topic \<Rightarrow>
     (case fixture_topic_text (replicate MAX_TOPIC_LEN 0) cid (lit ''/commands'') of
        Inl e \<Rightarrow> Err e
      | Inr commands \<Rightarrow>
     (case map_err (\<lambda>_. lit ''MQTT command topic is invalid'') (topic_filter_new commands) of
        Inl e \<Rightarrow> Err e
      | Inr command_filter \<Rightarrow>
     (case map_err (\<lambda>_. lit ''MQTT session limits are invalid'')
             (mqtt_config_new hostname broker_port cid 30 300 (of_nat MQTT_RX_PACKET_BUFFER_SIZE)) of
        Inl e \<Rightarrow> Err e
      | Inr session \<Rightarrow>
          Ok \<lparr>md_session = session, md_telemetry_topic = telemetry_topic,
              md_command_filter = command_filter\<rparr>)))))))))"

definition development_mqtt_config ::
  "mqtt_env \<Rightarrow> (mqtt_development_config option, str) result" where
  "development_mqtt_config env =
     (if MQTT_HOST env = None \<and> MQTT_PORT env = None \<and> MQTT_CLIENT_ID env = None
         \<and> MQTT_PLAINTEXT_FIXTURE env = None \<and> MQTT_USERNAME env = None \<and> MQTT_PASSWORD env = None
      then Ok None
      else if MQTT_USERNAME env \<noteq> None \<or> MQTT_PASSWORD env \<noteq> None
      then Err (lit ''credentials are unavailable until verified TLS is implemented'')
      else case (MQTT_HOST env, MQTT_PORT env, MQTT_CLIENT_ID env) of
             (Some host, Some port, Some client_id) \<Rightarrow>
               if MQTT_PLAINTEXT_FIXTURE env \<noteq> Some (lit ''1'')
               then Err (lit ''set MQTT_PLAINTEXT_FIXTURE=1 for an isolated local test broker'')
               else (case mqtt_config_values host port client_id of
                       Inl e \<Rightarrow> Err e
                     | Inr config \<Rightarrow> Ok (Some config))
           | _ \<Rightarrow> Err (lit ''MQTT_HOST, MQTT_PORT, and MQTT_CLIENT_ID must be set together''))"

subsection \<open>Wi-Fi supervision\<close>

text \<open>
  One round of \<open>supervise_station\<close>: the driver's answers to the association and to the
  wait for its loss (which only happens after a success), and the entropy of the retry.
\<close>

record 'e station_round =
  sr_connect :: "(joined, 'e) result"
  sr_disconnect :: "(unit, 'e) result"
  sr_entropy :: u32

definition supervise_round ::
  "'e station_round \<Rightarrow> 'c station_controller \<times> reconnect_backoff
   \<Rightarrow> u32 \<times> 'c station_controller \<times> reconnect_backoff" where
  "supervise_round r state =
     (let (wifi, backoff) = state;
          (wifi', backoff') =
            (case esp_connect (sr_connect r) wifi of
               (Inr connected, w) \<Rightarrow>
                 (snd (wait_for_disconnect (sr_disconnect r) w), backoff_reset backoff)
             | (Inl error, w) \<Rightarrow> (w, backoff));
          (retry_delay_ms, backoff'') = next_delay_ms (sr_entropy r) backoff'
      in (retry_delay_ms, wifi', backoff''))"

text \<open>The delays the supervisor has waited after a list of rounds, and its state.\<close>

fun supervise_loop ::
  "'e station_round list \<Rightarrow> 'c station_controller \<times> reconnect_backoff
   \<Rightarrow> u32 list \<times> 'c station_controller \<times> reconnect_backoff" where
  "supervise_loop [] state = ([], state)"
| "supervise_loop (r # rounds) state =
     (let (delay, state') = supervise_round r state;
          (ds, state'') = supervise_loop rounds state'
      in (delay # ds, state''))"

definition supervise_station ::
  "'e station_round list \<Rightarrow> 'c station_controller \<Rightarrow> u32 list" where
  "supervise_station rounds wifi = fst (supervise_loop rounds (wifi, reconnect_backoff_default))"

text \<open>The specification: how often the delay has doubled in each round.\<close>

definition associated :: "'e station_round \<Rightarrow> bool" where
  "associated r \<longleftrightarrow>
     (case sr_connect r of Inl _ \<Rightarrow> False | Inr j \<Rightarrow> length (jo_ssid j) \<le> MAX_SSID_LEN)"

fun doublings :: "nat \<Rightarrow> bool list \<Rightarrow> nat list" where
  "doublings n [] = []"
| "doublings n (ok # oks) = (let m = (if ok then 0 else n) in m # doublings (Suc m) oks)"

subsection \<open>Counters\<close>

text \<open>The status value notified over GATT, and the heartbeat, both wrapping.\<close>

primrec notified_values :: "nat \<Rightarrow> u8 \<Rightarrow> u8 list" where
  "notified_values 0 v = []"
| "notified_values (Suc n) v = (v + 1) # notified_values n (v + 1)"

definition bluetooth_status_notifications :: "nat \<Rightarrow> u8 list" where
  "bluetooth_status_notifications n = notified_values n 0"

primrec heartbeat :: "nat \<Rightarrow> u64 \<Rightarrow> u64 list" where
  "heartbeat 0 h = []"
| "heartbeat (Suc n) h = h # heartbeat n (h + 1)"

section \<open>Lemmas\<close>

subsection \<open>Configuration\<close>

lemma ascii_lit_valid:
  "utf8_valid TOPIC_PREFIX" "utf8_valid (lit ''/telemetry'')" "utf8_valid (lit ''/commands'')"
  by (auto simp: TOPIC_PREFIX_def intro!: utf8_valid_ascii)

lemma client_id_fits: "client_id_new v = Inr c \<Longrightarrow> utf8_valid v \<Longrightarrow> text_as_str c = v \<and> length v \<le> 64"
  using client_id_store.contents_new [of v c] client_id_store.stored_len_bound [of v c]
    client_id_store.len_new [of v c] by (simp add: MAX_CLIENT_ID_LEN_def)

lemma fixture_topic_ok:
  assumes "utf8_valid (text_as_str c)" and "length (text_as_str c) \<le> 64"
    and "utf8_valid suffix" and "length suffix \<le> 64"
  shows "fixture_topic_text (replicate MAX_TOPIC_LEN 0) c suffix
    = Inr (TOPIC_PREFIX @ text_as_str c @ suffix)"
proof -
  let ?t = "TOPIC_PREFIX @ text_as_str c @ suffix"
  have "length TOPIC_PREFIX = 18"
    by (simp add: TOPIC_PREFIX_def)
  moreover have "utf8_valid ?t"
    using assms(1,3) ascii_lit_valid(1) by (intro utf8_valid_append)
  moreover have "take (length ?t) (copy_prefix (replicate MAX_TOPIC_LEN 0) ?t) = ?t"
    by (rule take_copy_prefix)
  ultimately show ?thesis
    using assms(2,4) by (simp add: fixture_topic_text_def Let_def MAX_TOPIC_LEN_def add.assoc)
qed

lemma mqtt_config_values_ok:
  assumes "mqtt_config_values host port client_id = Inr c" and "utf8_valid client_id"
  shows "topic_name_new (TOPIC_PREFIX @ client_id @ lit ''/telemetry'') = Inr (md_telemetry_topic c)"
    and "topic_filter_new (TOPIC_PREFIX @ client_id @ lit ''/commands'') = Inr (md_command_filter c)"
    and "broker_hostname_new host = Inr (mc_hostname (md_session c))"
    and "client_id_new client_id = Inr (mc_client_id (md_session c))"
    and "parse_u16 port = Some (port_get (mc_port (md_session c)))"
    and "port_get (mc_port (md_session c)) \<noteq> 0"
    and "mc_maximum_packet_size (md_session c) = 512"
proof -
  from assms(1) obtain hostname n bp cid telemetry commands session where
    steps: "broker_hostname_new host = Inr hostname" "parse_u16 port = Some n"
      "broker_port_new n = Inr bp" "client_id_new client_id = Inr cid"
      "fixture_topic_text (replicate MAX_TOPIC_LEN 0) cid (lit ''/telemetry'') = Inr telemetry"
      "topic_name_new telemetry = Inr (md_telemetry_topic c)"
      "fixture_topic_text (replicate MAX_TOPIC_LEN 0) cid (lit ''/commands'') = Inr commands"
      "topic_filter_new commands = Inr (md_command_filter c)"
      "mqtt_config_new hostname bp cid 30 300 (of_nat MQTT_RX_PACKET_BUFFER_SIZE) = Inr session"
      "md_session c = session"
    unfolding mqtt_config_values_def
    by (auto split: sum.splits)
  from client_id_fits [OF steps(4) assms(2)]
  have cid: "text_as_str cid = client_id" "utf8_valid (text_as_str cid)" "length (text_as_str cid) \<le> 64"
    using assms(2) by simp_all
  have "telemetry = TOPIC_PREFIX @ client_id @ lit ''/telemetry''"
    using fixture_topic_ok [OF cid(2,3) ascii_lit_valid(2)] steps(5) cid(1) by simp
  then show "topic_name_new (TOPIC_PREFIX @ client_id @ lit ''/telemetry'') = Inr (md_telemetry_topic c)"
    using steps(6) by simp
  have "commands = TOPIC_PREFIX @ client_id @ lit ''/commands''"
    using fixture_topic_ok [OF cid(2,3) ascii_lit_valid(3)] steps(7) cid(1) by simp
  then show "topic_filter_new (TOPIC_PREFIX @ client_id @ lit ''/commands'') = Inr (md_command_filter c)"
    using steps(8) by simp
  have n: "n \<noteq> 0" "bp = BrokerPort n"
    using steps(3) by (auto simp: broker_port_new_def split: if_splits)
  have session: "md_session c = \<lparr>mc_hostname = hostname, mc_port = bp, mc_client_id = cid,
      mc_keep_alive_seconds = 30, mc_session_expiry_seconds = 300, mc_maximum_packet_size = 512\<rparr>"
    using steps(9,10) by (simp add: mqtt_config_new_def MQTT_RX_PACKET_BUFFER_SIZE_def split: if_splits)
  show "broker_hostname_new host = Inr (mc_hostname (md_session c))"
    "client_id_new client_id = Inr (mc_client_id (md_session c))"
    "parse_u16 port = Some (port_get (mc_port (md_session c)))"
    "port_get (mc_port (md_session c)) \<noteq> 0" "mc_maximum_packet_size (md_session c) = 512"
    using steps(1,2,4) n by (simp_all add: session)
qed

subsection \<open>Wi-Fi supervision\<close>

lemma esp_connect_ok: "is_ok (fst (esp_connect (sr_connect r) w)) \<longleftrightarrow> associated r"
  using ssid_try_from_ok [of "jo_ssid (projr (sr_connect r))"]
  by (auto simp: esp_connect_def associated_def Let_def is_ok_def split: sum.splits)

lemma supervise_round_backoff:
  "supervise_round r (w, b) = (d, w', b') \<Longrightarrow>
     (d, b') = next_delay_ms (sr_entropy r) (if associated r then backoff_reset b else b)"
  using esp_connect_ok [of r w]
  by (auto simp: supervise_round_def Let_def split: prod.splits sum.splits)

text \<open>The state of the back-off after \<open>n\<close> doublings under the default policy.\<close>

lemma default_next:
  assumes "rb_policy b = reconnect_policy_default" and "unat (next_base_delay_ms b) = min (1000 * 2 ^ n) 59500"
  shows "unat (fst (next_delay_ms r b)) = min (1000 * 2 ^ n) 59500 + unat r mod 501"
    and "unat (next_base_delay_ms (snd (next_delay_ms r b))) = min (1000 * 2 ^ Suc n) 59500"
    and "rb_policy (snd (next_delay_ms r b)) = reconnect_policy_default"
proof -
  have wf: "policy_wf (rb_policy b)"
    using policy_wf_default by (simp add: assms(1))
  note step = next_delay_ms_unat [OF wf, of r]
  show "unat (fst (next_delay_ms r b)) = min (1000 * 2 ^ n) 59500 + unat r mod 501"
    using step(1) by (simp add: assms reconnect_policy_default_def)
  show "unat (next_base_delay_ms (snd (next_delay_ms r b))) = min (1000 * 2 ^ Suc n) 59500"
    using step(2) by (simp add: assms reconnect_policy_default_def min_def)
  show "rb_policy (snd (next_delay_ms r b)) = reconnect_policy_default"
    using step(3) by (simp add: assms(1))
qed

lemma supervise_loop_delays:
  assumes "rb_policy b = reconnect_policy_default" and "unat (next_base_delay_ms b) = min (1000 * 2 ^ n) 59500"
  shows "map unat (fst (supervise_loop rounds (w, b))) =
    map2 (\<lambda>m r. min (1000 * 2 ^ m) 59500 + unat (sr_entropy r) mod 501)
      (doublings n (map associated rounds)) rounds"
  using assms
proof (induction rounds arbitrary: w b n)
  case (Cons r rounds)
  obtain d w' b' where round: "supervise_round r (w, b) = (d, w', b')"
    by (rule prod_cases3)
  let ?b = "if associated r then backoff_reset b else b" and ?m = "if associated r then 0 else n"
  have "rb_policy ?b = reconnect_policy_default"
    "unat (next_base_delay_ms ?b) = min (1000 * 2 ^ ?m) 59500"
    using Cons.prems by (simp_all add: backoff_reset_def reconnect_policy_default_def)
  note next' = default_next [OF this, of "sr_entropy r"]
  have step: "(d, b') = next_delay_ms (sr_entropy r) ?b"
    by (rule supervise_round_backoff [OF round])
  then have d: "unat d = min (1000 * 2 ^ ?m) 59500 + unat (sr_entropy r) mod 501"
    and b': "rb_policy b' = reconnect_policy_default"
      "unat (next_base_delay_ms b') = min (1000 * 2 ^ Suc ?m) 59500"
    using next' by (metis fst_conv, metis snd_conv, metis snd_conv)
  show ?case
    using Cons.IH [OF b', of w'] d
    by (cases "supervise_loop rounds (w', b')") (auto simp: round Let_def split: if_splits)
qed simp

lemma length_doublings: "length (doublings n oks) = length oks"
  by (induction oks arbitrary: n) (simp_all add: Let_def)

section \<open>Properties\<close>

text \<open>
  C21. The Wi-Fi supervisor paces its retries: whatever the driver answers, the delay of each
  round is one second doubled once for each association that has failed since the last success,
  cut off at 59.5 s, plus up to half a second of jitter; so every delay is between one second
  and a minute, and a success starts the sequence again.
\<close>

theorem supervisor_retry_delays:
  "map unat (supervise_station rounds w) =
     map2 (\<lambda>m r. min (1000 * 2 ^ m) 59500 + unat (sr_entropy r) mod 501)
       (doublings 0 (map associated rounds)) rounds
   \<and> (\<forall>d \<in> set (supervise_station rounds w). 1000 \<le> unat d \<and> unat d \<le> 60000)"
proof
  show delays: "map unat (supervise_station rounds w) =
     map2 (\<lambda>m r. min (1000 * 2 ^ m) 59500 + unat (sr_entropy r) mod 501)
       (doublings 0 (map associated rounds)) rounds"
    unfolding supervise_station_def
    by (rule supervise_loop_delays)
      (simp_all add: reconnect_backoff_default_def reconnect_backoff_new_def reconnect_policy_default_def)
  show "\<forall>d \<in> set (supervise_station rounds w). 1000 \<le> unat d \<and> unat d \<le> 60000"
  proof
    fix d assume "d \<in> set (supervise_station rounds w)"
    then have "unat d \<in> set (map unat (supervise_station rounds w))"
      by simp
    then obtain m x where d: "unat d = min (1000 * 2 ^ m) 59500 + x mod 501"
      unfolding delays by auto
    have "x mod 501 < 501"
      by simp
    moreover have "1000 \<le> min (1000 * 2 ^ m) (59500 :: nat)" "min (1000 * 2 ^ m) (59500 :: nat) \<le> 59500"
      by simp_all
    ultimately show "1000 \<le> unat d \<and> unat d \<le> 60000"
      unfolding d by linarith
  qed
qed

theorem supervisor_retry_delays_witness:
  "map unat (supervise_station
      [\<lparr>sr_connect = Inl (), sr_disconnect = Inr (), sr_entropy = 0\<rparr>,
       \<lparr>sr_connect = Inl (), sr_disconnect = Inr (), sr_entropy = 0\<rparr>,
       \<lparr>sr_connect = Inr \<lparr>jo_ssid = [97], jo_bssid = [], jo_channel = 1, jo_authmode = AmNone\<rparr>,
        sr_disconnect = Inr (), sr_entropy = 7\<rparr>]
      \<lparr>st_controller = (), st_state = WsReady\<rparr>) = [1000, 2000, 1007]"
  using supervisor_retry_delays [of "[\<lparr>sr_connect = Inl (), sr_disconnect = Inr (), sr_entropy = 0\<rparr>,
       \<lparr>sr_connect = Inl (), sr_disconnect = Inr (), sr_entropy = 0\<rparr>,
       \<lparr>sr_connect = Inr \<lparr>jo_ssid = [97], jo_bssid = [], jo_channel = 1, jo_authmode = AmNone\<rparr>,
        sr_disconnect = Inr (), sr_entropy = 7\<rparr>]" "\<lparr>st_controller = (), st_state = WsReady\<rparr>"]
  by (simp add: associated_def MAX_SSID_LEN_def Let_def)

text \<open>
  C22. The MQTT development configuration is confined: it exists only with plaintext explicitly
  enabled and no credentials given; the device then publishes and subscribes only below its own
  client identifier, and the command filter contains no wildcard; the broker port is nonzero;
  and the client of the MQTT task can be built from it with the task's buffers unless the
  backend refuses the identifier.
\<close>

theorem mqtt_development_confined:
  assumes "development_mqtt_config env = Inr (Some c)" and "MQTT_CLIENT_ID env = Some i" and "utf8_valid i"
  shows "MQTT_PLAINTEXT_FIXTURE env = Some (lit ''1'')
    \<and> MQTT_USERNAME env = None \<and> MQTT_PASSWORD env = None
    \<and> text_as_str (md_telemetry_topic c) = lit ''embedded-sdk/test/'' @ i @ lit ''/telemetry''
    \<and> text_as_str (md_command_filter c) = lit ''embedded-sdk/test/'' @ i @ lit ''/commands''
    \<and> 0x2B \<notin> set (text_as_str (md_command_filter c)) \<and> 0x23 \<notin> set (text_as_str (md_command_filter c))
    \<and> port_get (mc_port (md_session c)) \<noteq> 0
    \<and> (is_ok (client_new mb (md_session c) (replicate 512 0) (replicate 1024 0) PlaintextFixture None)
        \<longleftrightarrow> is_ok (mb_client_id mb i (mb_buffers mb (replicate 512 0) (replicate 1024 0))))"
proof -
  from assms obtain host port where vals: "mqtt_config_values host port i = Inr c"
    and env: "MQTT_PLAINTEXT_FIXTURE env = Some (lit ''1'')" "MQTT_USERNAME env = None" "MQTT_PASSWORD env = None"
    by (auto simp: development_mqtt_config_def split: if_splits option.splits sum.splits)
  note ok = mqtt_config_values_ok [OF vals assms(3)]
  let ?t = "TOPIC_PREFIX @ i @ lit ''/telemetry''" and ?f = "TOPIC_PREFIX @ i @ lit ''/commands''"
  have "utf8_valid ?t" "utf8_valid ?f"
    using assms(3) ascii_lit_valid by (blast intro: utf8_valid_append)+
  then have texts: "text_as_str (md_telemetry_topic c) = ?t" "text_as_str (md_command_filter c) = ?f"
    using topic_name_store.contents_new [OF _ ok(1)] topic_filter_store.contents_new [OF _ ok(2)]
    by simp_all
  have "is_ok (validate_topic_name ?t)"
    using topic_name_store.new_accepts [of ?t] ok(1) by simp
  then have plain: "0x2B \<notin> set i" "0x23 \<notin> set i"
    by (auto simp: validate_topic_name_ok)
  have cid: "text_as_str (mc_client_id (md_session c)) = i"
    using client_id_fits [OF ok(4) assms(3)] by simp
  have "is_ok (client_new mb (md_session c) (replicate 512 0) (replicate 1024 0) PlaintextFixture None)
        \<longleftrightarrow> is_ok (mb_client_id mb i (mb_buffers mb (replicate 512 0) (replicate 1024 0)))"
    by (auto simp: client_new_def Let_def ok(7) cid is_ok_def split: sum.splits)
  then show ?thesis
    using env texts plain ok(6) by (simp add: TOPIC_PREFIX_def)
qed

theorem mqtt_development_confined_witness:
  "\<exists>c. development_mqtt_config \<lparr>MQTT_HOST = Some (lit ''broker''), MQTT_PORT = Some (lit ''1883''),
        MQTT_CLIENT_ID = Some (lit ''n1''), MQTT_PLAINTEXT_FIXTURE = Some (lit ''1''),
        MQTT_USERNAME = None, MQTT_PASSWORD = None\<rparr> = Inr (Some c)
     \<and> text_as_str (md_command_filter c) = lit ''embedded-sdk/test/n1/commands''"
proof -
  let ?env = "\<lparr>MQTT_HOST = Some (lit ''broker''), MQTT_PORT = Some (lit ''1883''),
        MQTT_CLIENT_ID = Some (lit ''n1''), MQTT_PLAINTEXT_FIXTURE = Some (lit ''1''),
        MQTT_USERNAME = None, MQTT_PASSWORD = None\<rparr>"
  have u: "utf8_valid (lit ''n1'')"
    by (rule utf8_valid_ascii) simp
  obtain h where h: "broker_hostname_new (lit ''broker'') = Inr h"
    using hostname_store.new_accepts [of "lit ''broker''"]
    by (auto simp: is_ok_iff validate_hostname_def label_invalid_def starts_with_byte_def ends_with_byte_def
        MAX_HOSTNAME_LEN_def is_ascii_alphanumeric_def is_ascii_lower_def)
  have p: "parse_u16 (lit ''1883'') = Some 1883"
    by (simp add: parse_u16_def parse_unsigned_def parse_magnitude_def starts_with_byte_def is_ascii_digit_def)
  obtain cid where cid: "client_id_new (lit ''n1'') = Inr cid"
    using client_id_store.new_accepts [of "lit ''n1''"]
    by (auto simp: is_ok_iff validate_client_id_def MAX_CLIENT_ID_LEN_def)
  have t: "fixture_topic_text (replicate MAX_TOPIC_LEN 0) cid s = Inr (TOPIC_PREFIX @ lit ''n1'' @ s)"
    if "utf8_valid s" "length s \<le> 64" for s
    using fixture_topic_ok [of cid s] client_id_fits [OF cid u] u that by simp
  have "is_ok (topic_name_new (TOPIC_PREFIX @ lit ''n1'' @ lit ''/telemetry''))"
    by (simp add: topic_name_store.new_accepts validate_topic_name_ok MAX_TOPIC_LEN_def TOPIC_PREFIX_def)
  then obtain tt where tt: "topic_name_new (TOPIC_PREFIX @ lit ''n1'' @ lit ''/telemetry'') = Inr tt"
    unfolding is_ok_iff by blast
  have "is_ok (topic_filter_new (TOPIC_PREFIX @ lit ''n1'' @ lit ''/commands''))"
    by (simp add: topic_filter_store.new_accepts validate_topic_filter_ok MAX_TOPIC_LEN_def TOPIC_PREFIX_def)
  then obtain cf where cf: "topic_filter_new (TOPIC_PREFIX @ lit ''n1'' @ lit ''/commands'') = Inr cf"
    unfolding is_ok_iff by blast
  obtain c where c: "development_mqtt_config ?env = Inr (Some c)"
    using h p cid tt cf t [OF ascii_lit_valid(2)] t [OF ascii_lit_valid(3)]
    by (simp add: development_mqtt_config_def mqtt_config_values_def broker_port_new_def mqtt_config_new_def
        MQTT_RX_PACKET_BUFFER_SIZE_def MAX_PACKET_SIZE_def)
  then show ?thesis
    using mqtt_development_confined [OF c _ u] by auto
qed

end
