(* ===== verification/Firmware_Mqtt.thy ===== *)
theory Firmware_Mqtt
  imports Firmware
begin

text \<open>
  The MQTT service of \<open>firmware/seeed/xiao-esp32c6\<close>: the tasks \<open>mqtt_task\<close> and
  \<open>mqtt_telemetry_producer_task\<close>, which share a bounded queue and a drop counter. The
  state of \<open>mqtt_task\<close> is the point at which it waits (\<open>task_phase\<close>); an event is
  what ends the wait, and a step runs the code up to the next wait. The executor interleaves
  the two tasks at these points, which is the relation \<open>system_step\<close>.
\<close>

section \<open>Definitions\<close>

subsection \<open>State\<close>

definition MQTT_OUTBOUND_CHANNEL_DEPTH :: nat where
  "MQTT_OUTBOUND_CHANNEL_DEPTH = 4"

record outbound_message =
  om_payload :: "u8 list"
  om_qos :: qos

text \<open>
  Where \<open>mqtt_task\<close> waits: for IPv4, one second after a conversion error, for IPv4 to go
  away (no DNS), for the resolver, the TCP connection, the MQTT connection, the
  subscription, for a message in either direction, for the end of a publication, and for the
  end of a back-off.
\<close>

datatype task_phase =
  PWaitIp | POneSecond | PWaitIpDown | PResolve | PTcp ipv4_addr u16 | PConnect | PSubscribe
| PServe | PPublish outbound_message | PBackoff u32

record 's mqtt_system =
  sys_client :: "'s client"
  sys_backoff :: mqtt_backoff
  sys_phase :: task_phase
  sys_queue :: "outbound_message list"
  sys_drops :: u32

subsection \<open>Events\<close>

text \<open>\<open>with_timeout\<close>.\<close>

datatype 'a timed = TimedOut | InTime 'a

text \<open>
  An event that cancels a call of the client or ends a session carries the state the backend
  leaves its session in.
\<close>

datatype ('io, 's, 'te) task_event =
  EvIpReady "(network_snapshot, net_config_error) result"
| EvSecondElapsed
| EvIpDown
| EvResolved "(ip_address list, dns_error) result timed"
| EvTcp "(unit, 'te) result timed"
| EvConnect 'io
| EvConnectTimeout 's
| EvSubscribe
| EvReceive
| EvOutbound 's
| EvPublish
| EvIpLost 's
| EvRetryElapsed

text \<open>What a step does to messages: accepted by the queue, refused, sent, or taken and not sent.\<close>

datatype message_label =
  Queued outbound_message | Dropped | Published outbound_message | LostMessage outbound_message

subsection \<open>The producer\<close>

definition heartbeat_message :: outbound_message where
  "heartbeat_message =
     \<lparr>om_payload = [0x7B, 0x22] @ lit ''version'' @ [0x22, 0x3A, 0x31, 0x2C, 0x22] @ lit ''kind''
        @ [0x22, 0x3A, 0x22] @ lit ''heartbeat'' @ [0x22, 0x7D],
      om_qos = AtLeastOnce\<rparr>"

definition producer_step :: "'s mqtt_system \<Rightarrow> message_label list \<times> 's mqtt_system" where
  "producer_step s =
     (if length (sys_queue s) < MQTT_OUTBOUND_CHANNEL_DEPTH
      then ([Queued heartbeat_message], s\<lparr>sys_queue := sys_queue s @ [heartbeat_message]\<rparr>)
      else ([Dropped], s\<lparr>sys_drops := sys_drops s + 1\<rparr>))"

subsection \<open>The MQTT task\<close>

text \<open>The head of the loop, up to the wait for IPv4.\<close>

definition start_round :: "'s mqtt_system \<Rightarrow> 's mqtt_system" where
  "start_round s =
     s\<lparr>sys_client := client_transition WaitingForNetwork (sys_client s), sys_phase := PWaitIp\<rparr>"

text \<open>\<open>mqtt_backoff\<close>, with the value of the random number generator.\<close>

definition back_off :: "u32 \<Rightarrow> 's mqtt_system \<Rightarrow> 's mqtt_system" where
  "back_off entropy s =
     (let (delay_ms, b) = mqtt_next_delay_ms entropy (sys_backoff s)
      in s\<lparr>sys_backoff := b, sys_phase := PBackoff delay_ms\<rparr>)"

definition external_failure :: "u32 \<Rightarrow> 's mqtt_system \<Rightarrow> 's mqtt_system" where
  "external_failure entropy s =
     back_off entropy (s\<lparr>sys_client := record_external_failure Transport (sys_client s)\<rparr>)"

text \<open>The head of the loop of \<open>run_mqtt_connection\<close>, up to its \<open>select\<close>.\<close>

definition serve_round :: "'s mqtt_system \<Rightarrow> 's mqtt_system" where
  "serve_round s =
     s\<lparr>sys_drops := 0, sys_client := client_queue_drops (sys_drops s) (sys_client s),
       sys_phase := PServe\<rparr>"

text \<open>The connection is dropped: \<open>release\<close> is what the backend does to its session then.\<close>

definition end_session :: "('s \<Rightarrow> 's) \<Rightarrow> u32 \<Rightarrow> 's mqtt_system \<Rightarrow> 's mqtt_system" where
  "end_session release entropy s =
     back_off entropy
       (s\<lparr>sys_client := (sys_client s)\<lparr>cl_session := release (cl_session (sys_client s))\<rparr>\<rparr>)"

definition lose_ip :: "'s \<Rightarrow> 's mqtt_system \<Rightarrow> 's mqtt_system" where
  "lose_ip session s =
     start_round (s\<lparr>sys_client := client_transition WaitingForNetwork
       ((sys_client s)\<lparr>cl_session := session\<rparr>)\<rparr>)"

definition after_ip_ready ::
  "(network_snapshot, net_config_error) result \<Rightarrow> 's mqtt_system \<Rightarrow> 's mqtt_system" where
  "after_ip_ready answer s =
     (case answer of
        Inl error \<Rightarrow> s\<lparr>sys_phase := POneSecond\<rparr>
      | Inr snapshot \<Rightarrow>
          if \<not> is_dns_ready snapshot then s\<lparr>sys_phase := PWaitIpDown\<rparr>
          else s\<lparr>sys_client := client_transition ResolvingBroker (sys_client s),
                 sys_phase := PResolve\<rparr>)"

definition after_resolve ::
  "mqtt_development_config \<Rightarrow> u32 \<Rightarrow> (ip_address list, dns_error) result timed
   \<Rightarrow> 's mqtt_system \<Rightarrow> 's mqtt_system" where
  "after_resolve config entropy answer s =
     (case answer of
        TimedOut \<Rightarrow> external_failure entropy s
      | InTime dns \<Rightarrow>
          (case resolve_ipv4 (\<lambda>_. dns) (text_as_str (mc_hostname (md_session config)))
                  (replicate 4 UNSPECIFIED) of
             (Inl error, addresses) \<Rightarrow> external_failure entropy s
           | (Inr count, addresses) \<Rightarrow>
               s\<lparr>sys_client := client_transition ConnectingTransport (sys_client s),
                 sys_phase := PTcp (addresses ! 0) (port_get (mc_port (md_session config)))\<rparr>))"

text \<open>The MQTT connect begins with its transition, so it is part of this step.\<close>

definition after_tcp :: "u32 \<Rightarrow> (unit, 'te) result timed \<Rightarrow> 's mqtt_system \<Rightarrow> 's mqtt_system" where
  "after_tcp entropy answer s =
     (case answer of
        InTime (Inr _) \<Rightarrow>
          s\<lparr>sys_client := client_transition ConnectingSession (sys_client s), sys_phase := PConnect\<rparr>
      | InTime (Inl error) \<Rightarrow> external_failure entropy s
      | TimedOut \<Rightarrow> external_failure entropy s)"

definition after_connect ::
  "('s, 'io, 'p, 'r, 'e) minimq_ops \<Rightarrow> u32 \<Rightarrow> 'io \<Rightarrow> 's mqtt_system \<Rightarrow> 's mqtt_system" where
  "after_connect mm entropy io s =
     (case client_connect mm io (sys_client s) of
        (Inl error, c) \<Rightarrow> back_off entropy (s\<lparr>sys_client := c\<rparr>)
      | (Inr _, c) \<Rightarrow>
          (let s1 = s\<lparr>sys_client := c, sys_backoff := mqtt_backoff_reset (sys_backoff s)\<rparr>
           in if \<not> resumed mm c then s1\<lparr>sys_phase := PSubscribe\<rparr> else serve_round s1))"

definition after_subscribe ::
  "('s, 'io, 'p, 'r, 'e) minimq_ops \<Rightarrow> ('s \<Rightarrow> 's) \<Rightarrow> mqtt_development_config \<Rightarrow> u32
   \<Rightarrow> 's mqtt_system \<Rightarrow> 's mqtt_system" where
  "after_subscribe mm release config entropy s =
     (case client_subscribe mm (md_command_filter config) AtLeastOnce (sys_client s) of
        (Inr _, c) \<Rightarrow> serve_round (s\<lparr>sys_client := c\<rparr>)
      | (Inl error, c) \<Rightarrow> end_session release entropy (s\<lparr>sys_client := c\<rparr>))"

definition after_receive ::
  "('s, 'io, 'p, 'r, 'e) minimq_ops \<Rightarrow> ('s \<Rightarrow> 's) \<Rightarrow> u32 \<Rightarrow> 's mqtt_system \<Rightarrow> 's mqtt_system" where
  "after_receive mm release entropy s =
     (case client_receive mm (sys_client s) of
        (Inr message, c) \<Rightarrow> serve_round (s\<lparr>sys_client := c\<rparr>)
      | (Inl error, c) \<Rightarrow> end_session release entropy (s\<lparr>sys_client := c\<rparr>))"

text \<open>The queue won the \<open>select\<close>: the message is taken and the pending receive cancelled.\<close>

definition after_outbound :: "'s \<Rightarrow> outbound_message \<Rightarrow> 's mqtt_system \<Rightarrow> 's mqtt_system" where
  "after_outbound session m s =
     s\<lparr>sys_client := (sys_client s)\<lparr>cl_session := session\<rparr>, sys_queue := tl (sys_queue s),
       sys_phase := PPublish m\<rparr>"

definition after_publish ::
  "('s, 'io, 'p, 'r, 'e) minimq_ops \<Rightarrow> ('s \<Rightarrow> 's) \<Rightarrow> mqtt_development_config \<Rightarrow> u32
   \<Rightarrow> outbound_message \<Rightarrow> 's mqtt_system \<Rightarrow> message_label list \<times> 's mqtt_system" where
  "after_publish mm release config entropy m s =
     (case client_publish mm (md_telemetry_topic config) (om_payload m) (om_qos m) (sys_client s) of
        (Inr _, c) \<Rightarrow> ([Published m], serve_round (s\<lparr>sys_client := c\<rparr>))
      | (Inl error, c) \<Rightarrow> ([LostMessage m], end_session release entropy (s\<lparr>sys_client := c\<rparr>)))"

text \<open>
  One step of the task; an event the task does not wait for is not enabled. The last
  argument but one is the value the random number generator gives if it is asked.
\<close>

fun task_step ::
  "('s, 'io, 'p, 'r, 'e) minimq_ops \<Rightarrow> ('s \<Rightarrow> 's) \<Rightarrow> mqtt_development_config
   \<Rightarrow> ('io, 's, 'te) task_event \<Rightarrow> u32 \<Rightarrow> 's mqtt_system
   \<Rightarrow> (message_label list \<times> 's mqtt_system) option" where
  "task_step mm release config ev entropy s =
     (case (sys_phase s, ev) of
        (PWaitIp, EvIpReady answer) \<Rightarrow> Some ([], after_ip_ready answer s)
      | (POneSecond, EvSecondElapsed) \<Rightarrow> Some ([], start_round s)
      | (PWaitIpDown, EvIpDown) \<Rightarrow> Some ([], start_round s)
      | (PResolve, EvResolved answer) \<Rightarrow> Some ([], after_resolve config entropy answer s)
      | (PTcp a p, EvTcp answer) \<Rightarrow> Some ([], after_tcp entropy answer s)
      | (PConnect, EvConnect io) \<Rightarrow> Some ([], after_connect mm entropy io s)
      | (PConnect, EvConnectTimeout session) \<Rightarrow>
          Some ([], external_failure entropy (s\<lparr>sys_client := (sys_client s)\<lparr>cl_session := session\<rparr>\<rparr>))
      | (PSubscribe, EvSubscribe) \<Rightarrow> Some ([], after_subscribe mm release config entropy s)
      | (PSubscribe, EvIpLost session) \<Rightarrow> Some ([], lose_ip session s)
      | (PServe, EvReceive) \<Rightarrow> Some ([], after_receive mm release entropy s)
      | (PServe, EvOutbound session) \<Rightarrow>
          (case sys_queue s of
             [] \<Rightarrow> None
           | m # _ \<Rightarrow> Some ([], after_outbound session m s))
      | (PServe, EvIpLost session) \<Rightarrow> Some ([], lose_ip session s)
      | (PPublish m, EvPublish) \<Rightarrow> Some (after_publish mm release config entropy m s)
      | (PPublish m, EvIpLost session) \<Rightarrow> Some ([LostMessage m], lose_ip session s)
      | (PBackoff d, EvRetryElapsed) \<Rightarrow> Some ([], start_round s)
      | _ \<Rightarrow> None)"

declare task_step.simps [simp del]

subsection \<open>The system\<close>

definition system_start :: "'s client \<Rightarrow> 's mqtt_system" where
  "system_start c =
     start_round \<lparr>sys_client = c, sys_backoff = policy_backoff mqtt_policy_default,
       sys_phase = PWaitIp, sys_queue = [], sys_drops = 0\<rparr>"

inductive system_step ::
  "('s, 'io, 'p, 'r, 'e) minimq_ops \<Rightarrow> ('s \<Rightarrow> 's) \<Rightarrow> mqtt_development_config
   \<Rightarrow> 's mqtt_system \<Rightarrow> message_label list \<Rightarrow> 's mqtt_system \<Rightarrow> bool"
  for mm release config where
  produce: "producer_step s = (ls, s') \<Longrightarrow> system_step mm release config s ls s'"
| task: "task_step mm release config (ev :: ('io, 's, unit) task_event) entropy s = Some (ls, s') \<Longrightarrow>
     system_step mm release config s ls s'"

inductive system_run ::
  "('s, 'io, 'p, 'r, 'e) minimq_ops \<Rightarrow> ('s \<Rightarrow> 's) \<Rightarrow> mqtt_development_config
   \<Rightarrow> 's mqtt_system \<Rightarrow> message_label list \<Rightarrow> 's mqtt_system \<Rightarrow> bool"
  for mm release config where
  refl: "system_run mm release config s [] s"
| step: "\<lbrakk>system_run mm release config s ls s'; system_step mm release config s' ks s''\<rbrakk> \<Longrightarrow>
     system_run mm release config s (ls @ ks) s''"

inductive_cases system_stepE: "system_step mm release config s ls s'"

text \<open>The messages the queue accepted and the ones taken from it, in order.\<close>

fun queued :: "message_label list \<Rightarrow> outbound_message list" where
  "queued [] = []"
| "queued (Queued m # ls) = m # queued ls"
| "queued (_ # ls) = queued ls"

fun taken :: "message_label list \<Rightarrow> outbound_message list" where
  "taken [] = []"
| "taken (Published m # ls) = m # taken ls"
| "taken (LostMessage m # ls) = m # taken ls"
| "taken (_ # ls) = taken ls"

text \<open>The message a publication is under way for.\<close>

fun in_flight :: "task_phase \<Rightarrow> outbound_message list" where
  "in_flight (PPublish m) = [m]"
| "in_flight _ = []"

fun refused :: "message_label list \<Rightarrow> nat" where
  "refused [] = 0"
| "refused (Dropped # ls) = Suc (refused ls)"
| "refused (_ # ls) = refused ls"

text \<open>The refused messages the task has recorded and the ones it has still to collect.\<close>

definition counted_drops :: "'s mqtt_system \<Rightarrow> nat" where
  "counted_drops s = unat (sn_queue_drops (cl_snapshot (sys_client s))) + unat (sys_drops s)"

text \<open>What the snapshot reports while the task waits at a point.\<close>

fun phase_ok :: "task_phase \<Rightarrow> connection_state \<Rightarrow> bool" where
  "phase_ok PWaitIp st \<longleftrightarrow> st = WaitingForNetwork"
| "phase_ok POneSecond st \<longleftrightarrow> st = WaitingForNetwork"
| "phase_ok PWaitIpDown st \<longleftrightarrow> st = WaitingForNetwork"
| "phase_ok PResolve st \<longleftrightarrow> st = ResolvingBroker"
| "phase_ok (PTcp _ _) st \<longleftrightarrow> st = ConnectingTransport"
| "phase_ok PConnect st \<longleftrightarrow> st = ConnectingSession"
| "phase_ok PSubscribe st \<longleftrightarrow> is_live st"
| "phase_ok PServe st \<longleftrightarrow> is_live st"
| "phase_ok (PPublish _) st \<longleftrightarrow> is_live st"
| "phase_ok (PBackoff d) st \<longleftrightarrow> (st = BackingOff \<or> is_live st) \<and> d \<le> 60000"

definition system_wf :: "'s mqtt_system \<Rightarrow> bool" where
  "system_wf s \<longleftrightarrow>
     length (sys_queue s) \<le> MQTT_OUTBOUND_CHANNEL_DEPTH
     \<and> snapshot_wf (cl_snapshot (sys_client s))
     \<and> phase_ok (sys_phase s) (sn_state (cl_snapshot (sys_client s)))
     \<and> mb_policy (sys_backoff s) = mqtt_policy_default"

text \<open>A round of a broker outage: the network is up, the name does not resolve in time.\<close>

definition outage_round ::
  "('s, 'io, 'p, 'r, 'e) minimq_ops \<Rightarrow> ('s \<Rightarrow> 's) \<Rightarrow> mqtt_development_config \<Rightarrow> network_snapshot
   \<Rightarrow> u32 \<Rightarrow> 's mqtt_system \<Rightarrow> 's mqtt_system option" where
  "outage_round mm release config snapshot entropy s =
     Option.bind (task_step mm release config (EvIpReady (Inr snapshot) :: ('io, 's, unit) task_event) entropy s)
       (\<lambda>(_, s1). map_option snd
          (task_step mm release config (EvResolved TimedOut :: ('io, 's, unit) task_event) entropy s1))"

text \<open>The delays announced by consecutive outage rounds, with the wait for each in between.\<close>

fun outage_delays ::
  "('s, 'io, 'p, 'r, 'e) minimq_ops \<Rightarrow> ('s \<Rightarrow> 's) \<Rightarrow> mqtt_development_config \<Rightarrow> network_snapshot
   \<Rightarrow> u32 list \<Rightarrow> 's mqtt_system \<Rightarrow> u32 list option" where
  "outage_delays mm release config snapshot [] s = Some []"
| "outage_delays mm release config snapshot (r # rs) s =
     (case outage_round mm release config snapshot r s of
        None \<Rightarrow> None
      | Some s1 \<Rightarrow>
          (case sys_phase s1 of
             PBackoff d \<Rightarrow>
               map_option ((#) d) (Option.bind
                 (task_step mm release config (EvRetryElapsed :: ('io, 's, unit) task_event) r s1)
                 (\<lambda>(_, s2). outage_delays mm release config snapshot rs s2))
           | _ \<Rightarrow> None))"

definition sample_development :: mqtt_development_config where
  "sample_development =
     \<lparr>md_session = sample_config, md_telemetry_topic = \<lparr>txt_bytes = [116], txt_len = 1\<rparr>,
      md_command_filter = \<lparr>txt_bytes = [99], txt_len = 1\<rparr>\<rparr>"

definition sample_publishing :: "nat mqtt_system" where
  "sample_publishing =
     \<lparr>sys_client = \<lparr>cl_session = 1, cl_snapshot = record_connected snapshot_default\<rparr>,
      sys_backoff = policy_backoff mqtt_policy_default, sys_phase = PPublish heartbeat_message,
      sys_queue = [], sys_drops = 0\<rparr>"

definition base_wf :: "'s mqtt_system \<Rightarrow> bool" where
  "base_wf s \<longleftrightarrow>
     length (sys_queue s) \<le> MQTT_OUTBOUND_CHANNEL_DEPTH
     \<and> snapshot_wf (cl_snapshot (sys_client s)) \<and> mb_policy (sys_backoff s) = mqtt_policy_default"

abbreviation sys_state :: "'s mqtt_system \<Rightarrow> connection_state" where
  "sys_state s \<equiv> sn_state (cl_snapshot (sys_client s))"

section \<open>Lemmas\<close>

subsection \<open>The invariant\<close>

lemma system_wf_base: "system_wf s \<longleftrightarrow> base_wf s \<and> phase_ok (sys_phase s) (sys_state s)"
  by (auto simp: system_wf_def base_wf_def)

lemma base_wf_client [simp]:
  "base_wf (s\<lparr>sys_client := c\<rparr>) \<longleftrightarrow>
     length (sys_queue s) \<le> MQTT_OUTBOUND_CHANNEL_DEPTH \<and> snapshot_wf (cl_snapshot c)
     \<and> mb_policy (sys_backoff s) = mqtt_policy_default"
  "base_wf (s\<lparr>sys_phase := ph\<rparr>) \<longleftrightarrow> base_wf s"
  by (simp_all add: base_wf_def)

lemma transition_wf:
  "\<lbrakk>snapshot_wf (cl_snapshot c); \<not> is_live st; st \<noteq> BackingOff\<rbrakk> \<Longrightarrow>
     snapshot_wf (cl_snapshot (client_transition st c))"
  using client_step_wf [of c "CallTransition st"] by simp

lemma transition_state [simp]: "sn_state (cl_snapshot (client_transition st c)) = st"
  by (simp add: client_transition_def transition_def)

lemma external_failure_wf_client:
  "snapshot_wf (cl_snapshot c) \<Longrightarrow> snapshot_wf (cl_snapshot (record_external_failure k c))"
  using client_step_wf [of c "CallExternalFailure k"] by simp

lemma external_failure_state [simp]:
  "sn_state (cl_snapshot (record_external_failure k c)) = BackingOff"
  by (simp add: record_external_failure_def record_failure_def)

lemma queue_drops_wf_client:
  "snapshot_wf (cl_snapshot c) \<Longrightarrow> snapshot_wf (cl_snapshot (client_queue_drops n c))"
  using client_step_wf [of c "CallQueueDrops n"] by simp

lemma start_round_wf: "base_wf s \<Longrightarrow> system_wf (start_round s)"
  by (simp add: system_wf_base start_round_def base_wf_def transition_wf is_live_def)

lemma back_off_wf: "\<lbrakk>base_wf s; sys_state s = BackingOff \<or> is_live (sys_state s)\<rbrakk> \<Longrightarrow> system_wf (back_off r s)"
proof -
  assume base: "base_wf s" and st: "sys_state s = BackingOff \<or> is_live (sys_state s)"
  have "fst (mqtt_next_delay_ms r (sys_backoff s)) \<le> 60000"
    using base by (simp add: word_le_nat_alt mqtt_next_delay_unat base_wf_def mqtt_policy_default_def)
  then show ?thesis
    using base st by (auto simp: system_wf_base back_off_def base_wf_def case_prod_beta)
qed

lemma external_failure_wf: "base_wf s \<Longrightarrow> system_wf (external_failure r s)"
  unfolding external_failure_def
  by (rule back_off_wf) (simp_all add: base_wf_def external_failure_wf_client)

lemma serve_round_wf: "\<lbrakk>base_wf s; is_live (sys_state s)\<rbrakk> \<Longrightarrow> system_wf (serve_round s)"
  by (simp add: system_wf_base serve_round_def base_wf_def queue_drops_wf_client)
    (simp add: client_queue_drops_def record_queue_drops_def)

lemma end_session_wf:
  "\<lbrakk>base_wf s; sys_state s = BackingOff \<or> is_live (sys_state s)\<rbrakk> \<Longrightarrow> system_wf (end_session release r s)"
  unfolding end_session_def by (rule back_off_wf) (simp_all add: base_wf_def)

lemma lose_ip_wf: "base_wf s \<Longrightarrow> system_wf (lose_ip session s)"
  unfolding lose_ip_def
  by (rule start_round_wf) (simp add: base_wf_def transition_wf is_live_def)

text \<open>What a failed call on a live connection leaves of the state.\<close>

lemma observed_state:
  "is_live (sn_state snapshot) \<Longrightarrow>
     sn_state (observe_error e snapshot) = BackingOff \<or> is_live (sn_state (observe_error e snapshot))"
  by (simp add: observe_error_def record_failure_def)

lemma after_ip_ready_wf:
  "\<lbrakk>base_wf s; sys_state s = WaitingForNetwork\<rbrakk> \<Longrightarrow> system_wf (after_ip_ready answer s)"
  by (auto simp: after_ip_ready_def system_wf_base base_wf_def transition_wf is_live_def split: sum.splits)

lemma after_resolve_wf: "base_wf s \<Longrightarrow> system_wf (after_resolve config r answer s)"
  by (auto simp: after_resolve_def external_failure_wf system_wf_base [of "_\<lparr>sys_client := _, sys_phase := _\<rparr>"]
      base_wf_def transition_wf is_live_def split: timed.splits sum.splits prod.splits)

lemma after_tcp_wf: "base_wf s \<Longrightarrow> system_wf (after_tcp r answer s)"
  by (auto simp: after_tcp_def external_failure_wf system_wf_base [of "_\<lparr>sys_client := _, sys_phase := _\<rparr>"]
      base_wf_def transition_wf is_live_def split: timed.splits sum.splits)

lemma after_connect_wf: "base_wf s \<Longrightarrow> system_wf (after_connect mm r io s)"
proof -
  assume base: "base_wf s"
  obtain q c where call: "client_connect mm io (sys_client s) = (q, c)"
    by fastforce
  have wf: "snapshot_wf (cl_snapshot c)"
    using connect_keeps_wf [of mm io "sys_client s"] call by simp
  show ?thesis
  proof (cases q)
    case (Inl e)
    with call connect_err [of mm io "sys_client s" e c] base wf show ?thesis
      by (simp add: after_connect_def) (rule back_off_wf, simp_all add: base_wf_def)
  next
    case (Inr u)
    with call connect_ok [of mm io "sys_client s" u c]
    have live: "is_live (sn_state (cl_snapshot c))"
      by (simp add: is_live_def)
    let ?s = "s\<lparr>sys_client := c, sys_backoff := mqtt_backoff_reset (sys_backoff s)\<rparr>"
    have "base_wf ?s"
      using base wf by (simp add: base_wf_def mqtt_backoff_reset_def)
    with live have "system_wf (serve_round ?s)"
      by (intro serve_round_wf) simp_all
    moreover from \<open>base_wf ?s\<close> live have "system_wf (?s\<lparr>sys_phase := PSubscribe\<rparr>)"
      by (simp add: system_wf_base)
    ultimately show ?thesis
      using call Inr
      by (simp add: after_connect_def Let_def)
  qed
qed

lemma after_subscribe_wf:
  assumes "base_wf s" and "is_live (sys_state s)"
  shows "system_wf (after_subscribe mm release config r s)"
proof -
  obtain q c where call: "client_subscribe mm (md_command_filter config) AtLeastOnce (sys_client s) = (q, c)"
    by fastforce
  have wf: "snapshot_wf (cl_snapshot c)"
    using subscribe_op.keeps_wf [of "sys_client s" mm "md_command_filter config" AtLeastOnce] assms(1) call
    by (simp add: base_wf_def)
  show ?thesis
  proof (cases q)
    case (Inl e)
    with call subscribe_op.run_err [of mm "md_command_filter config" AtLeastOnce "sys_client s" e c]
    have "sn_state (cl_snapshot c) = BackingOff \<or> is_live (sn_state (cl_snapshot c))"
      using observed_state [OF assms(2)] by simp
    with call Inl wf assms(1) show ?thesis
      by (simp add: after_subscribe_def) (rule end_session_wf, simp_all add: base_wf_def)
  next
    case (Inr u)
    with call have "cl_snapshot c = cl_snapshot (sys_client s)"
      by (auto simp: client_subscribe_def observed_call_def split: prod.splits sum.splits)
    with call Inr wf assms show ?thesis
      by (simp add: after_subscribe_def) (rule serve_round_wf, simp_all add: base_wf_def)
  qed
qed

lemma after_receive_wf:
  assumes "base_wf s" and "is_live (sys_state s)"
  shows "system_wf (after_receive mm release r s)"
proof -
  obtain q c where call: "client_receive mm (sys_client s) = (q, c)"
    by fastforce
  have wf: "snapshot_wf (cl_snapshot c)"
    using receive_op.keeps_wf [of "sys_client s" mm] assms(1) call by (simp add: base_wf_def)
  show ?thesis
  proof (cases q)
    case (Inl e)
    with call receive_op.run_err [of mm "sys_client s" e c]
    have "sn_state (cl_snapshot c) = BackingOff \<or> is_live (sn_state (cl_snapshot c))"
      using observed_state [OF assms(2)] by simp
    with call Inl wf assms(1) show ?thesis
      by (simp add: after_receive_def) (rule end_session_wf, simp_all add: base_wf_def)
  next
    case (Inr i)
    with call have "sn_state (cl_snapshot c) = sys_state s"
      by (auto simp: client_receive_def deliver_def Let_def record_receive_def
          split: prod.splits sum.splits option.splits)
    with call Inr wf assms show ?thesis
      by (simp add: after_receive_def) (rule serve_round_wf, simp_all add: base_wf_def)
  qed
qed

lemma after_outbound_wf:
  "\<lbrakk>base_wf s; is_live (sys_state s)\<rbrakk> \<Longrightarrow> system_wf (after_outbound session m s)"
  by (auto simp: after_outbound_def system_wf_base base_wf_def)

lemma after_publish_wf:
  assumes "base_wf s" and "is_live (sys_state s)"
  shows "system_wf (snd (after_publish mm release config r m s))"
proof -
  obtain q c where call: "client_publish mm (md_telemetry_topic config) (om_payload m) (om_qos m) (sys_client s) = (q, c)"
    by fastforce
  have wf: "snapshot_wf (cl_snapshot c)"
    using publish_op.keeps_wf [of "sys_client s" mm "md_telemetry_topic config" "om_payload m" "om_qos m"]
      assms(1) call by (simp add: base_wf_def)
  show ?thesis
  proof (cases q)
    case (Inl e)
    with call publish_op.run_err [of mm "md_telemetry_topic config" "om_payload m" "om_qos m" "sys_client s" e c]
    have "sn_state (cl_snapshot c) = BackingOff \<or> is_live (sn_state (cl_snapshot c))"
      using observed_state [OF assms(2)] by simp
    with call Inl wf assms(1) show ?thesis
      by (simp add: after_publish_def) (rule end_session_wf, simp_all add: base_wf_def)
  next
    case (Inr u)
    with call have "sn_state (cl_snapshot c) = sys_state s"
      by (auto simp: client_publish_def record_publish_def split: prod.splits sum.splits pub_error.splits)
    with call Inr wf assms show ?thesis
      by (simp add: after_publish_def) (rule serve_round_wf, simp_all add: base_wf_def)
  qed
qed

lemma after_publish_result_wf:
  "\<lbrakk>after_publish mm release config r m s = (ls, s'); base_wf s; is_live (sys_state s)\<rbrakk> \<Longrightarrow> system_wf s'"
  using after_publish_wf [of s mm release config r m] by simp

lemmas phase_wf =
  start_round_wf external_failure_wf lose_ip_wf after_ip_ready_wf after_resolve_wf after_tcp_wf
  after_connect_wf after_subscribe_wf after_receive_wf after_outbound_wf

lemma base_wf_session [simp]: "base_wf (s\<lparr>sys_client := (sys_client s)\<lparr>cl_session := session\<rparr>\<rparr>) \<longleftrightarrow> base_wf s"
  by (simp add: base_wf_def)

lemma task_step_wf:
  assumes "task_step mm release config ev r s = Some (ls, s')" and "system_wf s"
  shows "system_wf s'"
proof -
  have base: "base_wf s" and phase: "phase_ok (sys_phase s) (sys_state s)"
    using assms(2) by (auto simp: system_wf_base)
  then show ?thesis
    using assms(1)
    by (cases "sys_phase s"; cases ev)
      (auto simp: task_step.simps phase_wf after_publish_result_wf simp del: base_wf_client split: list.splits)
qed

lemma producer_step_wf: "\<lbrakk>producer_step s = (ls, s'); system_wf s\<rbrakk> \<Longrightarrow> system_wf s'"
  by (auto simp: producer_step_def system_wf_def split: if_splits)

lemma system_step_wf: "\<lbrakk>system_step mm release config s ls s'; system_wf s\<rbrakk> \<Longrightarrow> system_wf s'"
  by (auto elim!: system_stepE intro: producer_step_wf task_step_wf)

lemma system_run_wf: "\<lbrakk>system_run mm release config s ls s'; system_wf s\<rbrakk> \<Longrightarrow> system_wf s'"
  by (induction rule: system_run.induct) (auto intro: system_step_wf)

lemma system_start_wf: "snapshot_wf (cl_snapshot c) \<Longrightarrow> system_wf (system_start c)"
  unfolding system_start_def
  by (rule start_round_wf) (simp add: base_wf_def policy_backoff_def)

subsection \<open>Messages\<close>

lemma queued_append [simp]: "queued (ls @ ks) = queued ls @ queued ks"
  by (induction ls rule: queued.induct) simp_all

lemma taken_append [simp]: "taken (ls @ ks) = taken ls @ taken ks"
  by (induction ls rule: taken.induct) simp_all

lemma refused_append [simp]: "refused (ls @ ks) = refused ls + refused ks"
  by (induction ls rule: refused.induct) simp_all

text \<open>No step of the task but taking a message changes the queue, and only it starts a publication.\<close>

lemma queue_frames [simp]:
  "sys_queue (start_round s) = sys_queue s"
  "sys_queue (back_off r s) = sys_queue s"
  "sys_queue (external_failure r s) = sys_queue s"
  "sys_queue (serve_round s) = sys_queue s"
  "sys_queue (end_session release r s) = sys_queue s"
  "sys_queue (lose_ip session s) = sys_queue s"
  by (simp_all add: start_round_def back_off_def external_failure_def serve_round_def end_session_def
      lose_ip_def case_prod_beta)

lemma flight_frames [simp]:
  "in_flight (sys_phase (start_round s)) = []"
  "in_flight (sys_phase (back_off r s)) = []"
  "in_flight (sys_phase (external_failure r s)) = []"
  "in_flight (sys_phase (serve_round s)) = []"
  "in_flight (sys_phase (end_session release r s)) = []"
  "in_flight (sys_phase (lose_ip session s)) = []"
  by (simp_all add: start_round_def back_off_def external_failure_def serve_round_def end_session_def
      lose_ip_def case_prod_beta)

lemmas after_defs =
  after_ip_ready_def after_resolve_def after_tcp_def after_connect_def after_subscribe_def
  after_receive_def after_publish_def

lemmas after_splits = sum.splits timed.splits prod.splits list.splits

lemma waiting_frames:
  "sys_queue (after_ip_ready answer s) = sys_queue s \<and> in_flight (sys_phase (after_ip_ready answer s)) = []"
  "sys_queue (after_resolve config r dns s) = sys_queue s \<and> in_flight (sys_phase (after_resolve config r dns s)) = []"
  "sys_queue (after_tcp r tcp s) = sys_queue s \<and> in_flight (sys_phase (after_tcp r tcp s)) = []"
  "sys_queue (after_connect mm r io s) = sys_queue s \<and> in_flight (sys_phase (after_connect mm r io s)) = []"
  "sys_queue (after_subscribe mm release config r s) = sys_queue s
     \<and> in_flight (sys_phase (after_subscribe mm release config r s)) = []"
  "sys_queue (after_receive mm release r s) = sys_queue s
     \<and> in_flight (sys_phase (after_receive mm release r s)) = []"
  by (simp_all add: after_defs Let_def split: after_splits)

lemma task_step_messages:
  "task_step mm release config ev r s = Some (ls, s') \<Longrightarrow>
     in_flight (sys_phase s) @ sys_queue s @ queued ls = taken ls @ in_flight (sys_phase s') @ sys_queue s'"
  by (cases "sys_phase s"; cases ev)
    (auto simp: task_step.simps waiting_frames after_outbound_def after_publish_def split: after_splits)

lemma producer_messages:
  "producer_step s = (ls, s') \<Longrightarrow>
     in_flight (sys_phase s) @ sys_queue s @ queued ls = taken ls @ in_flight (sys_phase s') @ sys_queue s'"
  by (auto simp: producer_step_def split: if_splits)

lemma system_step_messages:
  "system_step mm release config s ls s' \<Longrightarrow>
     in_flight (sys_phase s) @ sys_queue s @ queued ls = taken ls @ in_flight (sys_phase s') @ sys_queue s'"
  by (auto elim!: system_stepE dest!: task_step_messages producer_messages)

lemma system_run_messages:
  "system_run mm release config s ls s' \<Longrightarrow>
     in_flight (sys_phase s) @ sys_queue s @ queued ls = taken ls @ in_flight (sys_phase s') @ sys_queue s'"
proof (induction rule: system_run.induct)
  case (step s ls s' ks s'')
  have "in_flight (sys_phase s) @ sys_queue s @ queued (ls @ ks)
      = (in_flight (sys_phase s) @ sys_queue s @ queued ls) @ queued ks"
    by simp
  with step.IH system_step_messages [OF step.hyps(2)] show ?case
    by simp
qed simp

subsection \<open>The drop count\<close>

lemma client_drop_frames [simp]:
  "sn_queue_drops (cl_snapshot (client_transition st c)) = sn_queue_drops (cl_snapshot c)"
  "sn_queue_drops (cl_snapshot (record_external_failure k c)) = sn_queue_drops (cl_snapshot c)"
  by (simp_all add: client_transition_def transition_def record_external_failure_def record_failure_def)

lemma drop_frames [simp]:
  "counted_drops (start_round s) = counted_drops s"
  "counted_drops (back_off r s) = counted_drops s"
  "counted_drops (external_failure r s) = counted_drops s"
  "counted_drops (end_session release r s) = counted_drops s"
  "counted_drops (lose_ip session s) = counted_drops s"
  by (simp_all add: counted_drops_def start_round_def back_off_def external_failure_def end_session_def
      lose_ip_def case_prod_beta)

lemma serve_round_drops: "counted_drops s < 2 ^ 32 \<Longrightarrow> counted_drops (serve_round s) = counted_drops s"
  by (simp add: counted_drops_def serve_round_def client_queue_drops_def record_queue_drops_def
      unat_saturating_add)

lemma counted_drops_client:
  "counted_drops (s\<lparr>sys_client := c\<rparr>) = unat (sn_queue_drops (cl_snapshot c)) + unat (sys_drops s)"
  by (simp add: counted_drops_def)

lemma connect_queue_drops:
  "client_connect mm io c = (q, c') \<Longrightarrow> sn_queue_drops (cl_snapshot c') = sn_queue_drops (cl_snapshot c)"
  by (rule client_connect_cases [where mm = mm and io = io and c = c])
    (auto simp: record_failure_def record_connected_def record_resumed_def transition_def)

lemma called_drops:
  "sn_queue_drops (cl_snapshot c) = sn_queue_drops (cl_snapshot (sys_client s)) \<Longrightarrow>
     counted_drops (s\<lparr>sys_client := c\<rparr>) = counted_drops s"
  by (simp add: counted_drops_def)

lemma after_connect_drops:
  "counted_drops s < 2 ^ 32 \<Longrightarrow> counted_drops (after_connect mm r io s) = counted_drops s"
proof -
  assume small: "counted_drops s < 2 ^ 32"
  obtain q c where call: "client_connect mm io (sys_client s) = (q, c)"
    by fastforce
  note same = connect_queue_drops [OF call]
  then have "counted_drops (s\<lparr>sys_client := c, sys_backoff := mqtt_backoff_reset (sys_backoff s)\<rparr>)
      = counted_drops s"
    by (simp add: counted_drops_def)
  with small same call show ?thesis
    by (auto simp: after_connect_def Let_def called_drops serve_round_drops split: sum.splits)
      (simp_all add: counted_drops_def)
qed

lemma session_call_drops:
  assumes "counted_drops s < 2 ^ 32"
  shows "counted_drops (after_subscribe mm release config r s) = counted_drops s"
    and "counted_drops (after_receive mm release r s) = counted_drops s"
    and "counted_drops (snd (after_publish mm release config r m s)) = counted_drops s"
proof -
  show "counted_drops (after_subscribe mm release config r s) = counted_drops s"
    using subscribe_op.keeps_queue_drops [of mm "md_command_filter config" AtLeastOnce "sys_client s"] assms
    by (auto simp: after_subscribe_def called_drops serve_round_drops split: sum.splits prod.splits)
  show "counted_drops (after_receive mm release r s) = counted_drops s"
    using receive_op.keeps_queue_drops [of mm "sys_client s"] assms
    by (auto simp: after_receive_def called_drops serve_round_drops split: sum.splits prod.splits)
  show "counted_drops (snd (after_publish mm release config r m s)) = counted_drops s"
    using publish_op.keeps_queue_drops
      [of mm "md_telemetry_topic config" "om_payload m" "om_qos m" "sys_client s"] assms
    by (auto simp: after_publish_def called_drops serve_round_drops split: sum.splits prod.splits)
qed

lemma waiting_drops:
  "counted_drops (after_ip_ready answer s) = counted_drops s"
  "counted_drops (after_resolve config r dns s) = counted_drops s"
  "counted_drops (after_tcp r tcp s) = counted_drops s"
  "counted_drops (after_outbound session m s) = counted_drops s"
  by (auto simp: after_ip_ready_def after_resolve_def after_tcp_def after_outbound_def split: after_splits)
    (simp_all add: counted_drops_def)

lemma publish_labels: "refused (fst (after_publish mm release config r m s)) = 0"
  by (simp add: after_publish_def split: sum.splits prod.splits)

lemma session_drops [simp]:
  "counted_drops (s\<lparr>sys_client := (sys_client s)\<lparr>cl_session := session\<rparr>\<rparr>) = counted_drops s"
  by (simp add: counted_drops_def)

lemma after_publish_drops:
  "\<lbrakk>after_publish mm release config r m s = (ls, s'); counted_drops s < 2 ^ 32\<rbrakk> \<Longrightarrow>
     counted_drops s' = counted_drops s \<and> refused ls = 0"
  using session_call_drops(3) [of s mm release config r m] publish_labels [of mm release config r m s] by simp

lemma task_step_drops:
  assumes "task_step mm release config ev r s = Some (ls, s')" and "counted_drops s < 2 ^ 32"
  shows "counted_drops s' = counted_drops s \<and> refused ls = 0"
  using assms
  by (cases "sys_phase s"; cases ev)
    (auto simp: task_step.simps waiting_drops after_connect_drops session_call_drops(1, 2)
      dest: after_publish_drops split: list.splits)

lemma producer_drops:
  assumes "producer_step s = (ls, s')" and "counted_drops s + refused ls < 2 ^ 32"
  shows "counted_drops s' = counted_drops s + refused ls"
  using assms by (auto simp: producer_step_def counted_drops_def unat_word_ariths split: if_splits)

lemma system_step_drops:
  "\<lbrakk>system_step mm release config s ls s'; counted_drops s + refused ls < 2 ^ 32\<rbrakk> \<Longrightarrow>
     counted_drops s' = counted_drops s + refused ls"
  by (auto elim!: system_stepE dest: producer_drops task_step_drops)

lemma system_run_drops:
  "\<lbrakk>system_run mm release config s ls s'; counted_drops s + refused ls < 2 ^ 32\<rbrakk> \<Longrightarrow>
     counted_drops s' = counted_drops s + refused ls"
proof (induction rule: system_run.induct)
  case (step s ls s' ks s'')
  then show ?case
    using system_step_drops [OF step.hyps(2)] by simp
qed simp

lemma system_run_produce:
  "system_run mm release config s (fst (producer_step s)) (snd (producer_step s))"
  using system_run.step [OF system_run.refl system_step.produce [of s "fst (producer_step s)" "snd (producer_step s)"]]
  by simp

subsection \<open>Broker outages\<close>

lemma outage_round_waits:
  assumes "sys_phase s = PWaitIp" and "is_dns_ready snapshot"
  obtains s1 where "outage_round mm release config snapshot r s = Some s1"
    "sys_phase s1 = PBackoff (fst (mqtt_next_delay_ms r (sys_backoff s)))"
    "sys_backoff s1 = snd (mqtt_next_delay_ms r (sys_backoff s))"
  using assms
  by (simp add: outage_round_def task_step.simps after_ip_ready_def after_resolve_def external_failure_def
      back_off_def case_prod_beta)

lemma outage_delays_sequence:
  assumes "sys_phase s = PWaitIp" and "is_dns_ready snapshot"
  shows "outage_delays mm release config snapshot rs s = Some (delays mqtt_next_delay_ms rs (sys_backoff s))"
  using assms(1)
proof (induction rs arbitrary: s)
  case (Cons r rs)
  obtain s1 where s1: "outage_round mm release config snapshot r s = Some s1"
    "sys_phase s1 = PBackoff (fst (mqtt_next_delay_ms r (sys_backoff s)))"
    "sys_backoff s1 = snd (mqtt_next_delay_ms r (sys_backoff s))"
    using outage_round_waits [OF Cons.prems assms(2)] .
  have "sys_phase (start_round s1) = PWaitIp" "sys_backoff (start_round s1) = sys_backoff s1"
    by (simp_all add: start_round_def)
  with Cons.IH [of "start_round s1"] s1 show ?case
    by (simp add: task_step.simps)
qed simp

section \<open>Properties\<close>



text \<open>
  C3. Telemetry is accounted for: under every interleaving, the messages the queue accepted
  are, in order, the ones taken for publication, the one being published and the ones still
  queued, so nothing is reordered or duplicated; and while fewer than 2^32 messages were
  refused, the snapshot's drop count and the count still to be collected add up to exactly
  the refusals.
\<close>

theorem telemetry_accounted:
  assumes "client_new mb session rx tx security creds = Inr c"
    and "system_run mm release config (system_start c) ls s"
  shows "queued ls = taken ls @ in_flight (sys_phase s) @ sys_queue s
    \<and> (refused ls < 2 ^ 32 \<longrightarrow>
        unat (sn_queue_drops (cl_snapshot (sys_client s))) + unat (sys_drops s) = refused ls)"
proof -
  have start: "in_flight (sys_phase (system_start c)) = []" "sys_queue (system_start c) = []"
    "counted_drops (system_start c) = 0"
    using client_new_ok(5) [OF assms(1)]
    by (simp_all add: system_start_def) (simp_all add: counted_drops_def snapshot_default_def)
  show ?thesis
    using system_run_messages [OF assms(2)] system_run_drops [OF assms(2)] start
    by (simp add: counted_drops_def)
qed

theorem telemetry_accounted_witness:
  "\<exists>c. client_new sample_builder sample_config [0, 0] [0] PlaintextFixture None = Inr c
     \<and> queued (fst (producer_step (system_start c))) = sys_queue (snd (producer_step (system_start c)))"
proof -
  obtain c where c: "client_new sample_builder sample_config [0, 0] [0] PlaintextFixture None = Inr c"
    by (simp add: client_new_def sample_builder_def sample_config_def)
  then show ?thesis
    using telemetry_accounted [OF c system_run_produce [of "sample_minimq undefined" id sample_development]]
    by (auto simp: producer_step_def system_start_def start_round_def)
qed



text \<open>
  C20. A payload the backend cannot hold ends the session without being recorded: the message
  is gone from the queue, the drop count and the failure count are unchanged, and the
  snapshot keeps reporting a live session while the task waits out a back-off.
\<close>

theorem unobserved_session_end:
  assumes "sys_phase s = PPublish m"
    and "mq_publish mm (text_as_str (md_telemetry_topic config)) (om_payload m) (to_minimq_qos (om_qos m))
           (cl_session (sys_client s)) = (Inl PubPayload, session)"
  shows "\<exists>s'. task_step mm release config EvPublish r s = Some ([LostMessage m], s')
    \<and> cl_snapshot (sys_client s') = cl_snapshot (sys_client s)
    \<and> sys_drops s' = sys_drops s \<and> sys_queue s' = sys_queue s
    \<and> sys_phase s' = PBackoff (fst (mqtt_next_delay_ms r (sys_backoff s)))"
  using assms
  by (simp add: task_step.simps after_publish_def client_publish_def end_session_def back_off_def case_prod_beta)

theorem unobserved_session_end_witness:
  "system_wf sample_publishing
   \<and> (\<exists>s'. task_step (sample_minimq undefined) id sample_development (EvPublish :: (unit, nat, unit) task_event) 0 sample_publishing
            = Some ([LostMessage heartbeat_message], s')
          \<and> sn_state (cl_snapshot (sys_client s')) = MqConnected \<and> sys_phase s' = PBackoff 1000)"
proof -
  have wf: "system_wf sample_publishing"
    by (simp add: sample_publishing_def system_wf_def snapshot_wf_def record_connected_def is_live_def
        policy_backoff_def counted_positive)
  have call: "mq_publish (sample_minimq m) t (om_payload heartbeat_message) q s = (Inl PubPayload, Suc s)" for m t q s
    by (simp add: sample_minimq_def heartbeat_message_def)
  have d: "fst (mqtt_next_delay_ms 0 (policy_backoff mqtt_policy_default)) = 1000"
    by (simp add: word_unat_eq_iff mqtt_next_delay_unat policy_backoff_def mqtt_policy_default_def)
  have st: "sn_state (record_connected snapshot_default) = MqConnected"
    by (simp add: record_connected_def)
  obtain s' where "task_step (sample_minimq undefined) id sample_development (EvPublish :: (unit, nat, unit) task_event) 0 sample_publishing
      = Some ([LostMessage heartbeat_message], s')"
    "cl_snapshot (sys_client s') = record_connected snapshot_default" "sys_phase s' = PBackoff 1000"
    using unobserved_session_end [of sample_publishing heartbeat_message "sample_minimq undefined"
        sample_development _ id 0, OF _ call]
    by (auto simp: sample_publishing_def d)
  then show ?thesis
    using wf st by (intro conjI exI [of _ s']) simp_all
qed

end
