(* ===== verification/Firmware_Network.thy ===== *)
theory Firmware_Network
  imports Firmware_Mqtt
begin

text \<open>
  The network monitor of \<open>firmware/seeed/xiao-esp32c6\<close> and its probe: \<open>network_monitor_task\<close>
  and \<open>run_network_probe\<close>. What the monitor sees is an argument; what it reports is the list
  of its log entries.
\<close>

section \<open>Definitions\<close>

subsection \<open>The network probe\<close>

datatype 'te probe_result =
  ProbeDnsFailed resolve_error | ProbeDnsTimedOut | ProbeTcpFailed 'te | ProbeTcpTimedOut
| ProbeSucceeded nat

text \<open>The endpoint the probe connects to, if it gets that far, and its outcome.\<close>

definition run_network_probe ::
  "network_probe \<Rightarrow> (ip_address list, dns_error) result timed \<Rightarrow> (ipv4_addr \<Rightarrow> u16 \<Rightarrow> (unit, 'te) result timed)
   \<Rightarrow> (ipv4_addr \<times> u16) option \<times> 'te probe_result" where
  "run_network_probe probe dns tcp =
     (case dns of
        TimedOut \<Rightarrow> (None, ProbeDnsTimedOut)
      | InTime answer \<Rightarrow>
          (case resolve_ipv4 (\<lambda>_. answer) (np_host probe) (replicate 4 UNSPECIFIED) of
             (Inl error, _) \<Rightarrow> (None, ProbeDnsFailed error)
           | (Inr count, addresses) \<Rightarrow>
               (Some (addresses ! 0, np_port probe),
                case tcp (addresses ! 0) (np_port probe) of
                  InTime (Inr _) \<Rightarrow> ProbeSucceeded count
                | InTime (Inl error) \<Rightarrow> ProbeTcpFailed error
                | TimedOut \<Rightarrow> ProbeTcpTimedOut)))"

subsection \<open>The network monitor\<close>

datatype 'te monitor_log =
  LinkUpLogged | DhcpPendingLogged | LinkDownLogged | StateFailed net_config_error | Configured nat
| ProbeRan "'te probe_result" | ProbeSkipped | AddressLost | DownFailed net_config_error

text \<open>
  What the monitor can see while it waits for a configuration: the wait ends with what the
  stack shows then, or the report interval passes, or the link goes down. It logs what it
  sees and ends with whether there is a configuration; with no end it still waits.
\<close>

datatype monitor_event =
  ConfigUp bool "static_config_v4 option" | DhcpPending | LinkDown

fun await_configuration :: "monitor_event list \<Rightarrow> 'te monitor_log list \<times> bool option" where
  "await_configuration [] = ([], None)"
| "await_configuration (ConfigUp up cfg # events) =
     (case snapshot_from_parts up cfg of
        Inr s \<Rightarrow> if is_ip_ready s then ([], Some True) else await_configuration events
      | Inl e \<Rightarrow> ([StateFailed e], Some False))"
| "await_configuration (DhcpPending # events) =
     (let (ls, configured) = await_configuration events in (DhcpPendingLogged # ls, configured))"
| "await_configuration (LinkDown # events) = ([LinkDownLogged], Some False)"

datatype probe_outcome = ProbeRun | ProbeSkippedNoDns | NoProbe

text \<open>After a configuration: the snapshot is taken again and the probe run if DNS is there.\<close>

definition monitor_configured ::
  "network_probe option \<Rightarrow> bool \<times> static_config_v4 option \<Rightarrow> (nat \<times> probe_outcome, net_config_error) result" where
  "monitor_configured probe parts =
     (case snapshot_from_parts (fst parts) (snd parts) of
        Inl e \<Rightarrow> Err e
      | Inr s \<Rightarrow>
          Ok (case ns_ipv4 s of None \<Rightarrow> 0 | Some c \<Rightarrow> dns_len (ic_dns_servers c),
              case probe of
                None \<Rightarrow> NoProbe
              | Some p \<Rightarrow> if is_dns_ready s then ProbeRun else ProbeSkippedNoDns))"

text \<open>
  A round of \<open>network_monitor_task\<close> after the link came up: what the monitor sees while it
  waits for a configuration, what the stack shows afterwards, the answers to the probe, and
  what the stack shows while the monitor waits for the loss of the address.
\<close>

record 'te monitor_answers =
  mr_events :: "monitor_event list"
  mr_parts :: "bool \<times> static_config_v4 option"
  mr_dns :: "(ip_address list, dns_error) result timed"
  mr_tcp :: "ipv4_addr \<Rightarrow> u16 \<Rightarrow> (unit, 'te) result timed"
  mr_down :: "network_stack list"

text \<open>What a configured round logs of the probe.\<close>

definition probe_log :: "network_probe option \<Rightarrow> probe_outcome \<Rightarrow> 'te monitor_answers \<Rightarrow> 'te monitor_log list" where
  "probe_log probe outcome r =
     (case (probe, outcome) of
        (Some p, ProbeRun) \<Rightarrow> [ProbeRan (snd (run_network_probe p (mr_dns r) (mr_tcp r)))]
      | (Some p, _) \<Rightarrow> [ProbeSkipped]
      | (None, _) \<Rightarrow> [])"

text \<open>What a round logs, and whether it comes to its end; otherwise a wait is still pending.\<close>

definition monitor_round :: "network_probe option \<Rightarrow> 'te monitor_answers \<Rightarrow> 'te monitor_log list \<times> bool" where
  "monitor_round probe r =
     (let (waiting, configured) = await_configuration (mr_events r)
      in case configured of
           None \<Rightarrow> (LinkUpLogged # waiting, False)
         | Some False \<Rightarrow> (LinkUpLogged # waiting, True)
         | Some True \<Rightarrow>
             (case monitor_configured probe (mr_parts r) of
                Inl e \<Rightarrow> (LinkUpLogged # waiting @ [StateFailed e], True)
              | Inr (dns_servers, outcome) \<Rightarrow>
                  (let ls = LinkUpLogged # waiting @ Configured dns_servers # probe_log probe outcome r
                   in case wait_ip_down (mr_down r) of
                        None \<Rightarrow> (ls, False)
                      | Some (Inr _) \<Rightarrow> (ls @ [AddressLost], True)
                      | Some (Inl e) \<Rightarrow> (ls @ [DownFailed e], True))))"

fun network_monitor :: "network_probe option \<Rightarrow> 'te monitor_answers list \<Rightarrow> 'te monitor_log list" where
  "network_monitor probe [] = []"
| "network_monitor probe (r # rounds) =
     (case monitor_round probe r of
        (ls, True) \<Rightarrow> ls @ network_monitor probe rounds
      | (ls, False) \<Rightarrow> ls)"

section \<open>Lemmas\<close>

text \<open>The probe connects to the first address of a complete answer and reports how many there were.\<close>

lemma probe_succeeds:
  assumes "run_network_probe probe dns tcp = (endpoint, ProbeSucceeded count)"
  shows "\<exists>addresses. dns = InTime (Inr addresses) \<and> count = length addresses \<and> count \<in> {1..4}
    \<and> endpoint = Some (ipv4_of (addresses ! 0), np_port probe)"
proof -
  obtain addresses where dns: "dns = InTime (Inr addresses)"
    using assms by (auto simp: run_network_probe_def resolve_ipv4_def split: timed.splits sum.splits)
  show ?thesis
    using assms copy_ipv4_cases [of addresses "replicate 4 UNSPECIFIED"]
    by (auto simp: dns run_network_probe_def resolve_ipv4_def nth_append
        split: timed.splits sum.splits prod.splits if_splits)
qed

text \<open>While it waits the monitor logs only the interval, the link and a conversion error.\<close>

lemma await_configuration_log:
  "set (fst (await_configuration events)) \<subseteq> {DhcpPendingLogged, LinkDownLogged} \<union> range StateFailed"
  by (induction events rule: await_configuration.induct) (auto simp: Let_def case_prod_unfold split: sum.splits)

text \<open>The monitor probes only what is configured, and only once the stack shows a DNS server.\<close>

lemma monitor_round_cases:
  assumes "x \<in> set (fst (monitor_round probe r))"
  shows "x \<in> {LinkUpLogged, DhcpPendingLogged, LinkDownLogged, AddressLost} \<or> x \<in> range StateFailed
    \<or> (\<exists>n outcome. monitor_configured probe (mr_parts r) = Inr (n, outcome)
         \<and> (x = Configured n \<or> x \<in> set (probe_log probe outcome r)))"
  using assms await_configuration_log [of "mr_events r"]
  by (auto simp: monitor_round_def Let_def wait_ip_down_result(1) case_prod_unfold
      split: option.splits sum.splits bool.splits)

lemma monitor_round_probe:
  assumes "ProbeRan outcome \<in> set (fst (monitor_round probe r))"
  shows "\<exists>p s. probe = Some p \<and> snapshot_from_parts (fst (mr_parts r)) (snd (mr_parts r)) = Inr s
    \<and> is_dns_ready s \<and> outcome = snd (run_network_probe p (mr_dns r) (mr_tcp r))"
  using monitor_round_cases [OF assms]
  by (auto simp: monitor_configured_def probe_log_def split: option.splits if_splits sum.splits probe_outcome.splits)

text \<open>The loss of the address is always reported as that: the error branch is never taken.\<close>

lemma monitor_round_down: "DownFailed e \<notin> set (fst (monitor_round probe r))"
proof -
  have "DownFailed e \<notin> set (probe_log probe outcome r)" for outcome
    by (cases outcome; cases probe) (simp_all add: probe_log_def)
  then show ?thesis
    using monitor_round_cases [of "DownFailed e" probe r] by auto
qed

lemma network_monitor_log:
  "x \<in> set (network_monitor probe rounds) \<Longrightarrow> \<exists>r \<in> set rounds. x \<in> set (fst (monitor_round probe r))"
proof (induction rounds)
  case (Cons r rounds)
  obtain ls ended where "monitor_round probe r = (ls, ended)" by fastforce
  with Cons show ?case by (cases ended) auto
qed simp

lemma network_monitor_probe:
  assumes "ProbeRan outcome \<in> set (network_monitor probe rounds)"
  shows "\<exists>r \<in> set rounds. \<exists>p s. probe = Some p
       \<and> snapshot_from_parts (fst (mr_parts r)) (snd (mr_parts r)) = Inr s \<and> is_dns_ready s
       \<and> outcome = snd (run_network_probe p (mr_dns r) (mr_tcp r))"
  using network_monitor_log [OF assms] monitor_round_probe by blast

lemma network_monitor_down: "DownFailed e \<notin> set (network_monitor probe rounds)"
  using network_monitor_log [of "DownFailed e"] monitor_round_down by blast

end
