(* ===== verification/Firmware_Bluetooth.thy ===== *)
theory Firmware_Bluetooth
  imports Firmware Beacon
begin

text \<open>
  The Bluetooth task of \<open>firmware/seeed/xiao-esp32c6\<close>: its advertisement, the GATT
  sessions and the task that joins them with the host's runner. The host stack is an
  argument: what it answers in each round, and what happens on a connection.
\<close>

section \<open>Definitions\<close>

subsection \<open>Connections\<close>

text \<open>
  What happens on a connection: it ends, a request arrives (with the handle when it is a
  read, and whether the reply can be made), something else, or the time of a notification,
  which the peer takes or not.
\<close>

datatype conn_event = Disconnect | Request "u16 option" bool | OtherEvent | NotifyDue bool

datatype conn_log = StatusRead | Replied | ReplyFailed | Notified u8

text \<open>
  The two loops of a session, \<open>bluetooth_gatt_events\<close> and
  \<open>bluetooth_status_notifications\<close>, run until one of them returns; the flag says that one
  has.
\<close>

fun serve_connection :: "u16 \<Rightarrow> u8 \<Rightarrow> conn_event list \<Rightarrow> conn_log list \<times> bool" where
  "serve_connection status v [] = ([], False)"
| "serve_connection status v (Disconnect # es) = ([], True)"
| "serve_connection status v (Request h accepted # es) =
     (let (ls, ended) = serve_connection status v es
      in ((if h = Some status then [StatusRead] else [])
          @ (if accepted then [Replied] else [ReplyFailed]) @ ls, ended))"
| "serve_connection status v (OtherEvent # es) = serve_connection status v es"
| "serve_connection status v (NotifyDue received # es) =
     (if received
      then let (ls, ended) = serve_connection status (v + 1) es in (Notified (v + 1) # ls, ended)
      else ([], True))"

subsection \<open>The task\<close>

datatype session_log =
  GattServerFailed | BluetoothIsReady str | SessionAdvertising | SessionConnected | SessionLog conn_log
| SessionDisconnected | SessionAdvertisingFailed | SessionRunnerFailed | RetryInSeconds nat

datatype ('ee, 'he) advertise_error = EncodeFailed 'ee | HostFailed 'he

text \<open>
  A round of the host: whether it starts to advertise the bytes, the connection it accepts
  and attaches to the server, and what happens on that.
\<close>

record ('conn, 'he) host_round =
  hr_advertise :: "u8 list \<Rightarrow> (unit, 'he) result"
  hr_accept :: "('conn, 'he) result"
  hr_attach :: "'conn \<Rightarrow> ('conn, 'he) result"
  hr_events :: "conn_event list"

definition advertise_bluetooth ::
  "(ad_structure list \<Rightarrow> u8 list \<Rightarrow> (nat, 'ee) result \<times> u8 list) \<Rightarrow> ('conn, 'he) host_round \<Rightarrow> str
   \<Rightarrow> session_log list \<times> ('conn, ('ee, 'he) advertise_error) result" where
  "advertise_bluetooth encode_slice host name =
     (case encode_slice [AdFlags 0x06, AdCompleteLocalName name] (replicate 31 0) of
        (Inl e, _) \<Rightarrow> ([], Err (EncodeFailed e))
      | (Inr n, advertising_data) \<Rightarrow>
          (case hr_advertise host (take n advertising_data) of
             Inl e \<Rightarrow> ([], Err (HostFailed e))
           | Inr _ \<Rightarrow>
               ([SessionAdvertising],
                case hr_accept host of
                  Inl e \<Rightarrow> Err (HostFailed e)
                | Inr connection \<Rightarrow> map_err HostFailed (hr_attach host connection))))"

text \<open>
  The loop of \<open>bluetooth_task\<close>, a round per advertisement: a connection is served until one
  of its loops returns, and a failure is retried after a second.
\<close>

fun bluetooth_sessions ::
  "(ad_structure list \<Rightarrow> u8 list \<Rightarrow> (nat, 'ee) result \<times> u8 list) \<Rightarrow> u16 \<Rightarrow> str
   \<Rightarrow> ('conn, 'he) host_round list \<Rightarrow> session_log list" where
  "bluetooth_sessions encode_slice status name [] = []"
| "bluetooth_sessions encode_slice status name (host # rounds) =
     (case advertise_bluetooth encode_slice host name of
        (ls, Inr connection) \<Rightarrow>
          ls @ SessionConnected # map SessionLog (fst (serve_connection status 0 (hr_events host)))
          @ (if snd (serve_connection status 0 (hr_events host))
             then SessionDisconnected # bluetooth_sessions encode_slice status name rounds else [])
      | (ls, Inl e) \<Rightarrow>
          ls @ [SessionAdvertisingFailed, RetryInSeconds 1]
          @ bluetooth_sessions encode_slice status name rounds)"

fun session_runner :: "bool list \<Rightarrow> session_log list" where
  "session_runner [] = []"
| "session_runner (is_err # runs) =
     (if is_err then [SessionRunnerFailed, RetryInSeconds 1] else []) @ session_runner runs"

text \<open>
  The whole task: the address the host is given, and the logs it can produce. The GATT server
  is built first, with the handle of its status characteristic; without it the task returns.
\<close>

definition bluetooth_task ::
  "(ad_structure list \<Rightarrow> u8 list \<Rightarrow> (nat, 'ee) result \<times> u8 list) \<Rightarrow> peripheral_config
   \<Rightarrow> (str \<Rightarrow> (u16, 'se) result) \<Rightarrow> bool list \<Rightarrow> ('conn, 'he) host_round list
   \<Rightarrow> u8 list \<times> session_log list set" where
  "bluetooth_task encode_slice config server runs rounds =
     (to_hci_bytes (pc_address config),
      let name = device_name_as_str (pc_name config)
      in case server name of
           Inl e \<Rightarrow> {[GattServerFailed]}
         | Inr status \<Rightarrow>
             (#) (BluetoothIsReady name) `
               shuffles (session_runner runs) (bluetooth_sessions encode_slice status name rounds))"

subsection \<open>Specifications\<close>

text \<open>The values notified in a session, and the requests and replies.\<close>

fun notified :: "conn_log list \<Rightarrow> u8 list" where
  "notified [] = []"
| "notified (Notified v # ls) = v # notified ls"
| "notified (_ # ls) = notified ls"

fun replies :: "conn_log list \<Rightarrow> bool list" where
  "replies [] = []"
| "replies (Replied # ls) = True # replies ls"
| "replies (ReplyFailed # ls) = False # replies ls"
| "replies (_ # ls) = replies ls"

text \<open>The events a session lives to see: up to the one that ends it.\<close>

fun session_events :: "conn_event list \<Rightarrow> conn_event list" where
  "session_events [] = []"
| "session_events (Disconnect # es) = []"
| "session_events (NotifyDue False # es) = []"
| "session_events (e # es) = e # session_events es"

fun requests :: "conn_event list \<Rightarrow> bool list" where
  "requests [] = []"
| "requests (Request h accepted # es) = accepted # requests es"
| "requests (_ # es) = requests es"

fun due_notifications :: "conn_event list \<Rightarrow> nat" where
  "due_notifications [] = 0"
| "due_notifications (NotifyDue _ # es) = Suc (due_notifications es)"
| "due_notifications (_ # es) = due_notifications es"

text \<open>
  The rounds that lead to a connection when the given bytes are advertised, up to one whose
  connection does not end; and what the log of the task says of the connections.
\<close>

definition host_connects :: "u8 list \<Rightarrow> ('conn, 'he) host_round \<Rightarrow> bool" where
  "host_connects data host \<longleftrightarrow>
     is_ok (hr_advertise host data)
     \<and> (case hr_accept host of Inl e \<Rightarrow> False | Inr connection \<Rightarrow> is_ok (hr_attach host connection))"

fun session_ends :: "conn_event list \<Rightarrow> bool" where
  "session_ends [] = False"
| "session_ends (Disconnect # es) = True"
| "session_ends (NotifyDue False # es) = True"
| "session_ends (e # es) = session_ends es"

fun served_rounds :: "u8 list \<Rightarrow> ('conn, 'he) host_round list \<Rightarrow> conn_event list list" where
  "served_rounds data [] = []"
| "served_rounds data (host # rounds) =
     (if host_connects data host
      then hr_events host # (if session_ends (hr_events host) then served_rounds data rounds else [])
      else served_rounds data rounds)"

fun is_session_entry :: "session_log \<Rightarrow> bool" where
  "is_session_entry (SessionLog c) = True"
| "is_session_entry _ = False"

fun session_entries :: "session_log list \<Rightarrow> conn_log list" where
  "session_entries [] = []"
| "session_entries (SessionLog c # ls) = c # session_entries ls"
| "session_entries (_ # ls) = session_entries ls"

section \<open>Lemmas\<close>

lemma serve_connection_log:
  "replies (fst (serve_connection status v es)) = requests (session_events es)
   \<and> notified (fst (serve_connection status v es)) = notified_values (due_notifications (session_events es)) v"
  by (induction status v es rule: serve_connection.induct) (auto simp: case_prod_beta Let_def)

lemma serve_connection_ends: "snd (serve_connection status v es) = session_ends es"
  by (induction status v es rule: serve_connection.induct) (auto simp: case_prod_beta Let_def)

lemma replies_append [simp]: "replies (xs @ ys) = replies xs @ replies ys"
  by (induction xs rule: replies.induct) simp_all

lemma notified_append [simp]: "notified (xs @ ys) = notified xs @ notified ys"
  by (induction xs rule: notified.induct) simp_all

lemma session_entries_append [simp]: "session_entries (xs @ ys) = session_entries xs @ session_entries ys"
  by (induction xs rule: session_entries.induct) simp_all

lemma session_entries_map [simp]: "session_entries (map SessionLog ls) = ls"
  by (induction ls) simp_all

lemma session_entries_filter: "session_entries (filter is_session_entry ls) = session_entries ls"
  by (induction ls rule: session_entries.induct) simp_all

lemma filter_session_runner: "filter is_session_entry (session_runner runs) = []"
  by (induction runs) simp_all

text \<open>What the runner logs in between leaves the entries of the sessions as they are.\<close>

lemma session_entries_shuffle:
  assumes "log \<in> shuffles (session_runner runs) ls"
  shows "session_entries log = session_entries ls"
proof -
  have "filter is_session_entry log \<in> filter is_session_entry ` shuffles (session_runner runs) ls"
    using assms by simp
  then have "filter is_session_entry log = filter is_session_entry ls"
    by (simp add: filter_shuffles filter_session_runner)
  then show ?thesis
    by (metis session_entries_filter)
qed

text \<open>The advertisement of a valid name, and when the host makes a connection of it.\<close>

lemma advertisement_fits:
  assumes "device_name_new v = Inr n" and "utf8_valid v" and "ad_encoder encode_slice"
  obtains data where "length data = 5 + length v" "length data \<le> 27" "device_name_as_str n = v"
    "fst (encode_slice [AdFlags 0x06, AdCompleteLocalName v] (replicate 31 0)) = Inr (5 + length v)"
    "data = take (5 + length v) (snd (encode_slice [AdFlags 0x06, AdCompleteLocalName v] (replicate 31 0)))"
proof -
  have name: "device_name_as_str n = v" "length v \<le> 22"
    using device_name_store.contents_new [OF assms(2, 1)] assms(1)
    by (auto simp: device_name_new_def MAX_DEVICE_NAME_LEN_def split: if_splits)
  let ?xs = "[AdFlags 0x06, AdCompleteLocalName v]" and ?b = "replicate 31 (0 :: u8)"
  have size: "(\<Sum>x \<leftarrow> ?xs. ad_size x) = 5 + length v"
    by simp
  have "fst (encode_slice ?xs ?b) = Inr (5 + length v)" "length (snd (encode_slice ?xs ?b)) = 31"
    using assms(3) [unfolded ad_encoder_def, rule_format, of ?xs ?b] size name(2)
    by (simp_all only: Let_def length_replicate split: if_splits)
  with name show ?thesis
    by (intro that [of "take (5 + length v) (snd (encode_slice ?xs ?b))"]) simp_all
qed

lemma advertise_connects:
  assumes "fst (encode_slice [AdFlags 0x06, AdCompleteLocalName v] (replicate 31 0)) = Inr k"
  shows "is_ok (snd (advertise_bluetooth encode_slice host v)) \<longleftrightarrow>
      host_connects (take k (snd (encode_slice [AdFlags 0x06, AdCompleteLocalName v] (replicate 31 0)))) host"
    and "session_entries (fst (advertise_bluetooth encode_slice host v)) = []"
  using assms
  by (auto simp: advertise_bluetooth_def host_connects_def map_err_def is_ok_def split: prod.splits sum.splits)

lemma sessions_served:
  assumes "fst (encode_slice [AdFlags 0x06, AdCompleteLocalName v] (replicate 31 0)) = Inr k"
  defines "data \<equiv> take k (snd (encode_slice [AdFlags 0x06, AdCompleteLocalName v] (replicate 31 0)))"
  shows "session_entries (bluetooth_sessions encode_slice status v rounds) =
    concat (map (\<lambda>es. fst (serve_connection status 0 es)) (served_rounds data rounds))"
proof (induction rounds)
  case (Cons host rounds)
  obtain ls r where adv: "advertise_bluetooth encode_slice host v = (ls, r)"
    by fastforce
  have "session_entries ls = []" "is_ok r \<longleftrightarrow> host_connects data host"
    using advertise_connects [of encode_slice v k host, OF assms(1)] by (simp_all add: adv data_def)
  with Cons.IH show ?case
    by (cases r) (simp_all add: adv serve_connection_ends is_ok_def)
qed simp

section \<open>Properties\<close>



end
