(* ===== verification/Firmware_Boot.thy ===== *)
theory Firmware_Boot
  imports Firmware_Mqtt Firmware_Network Beacon Hardware "HOL-Library.Sublist"
begin

text \<open>
  How the firmware images come up: \<open>main\<close> and \<open>start_networking\<close> of
  \<open>firmware/seeed/xiao-esp32c6\<close>, and \<open>main\<close> of the beacon image. The answers of the hardware and of the vendor's
  drivers are arguments; what a start-up does is the list of its steps, in order.
\<close>

section \<open>Definitions\<close>

subsection \<open>Steps\<close>

datatype firmware_task =
  HeartbeatTask
| BluetoothTask peripheral_config
| NetworkRunnerTask
| WifiStationTask
| NetworkMonitorTask "network_probe option"
| MqttTask mqtt_development_config
| MqttProducerTask

text \<open>
  A pin that is driven, a task that is spawned or for which there is no slot, a subsystem
  that fails to come up with its error, and the end of a start-up that cannot go on.
\<close>

datatype ('t, 'e) boot_step =
  PinDriven u8 bool
| Spawned 't
| SpawnFailed 't
| NameRejected bt_config_error
| BluetoothFailed "'e esp_bt_error"
| WifiFailed "'e esp_wifi_error"
| ScanReported scan_summary
| ScanFailed "'e esp_wifi_error"
| StationConfigFailed "'e esp_wifi_error"
| CredentialError wifi_config_error
| ScanOnlyMode
| ProbeConfigFailed str
| MqttConfigFailed str
| MqttDisabled
| SettingsRejected str
| BootHalted

definition try_spawn :: "('t \<Rightarrow> bool) \<Rightarrow> 't \<Rightarrow> ('t, 'e) boot_step" where
  "try_spawn slot t = (if slot t then Spawned t else SpawnFailed t)"

text \<open>The light is off (it is active low), the antenna switch is on and selects the antenna on the board.\<close>

definition radio_pins :: "('t, 'e) boot_step list" where
  "radio_pins = [PinDriven 15 True, PinDriven 3 False, PinDriven 14 False]"

subsection \<open>The main image\<close>

record build_env =
  WIFI_SSID :: "str option"
  WIFI_PASSWORD :: "str option"
  NETWORK_TEST_HOST :: "str option"
  NETWORK_TEST_PORT :: "str option"
  mqtt_variables :: mqtt_env

record ('b, 'c, 'i, 'e) board_answers =
  ba_slot :: "firmware_task \<Rightarrow> bool"
  ba_mac :: "u8 list"
  ba_bluetooth :: "controller_config \<Rightarrow> ('b, 'e) result"
  ba_wifi :: "('c \<times> 'i, 'e) result"
  ba_scan :: "nat \<Rightarrow> (discovered list, 'e) result"
  ba_set_config :: "esp_station_config \<Rightarrow> 'c \<Rightarrow> (unit, 'e) result \<times> 'c"

definition start_networking ::
  "(firmware_task \<Rightarrow> bool) \<Rightarrow> network_probe option \<Rightarrow> mqtt_development_config option
   \<Rightarrow> (firmware_task, 'e) boot_step list" where
  "start_networking slot probe mqtt =
     (if \<not> slot NetworkRunnerTask then [SpawnFailed NetworkRunnerTask]
      else Spawned NetworkRunnerTask #
        (if \<not> slot WifiStationTask then [SpawnFailed WifiStationTask]
         else Spawned WifiStationTask # try_spawn slot (NetworkMonitorTask probe) #
           (case mqtt of
              Some config \<Rightarrow> [try_spawn slot (MqttTask config), try_spawn slot MqttProducerTask]
            | None \<Rightarrow> [MqttDisabled])))"

text \<open>The station part of \<open>main\<close>: an invalid probe or MQTT configuration is reported and left out.\<close>

definition start_station ::
  "build_env \<Rightarrow> ('b, 'c, 'i, 'e) board_answers \<Rightarrow> ('c, 'i) esp32c6_wifi \<Rightarrow> (firmware_task, 'e) boot_step list" where
  "start_station env answers wifi =
     (case development_station_config (WIFI_SSID env) (WIFI_PASSWORD env) of
        Inr (Some station) \<Rightarrow>
          (case configure_station (ba_set_config answers) station wifi of
             (Inl error, _) \<Rightarrow> [StationConfigFailed error]
           | (Inr _, wifi1) \<Rightarrow>
               (let (probe_steps, probe) =
                      (case development_network_probe (NETWORK_TEST_HOST env) (NETWORK_TEST_PORT env) of
                         Inr p \<Rightarrow> ([], p)
                       | Inl error \<Rightarrow> ([ProbeConfigFailed error], None));
                    (mqtt_steps, mqtt) =
                      (case development_mqtt_config (mqtt_variables env) of
                         Inr c \<Rightarrow> ([], c)
                       | Inl error \<Rightarrow> ([MqttConfigFailed error], None))
                in probe_steps @ mqtt_steps @ start_networking (ba_slot answers) probe mqtt))
      | Inr None \<Rightarrow> [ScanOnlyMode]
      | Inl error \<Rightarrow> [CredentialError error])"

definition start_wifi ::
  "build_env \<Rightarrow> ('b, 'c, 'i, 'e) board_answers \<Rightarrow> (firmware_task, 'e) boot_step list" where
  "start_wifi env answers =
     (case esp_wifi_new (ba_wifi answers) of
        Inl error \<Rightarrow> [WifiFailed error, BootHalted]
      | Inr wifi \<Rightarrow>
          (case esp_scan (ba_scan answers) 20 wifi of
             (Inr access_points, wifi1) \<Rightarrow>
               ScanReported (from_access_points access_points) # start_station env answers wifi1
           | (Inl error, wifi1) \<Rightarrow> ScanFailed error # start_station env answers wifi1))"

definition start_bluetooth ::
  "('b, 'c, 'i, 'e) board_answers \<Rightarrow> device_name \<Rightarrow> (firmware_task, 'e) boot_step" where
  "start_bluetooth answers name =
     (case esp_bt_new (ba_bluetooth answers) of
        Inr bluetooth \<Rightarrow>
          try_spawn (ba_slot answers)
            (BluetoothTask (peripheral_config_new name (esp_static_random_address (ba_mac answers))))
      | Inl error \<Rightarrow> BluetoothFailed error)"

definition firmware_main ::
  "build_env \<Rightarrow> ('b, 'c, 'i, 'e) board_answers \<Rightarrow> (firmware_task, 'e) boot_step list" where
  "firmware_main env answers =
     radio_pins @ try_spawn (ba_slot answers) HeartbeatTask #
       (case device_name_new BLUETOOTH_DEVICE_NAME of
          Inl error \<Rightarrow> [NameRejected error, BootHalted]
        | Inr name \<Rightarrow> start_bluetooth answers name # start_wifi env answers)"

subsection \<open>The beacon image\<close>

datatype beacon_boot_task = BeaconTask static_random_address settings

text \<open>
  \<open>main\<close> of the beacon: the controller is set to one connection and the configured power
  level; settings that are rejected end the start-up with their message.
\<close>

definition beacon_main ::
  "beacon_env \<Rightarrow> u8 list \<Rightarrow> (controller_config \<Rightarrow> ('b, 'e) result) \<Rightarrow> bool
   \<Rightarrow> (beacon_boot_task, 'e) boot_step list" where
  "beacon_main env mac init slot =
     radio_pins @
       (let address = esp_static_random_address mac
        in case beacon_settings env address of
             Inl error \<Rightarrow> [SettingsRejected (configuration_failure error), BootHalted]
           | Inr settings \<Rightarrow>
               (case esp_bt_new_with_config init
                       (controller_config_default
                         \<lparr>cc_max_connections := Some 1,
                          cc_default_tx_power := Some (bs_radio_tx_power settings)\<rparr>) of
                  Inr bluetooth \<Rightarrow> [try_spawn (\<lambda>_. slot) (BeaconTask address settings)]
                | Inl error \<Rightarrow> [BluetoothFailed error]))"

subsection \<open>Specifications\<close>

fun spawned :: "('t, 'e) boot_step list \<Rightarrow> 't list" where
  "spawned [] = []"
| "spawned (Spawned t # steps) = t # spawned steps"
| "spawned (_ # steps) = spawned steps"

text \<open>The tasks that \<open>start_networking\<close> spawns.\<close>

definition networking_tasks ::
  "(firmware_task \<Rightarrow> bool) \<Rightarrow> network_probe option \<Rightarrow> mqtt_development_config option \<Rightarrow> firmware_task list" where
  "networking_tasks slot probe mqtt =
     (if \<not> slot NetworkRunnerTask then []
      else NetworkRunnerTask #
        (if \<not> slot WifiStationTask then []
         else WifiStationTask # filter slot (NetworkMonitorTask probe #
           (case mqtt of Some config \<Rightarrow> [MqttTask config, MqttProducerTask] | None \<Rightarrow> []))))"

text \<open>The driver's configuration for credentials that are accepted.\<close>

definition env_station :: "str \<Rightarrow> str option \<Rightarrow> esp_station_config" where
  "env_station s password =
     \<lparr>es_ssid = s, es_auth_method = (if password = None then AmNone else AmWpa2Wpa3Personal),
      es_password = password\<rparr>"

definition credentials_valid :: "str \<Rightarrow> str option \<Rightarrow> bool" where
  "credentials_valid s password \<longleftrightarrow>
     length s \<in> {1..32} \<and> (case password of None \<Rightarrow> True | Some p \<Rightarrow> passphrase_valid p)"

definition sample_env :: build_env where
  "sample_env =
     \<lparr>WIFI_SSID = Some (lit ''net''), WIFI_PASSWORD = None, NETWORK_TEST_HOST = None,
      NETWORK_TEST_PORT = None,
      mqtt_variables = \<lparr>MQTT_HOST = None, MQTT_PORT = None, MQTT_CLIENT_ID = None,
        MQTT_PLAINTEXT_FIXTURE = None, MQTT_USERNAME = None, MQTT_PASSWORD = None\<rparr>\<rparr>"

definition sample_answers :: "(unit, unit, unit, unit) board_answers" where
  "sample_answers =
     \<lparr>ba_slot = \<lambda>t. True, ba_mac = [1, 2, 3, 4, 5, 6], ba_bluetooth = \<lambda>config. Ok (), ba_wifi = Ok ((), ()),
      ba_scan = \<lambda>n. Ok [], ba_set_config = \<lambda>config c. (Ok (), c)\<rparr>"

section \<open>Lemmas\<close>

lemma spawned_append [simp]: "spawned (xs @ ys) = spawned xs @ spawned ys"
  by (induction xs rule: spawned.induct) simp_all

lemma mem_spawned: "t \<in> set (spawned steps) \<longleftrightarrow> Spawned t \<in> set steps"
  by (induction steps rule: spawned.induct) auto

lemma spawned_try: "spawned (try_spawn slot t # steps) = (if slot t then [t] else []) @ spawned steps"
  by (simp add: try_spawn_def)

lemma spawned_radio_pins [simp]: "spawned radio_pins = []"
  by (simp add: radio_pins_def)

lemma spawned_start_networking [simp]: "spawned (start_networking slot probe mqtt) = networking_tasks slot probe mqtt"
  by (simp add: start_networking_def networking_tasks_def try_spawn_def split: option.split)

lemma start_networking_members:
  "BluetoothTask p \<notin> set (networking_tasks slot probe mqtt)"
  "MqttTask c \<in> set (networking_tasks slot probe mqtt) \<Longrightarrow>
     mqtt = Some c \<and> NetworkRunnerTask \<in> set (networking_tasks slot probe mqtt)
     \<and> WifiStationTask \<in> set (networking_tasks slot probe mqtt)"
  by (auto simp: networking_tasks_def split: option.splits if_splits)

text \<open>The two ways a station part goes: no task at all, or the networking start with checked inputs.\<close>

lemma start_station_shape:
  "spawned (start_station env answers wifi) = []
   \<or> (\<exists>station probe mqtt.
        development_station_config (WIFI_SSID env) (WIFI_PASSWORD env) = Inr (Some station)
        \<and> (mqtt \<noteq> None \<longrightarrow> development_mqtt_config (mqtt_variables env) = Inr mqtt)
        \<and> spawned (start_station env answers wifi) = networking_tasks (ba_slot answers) probe mqtt)"
  by (auto simp: start_station_def Let_def split: sum.splits option.splits prod.splits)

lemma device_name_fixed: "\<exists>n. device_name_new BLUETOOTH_DEVICE_NAME = Inr n \<and> device_name_as_str n = BLUETOOTH_DEVICE_NAME"
proof -
  have "is_ok (device_name_new BLUETOOTH_DEVICE_NAME)"
    by (simp add: device_name_new_def BLUETOOTH_DEVICE_NAME_def MAX_DEVICE_NAME_LEN_def)
  then obtain n where n: "device_name_new BLUETOOTH_DEVICE_NAME = Inr n"
    by (auto simp: is_ok_iff)
  have "utf8_valid BLUETOOTH_DEVICE_NAME"
    unfolding BLUETOOTH_DEVICE_NAME_def by (rule utf8_valid_ascii) simp
  with device_name_store.contents_new [OF this n] n show ?thesis
    by blast
qed

lemma firmware_main_parts:
  obtains n where "device_name_new BLUETOOTH_DEVICE_NAME = Inr n"
    "device_name_as_str n = BLUETOOTH_DEVICE_NAME"
    "firmware_main env answers = radio_pins @ try_spawn (ba_slot answers) HeartbeatTask #
       start_bluetooth answers n # start_wifi env answers"
  using device_name_fixed by (auto simp: firmware_main_def)

lemma start_wifi_shape:
  "spawned (start_wifi env answers) = []
   \<or> is_ok (ba_wifi answers) \<and> (\<exists>wifi. spawned (start_wifi env answers) = spawned (start_station env answers wifi))"
  by (auto simp: start_wifi_def esp_wifi_new_def map_err_def is_ok_def split: sum.splits prod.splits)

lemma networking_shape:
  "spawned (start_wifi env answers) = []
   \<or> (\<exists>station probe mqtt. is_ok (ba_wifi answers)
        \<and> development_station_config (WIFI_SSID env) (WIFI_PASSWORD env) = Inr (Some station)
        \<and> (mqtt \<noteq> None \<longrightarrow> development_mqtt_config (mqtt_variables env) = Inr mqtt)
        \<and> spawned (start_wifi env answers) = networking_tasks (ba_slot answers) probe mqtt)"
  using start_wifi_shape [of env answers] start_station_shape [of env answers] by metis

lemma startup_chain:
  "\<lbrakk>hb = [] \<or> hb = [HeartbeatTask]; bt = [] \<or> bt = [BluetoothTask p]\<rbrakk> \<Longrightarrow>
     \<exists>probe' c. subseq (hb @ bt @ networking_tasks slot probe mqtt)
       [HeartbeatTask, BluetoothTask p, NetworkRunnerTask, WifiStationTask, NetworkMonitorTask probe',
        MqttTask c, MqttProducerTask]"
  by (cases mqtt) (auto simp: networking_tasks_def)

lemma start_bluetooth_spawned:
  "spawned (start_bluetooth answers n # steps) =
     (if is_ok (ba_bluetooth answers controller_config_default)
         \<and> ba_slot answers (BluetoothTask (peripheral_config_new n (esp_static_random_address (ba_mac answers))))
      then [BluetoothTask (peripheral_config_new n (esp_static_random_address (ba_mac answers)))] else [])
     @ spawned steps"
  by (auto simp: start_bluetooth_def esp_bt_new_def esp_bt_new_with_config_def is_ok_def spawned_try split: sum.splits)

lemma mac_address_valid: "length mac = 6 \<Longrightarrow> static_random_valid (sra_bytes (esp_static_random_address mac))"
  unfolding esp_static_random_address_def by (rule from_seed_valid) simp

text \<open>The tasks of a start-up: the heartbeat, the Bluetooth task and the ones of the Wi-Fi part.\<close>

lemma firmware_main_shape:
  assumes "length (ba_mac answers) = 6"
  obtains p hb bt where "device_name_as_str (pc_name p) = BLUETOOTH_DEVICE_NAME"
    "static_random_valid (sra_bytes (pc_address p))"
    "hb = [] \<or> hb = [HeartbeatTask]" "bt = [] \<or> bt = [BluetoothTask p]"
    "spawned (firmware_main env answers) = hb @ bt @ spawned (start_wifi env answers)"
proof -
  obtain n where n: "device_name_as_str n = BLUETOOTH_DEVICE_NAME"
    and main: "firmware_main env answers = radio_pins @ try_spawn (ba_slot answers) HeartbeatTask #
       start_bluetooth answers n # start_wifi env answers"
    using firmware_main_parts [of env answers] by metis
  let ?p = "peripheral_config_new n (esp_static_random_address (ba_mac answers))"
  show ?thesis
    by (rule that [of ?p "if ba_slot answers HeartbeatTask then [HeartbeatTask] else []"
          "if is_ok (ba_bluetooth answers controller_config_default) \<and> ba_slot answers (BluetoothTask ?p) then [BluetoothTask ?p] else []"])
      (use mac_address_valid [OF assms] n in
        \<open>simp_all add: main spawned_try start_bluetooth_spawned peripheral_config_new_def\<close>)
qed

text \<open>The beacon only starts with accepted settings, a controller at their power level and a valid address.\<close>

lemma beacon_startup:
  assumes "length mac = 6"
  shows "spawned (beacon_main env mac init slot) = [BeaconTask a s] \<longleftrightarrow>
     a = esp_static_random_address mac \<and> beacon_settings env a = Inr s
     \<and> is_ok (init \<lparr>cc_max_connections = Some 1, cc_default_tx_power = Some (bs_radio_tx_power s)\<rparr>) \<and> slot"
    and "static_random_valid (sra_bytes (esp_static_random_address mac))"
  using mac_address_valid [OF assms]
  by (auto simp: beacon_main_def Let_def controller_config_default_def esp_bt_new_with_config_def is_ok_def try_spawn_def split: sum.splits)

subsection \<open>Credentials\<close>

lemma ssid_from_env:
  assumes "utf8_valid s" and "ssid_try_from s = Inr i"
  shows "ssid_as_str i = Some s" "ssid_is_empty i \<longleftrightarrow> s = []" "length s \<le> 32"
proof -
  have stored: "ssid_as_bytes i = s" "ssid_length i = length s" "length s \<le> 32"
    using assms(2) ssid_store.contents_new [of s i] ssid_store.len_new [of s i] ssid_store.new_accepts [of s]
    by (simp_all add: ssid_try_from_def MAX_SSID_LEN_def)
  then show "ssid_as_str i = Some s" "length s \<le> 32"
    using assms(1) by (simp_all add: ssid_as_str_def)
  show "ssid_is_empty i \<longleftrightarrow> s = []"
    using stored(2) by (auto simp: ssid_is_empty_def ssid_length_def unat_eq_0)
qed

lemma station_from_env:
  assumes "utf8_valid s" and "\<forall>p. password = Some p \<longrightarrow> utf8_valid p"
  shows "(\<exists>station. development_station_config (Some s) password = Inr (Some station)) \<longleftrightarrow> credentials_valid s password"
    and "development_station_config (Some s) password = Inr (Some station) \<Longrightarrow>
      ssid_as_str (sc_ssid station) = Some s
      \<and> map_option passphrase_as_str (sc_passphrase station) = password
      \<and> sc_authentication station = (if password = None then Open else Wpa2Wpa3Personal)"
proof -
  have ssid: "is_ok (ssid_try_from s) \<longleftrightarrow> length s \<le> 32"
    using ssid_store.new_accepts [of s] by (simp add: ssid_try_from_def MAX_SSID_LEN_def)
  have pass: "passphrase_new p = Inr q \<Longrightarrow> passphrase_valid p" "passphrase_new p = Inl e \<Longrightarrow> \<not> passphrase_valid p" for p q e
    using passphrase_store.new_accepts [of p] by simp_all
  have empty: "ssid_is_empty i \<longleftrightarrow> s = []" if "ssid_try_from s = Inr i" for i
    by (rule ssid_from_env(2) [OF assms(1) that])
  show "(\<exists>station. development_station_config (Some s) password = Inr (Some station)) \<longleftrightarrow> credentials_valid s password"
    using ssid pass empty
    by (auto simp: development_station_config_def station_open_def station_personal_def validate_ssid_def
        credentials_valid_def is_ok_iff Suc_le_eq split: option.splits sum.splits if_splits)
  show "ssid_as_str (sc_ssid station) = Some s \<and> map_option passphrase_as_str (sc_passphrase station) = password
      \<and> sc_authentication station = (if password = None then Open else Wpa2Wpa3Personal)"
    if "development_station_config (Some s) password = Inr (Some station)"
    using that ssid_from_env(1) [OF assms(1)] passphrase_store.contents_new assms(2)
    by (auto simp: development_station_config_def station_open_def station_personal_def
        split: option.splits sum.splits if_splits)
qed

lemma configure_from_env:
  assumes "utf8_valid s" and "\<forall>p. password = Some p \<longrightarrow> utf8_valid p"
    and "development_station_config (Some s) password = Inr (Some station)"
  shows "is_ok (fst (configure_station set_config station w)) \<longleftrightarrow>
    is_ok (fst (set_config (env_station s password) (ew_controller w)))"
  using station_from_env(2) [OF assms]
  by (auto simp: configure_station_def env_station_def Let_def split: prod.splits sum.splits if_splits)

lemma start_wifi_station:
  assumes "ba_wifi answers = Inr (controller, station_interface)"
  obtains wifi where "ew_controller wifi = controller"
    "spawned (start_wifi env answers) = spawned (start_station env answers wifi)"
proof -
  let ?w = "\<lparr>ew_controller = controller, ew_station = station_interface, ew_state = WsReady\<rparr>"
  have "ew_controller (snd (esp_scan (ba_scan answers) 20 ?w)) = controller"
    by (simp add: esp_scan_def Let_def split: sum.splits)
  moreover have "spawned (start_wifi env answers) =
      spawned (start_station env answers (snd (esp_scan (ba_scan answers) 20 ?w)))"
    by (simp add: start_wifi_def esp_wifi_new_def assms split: prod.splits sum.splits)
  ultimately show ?thesis
    by (rule that)
qed

lemma station_task_networking:
  "WifiStationTask \<in> set (networking_tasks slot probe mqtt) \<longleftrightarrow> slot NetworkRunnerTask \<and> slot WifiStationTask"
  by (auto simp: networking_tasks_def split: option.splits)

lemma station_task_started:
  assumes "\<forall>s. WIFI_SSID env = Some s \<longrightarrow> utf8_valid s" and "\<forall>p. WIFI_PASSWORD env = Some p \<longrightarrow> utf8_valid p"
  shows "WifiStationTask \<in> set (spawned (start_station env answers wifi)) \<longleftrightarrow>
    (\<exists>s. WIFI_SSID env = Some s \<and> credentials_valid s (WIFI_PASSWORD env)
       \<and> is_ok (fst (ba_set_config answers (env_station s (WIFI_PASSWORD env)) (ew_controller wifi))))
    \<and> ba_slot answers NetworkRunnerTask \<and> ba_slot answers WifiStationTask"
proof (cases "WIFI_SSID env")
  case None
  then show ?thesis
    by (simp add: start_station_def development_station_config_def split: option.splits)
next
  case (Some s)
  then have s: "utf8_valid s"
    using assms(1) by simp
  show ?thesis
  proof (cases "development_station_config (Some s) (WIFI_PASSWORD env)")
    case (Inl e)
    then show ?thesis
      using station_from_env(1) [OF s assms(2)] by (simp add: start_station_def Some)
  next
    case (Inr c)
    show ?thesis
    proof (cases c)
      case None
      then show ?thesis
        using station_from_env(1) [OF s assms(2)] Inr by (simp add: start_station_def Some)
    next
      case (Some station)
      with Inr have station: "development_station_config (Some s) (WIFI_PASSWORD env) = Inr (Some station)"
        by simp
      have "credentials_valid s (WIFI_PASSWORD env)"
        using station_from_env(1) [OF s assms(2)] station by blast
      moreover have "WifiStationTask \<in> set (spawned (start_station env answers wifi)) \<longleftrightarrow>
          is_ok (fst (configure_station (ba_set_config answers) station wifi))
          \<and> ba_slot answers NetworkRunnerTask \<and> ba_slot answers WifiStationTask"
        by (auto simp: start_station_def \<open>WIFI_SSID env = Some s\<close> station Let_def station_task_networking
            split: prod.splits sum.splits)
      ultimately show ?thesis
        by (simp add: \<open>WIFI_SSID env = Some s\<close> configure_from_env [OF s assms(2) station])
    qed
  qed
qed

section \<open>Properties\<close>



text \<open>
  C31. The credentials of a build reach the radio unchanged: when the radio comes up, the
  Wi-Fi station task is started exactly when the build has a network name of 1 to 32 bytes,
  with no password or one of 8 to 63 bytes or 64 hexadecimal digits, the driver accepts the
  configuration with exactly that name and password (open without one, WPA2/WPA3 with one),
  whatever the scan before it gave, and the executor has slots for the network runner and
  the station.
\<close>

theorem credentials_reach_radio:
  assumes "\<forall>s. WIFI_SSID env = Some s \<longrightarrow> utf8_valid s" and "\<forall>p. WIFI_PASSWORD env = Some p \<longrightarrow> utf8_valid p"
    and "length (ba_mac answers) = 6" and "ba_wifi answers = Inr (controller, station_interface)"
  shows "WifiStationTask \<in> set (spawned (firmware_main env answers)) \<longleftrightarrow>
    (\<exists>s. WIFI_SSID env = Some s \<and> length s \<in> {1..32}
       \<and> (\<forall>p. WIFI_PASSWORD env = Some p \<longrightarrow> length p \<in> {8..63} \<or> length p = 64 \<and> list_all is_ascii_hexdigit p)
       \<and> is_ok (fst (ba_set_config answers
            \<lparr>es_ssid = s, es_auth_method = (if WIFI_PASSWORD env = None then AmNone else AmWpa2Wpa3Personal),
             es_password = WIFI_PASSWORD env\<rparr> controller)))
    \<and> ba_slot answers NetworkRunnerTask \<and> ba_slot answers WifiStationTask"
proof -
  obtain p hb bt where "hb = [] \<or> hb = [HeartbeatTask]" "bt = [] \<or> bt = [BluetoothTask p]"
    and sp: "spawned (firmware_main env answers) = hb @ bt @ spawned (start_wifi env answers)"
    using firmware_main_shape [OF assms(3), of env] by metis
  then have main: "WifiStationTask \<in> set (spawned (firmware_main env answers)) \<longleftrightarrow>
      WifiStationTask \<in> set (spawned (start_wifi env answers))"
    by auto
  obtain wifi where wifi: "ew_controller wifi = controller"
    "spawned (start_wifi env answers) = spawned (start_station env answers wifi)"
    using start_wifi_station [OF assms(4)] by blast
  have valid: "credentials_valid s (WIFI_PASSWORD env) \<longleftrightarrow> length s \<in> {1..32}
      \<and> (\<forall>p. WIFI_PASSWORD env = Some p \<longrightarrow> length p \<in> {8..63} \<or> length p = 64 \<and> list_all is_ascii_hexdigit p)" for s
    by (auto simp: credentials_valid_def passphrase_valid_def MAX_PASSPHRASE_LEN_def split: option.splits)
  show ?thesis
    unfolding main wifi(2) station_task_started [OF assms(1, 2)] valid env_station_def [symmetric] wifi(1) by blast
qed

theorem credentials_reach_radio_witness:
  "WifiStationTask \<in> set (spawned (firmware_main sample_env sample_answers))"
proof -
  have "utf8_valid (lit ''net'')"
    by (rule utf8_valid_ascii) simp
  then show ?thesis
    using credentials_reach_radio [of sample_env sample_answers "()" "()"]
    by (simp add: sample_env_def sample_answers_def)
qed

end
