(* ===== verification/Firmware_Console.thy ===== *)
theory Firmware_Console
  imports Firmware_Boot
begin

text \<open>
  What \<open>firmware/seeed/xiao-esp32c6\<close> prints at start-up, under Wi-Fi supervision and in the
  network monitor, as text. The networking plan of the repository asks that normal logs report
  state changes, retry counts and probe results and never SSIDs, BSSIDs, MAC addresses,
  credentials or DNS query contents; the second half is shown as noninterference: two devices
  that differ only in these print the same. The \<open>Debug\<close> and \<open>Display\<close> texts of the drivers'
  errors are arguments.
\<close>

section \<open>Definitions\<close>

subsection \<open>Start-up\<close>

fun spawn_failure :: "firmware_task \<Rightarrow> str" where
  "spawn_failure HeartbeatTask = lit ''embedded-sdk heartbeat task allocation failed''"
| "spawn_failure (BluetoothTask p) = lit ''embedded-sdk bluetooth task allocation failed''"
| "spawn_failure NetworkRunnerTask = lit ''embedded-sdk network runner task allocation failed''"
| "spawn_failure WifiStationTask = lit ''embedded-sdk wifi station task allocation failed''"
| "spawn_failure (NetworkMonitorTask probe) = lit ''embedded-sdk network monitor task allocation failed''"
| "spawn_failure (MqttTask config) = lit ''embedded-sdk MQTT task allocation failed''"
| "spawn_failure MqttProducerTask = lit ''embedded-sdk MQTT producer task allocation failed''"

text \<open>\<open>Debug\<close> of an optional signed byte.\<close>

definition debug_option_i8 :: "i8 option \<Rightarrow> str" where
  "debug_option_i8 x = (case x of None \<Rightarrow> lit ''None'' | Some v \<Rightarrow> lit ''Some('' @ fmt_int (sint v) @ lit '')'')"

fun boot_step_lines :: "('e \<Rightarrow> str) \<Rightarrow> ('e \<Rightarrow> str) \<Rightarrow> (firmware_task, 'e) boot_step \<Rightarrow> str list" where
  "boot_step_lines show_init debug (SpawnFailed t) = [spawn_failure t]"
| "boot_step_lines show_init debug (NameRejected e) =
     [lit ''embedded-sdk bluetooth configuration failed: '' @ bt_config_error_display e]"
| "boot_step_lines show_init debug (BluetoothFailed e) =
     [lit ''embedded-sdk bluetooth init failed: '' @ esp_bt_error_display show_init e]"
| "boot_step_lines show_init debug (WifiFailed e) =
     [lit ''embedded-sdk wifi init failed: '' @ esp_wifi_error_display debug e]"
| "boot_step_lines show_init debug (ScanReported summary) =
     [lit ''embedded-sdk wifi scan: access_points='' @ fmt_dec (unat (ss_access_points summary))
      @ lit '', strongest_signal_dbm='' @ debug_option_i8 (ss_strongest_signal_dbm summary)]"
| "boot_step_lines show_init debug (ScanFailed e) =
     [lit ''embedded-sdk wifi scan failed: '' @ esp_wifi_error_display debug e]"
| "boot_step_lines show_init debug (StationConfigFailed e) =
     [lit ''embedded-sdk wifi configuration failed: '' @ esp_wifi_error_display debug e]"
| "boot_step_lines show_init debug (CredentialError e) =
     [lit ''embedded-sdk wifi credential error: '' @ wifi_config_error_display e]"
| "boot_step_lines show_init debug ScanOnlyMode =
     [lit ''embedded-sdk wifi station: credentials not configured; scan-only mode'']"
| "boot_step_lines show_init debug (ProbeConfigFailed e) =
     [lit ''embedded-sdk network probe configuration failed: '' @ e]"
| "boot_step_lines show_init debug (MqttConfigFailed e) =
     [lit ''embedded-sdk MQTT configuration failed: '' @ e]"
| "boot_step_lines show_init debug MqttDisabled = [lit ''embedded-sdk MQTT disabled'']"
| "boot_step_lines show_init debug _ = []"

definition boot_console ::
  "('e \<Rightarrow> str) \<Rightarrow> ('e \<Rightarrow> str) \<Rightarrow> build_env \<Rightarrow> ('b, 'c, 'i, 'e) board_answers \<Rightarrow> str list" where
  "boot_console show_init debug env answers =
     (lit ''embedded-sdk boot: board='' @ hw_board HARDWARE @ lit '', chip='' @ hw_chip HARDWARE)
     # concat (map (boot_step_lines show_init debug) (firmware_main env answers))"

subsection \<open>Wi-Fi supervision\<close>

fun debug_security :: "security \<Rightarrow> str" where
  "debug_security SecOpen = lit ''Open''"
| "debug_security SecWep = lit ''Wep''"
| "debug_security SecWpa = lit ''Wpa''"
| "debug_security SecWpa2Personal = lit ''Wpa2Personal''"
| "debug_security SecWpa3Personal = lit ''Wpa3Personal''"
| "debug_security SecEnterprise = lit ''Enterprise''"
| "debug_security SecUnknown = lit ''Unknown''"

definition retry_line :: "reconnect_backoff \<Rightarrow> u32 \<Rightarrow> str" where
  "retry_line backoff retry_delay_ms =
     lit ''embedded-sdk wifi retry: attempt='' @ fmt_dec (unat (rb_attempts backoff))
     @ lit '', delay_ms='' @ fmt_dec (unat retry_delay_ms)"

definition supervise_lines ::
  "('e \<Rightarrow> str) \<Rightarrow> 'e station_round \<Rightarrow> 'c station_controller \<times> reconnect_backoff \<Rightarrow> str list" where
  "supervise_lines debug r state =
     (let (wifi, _) = state;
          (retry_delay_ms, _, backoff) = supervise_round r state
      in (case esp_connect (sr_connect r) wifi of
            (Inr connected, w) \<Rightarrow>
              [lit ''embedded-sdk wifi associated: channel='' @ fmt_dec (unat (cs_channel connected))
                 @ lit '', security='' @ debug_security (cs_security connected),
               (case fst (wait_for_disconnect (sr_disconnect r) w) of
                  Inr _ \<Rightarrow> lit ''embedded-sdk wifi link lost''
                | Inl error \<Rightarrow>
                    lit ''embedded-sdk wifi disconnect wait failed: '' @ esp_wifi_error_display debug error)]
          | (Inl error, w) \<Rightarrow>
              [lit ''embedded-sdk wifi association failed: '' @ esp_wifi_error_display debug error])
         @ [retry_line backoff retry_delay_ms])"

fun supervise_console_from ::
  "('e \<Rightarrow> str) \<Rightarrow> 'e station_round list \<Rightarrow> 'c station_controller \<times> reconnect_backoff \<Rightarrow> str list" where
  "supervise_console_from debug [] state = []"
| "supervise_console_from debug (r # rounds) state =
     supervise_lines debug r state @ supervise_console_from debug rounds (snd (supervise_round r state))"

definition supervise_console :: "('e \<Rightarrow> str) \<Rightarrow> 'e station_round list \<Rightarrow> 'c station_controller \<Rightarrow> str list" where
  "supervise_console debug rounds wifi = supervise_console_from debug rounds (wifi, reconnect_backoff_default)"

subsection \<open>The network monitor\<close>

fun probe_line :: "('te \<Rightarrow> str) \<Rightarrow> 'te probe_result \<Rightarrow> str" where
  "probe_line debug (ProbeDnsFailed e) = lit ''embedded-sdk network DNS probe failed: '' @ resolve_error_display e"
| "probe_line debug ProbeDnsTimedOut = lit ''embedded-sdk network DNS probe timed out''"
| "probe_line debug (ProbeTcpFailed e) = lit ''embedded-sdk network TCP probe failed: '' @ debug e"
| "probe_line debug ProbeTcpTimedOut = lit ''embedded-sdk network TCP probe timed out''"
| "probe_line debug (ProbeSucceeded count) =
     lit ''embedded-sdk network probe succeeded: resolved_addresses='' @ fmt_dec count"

fun monitor_line :: "('te \<Rightarrow> str) \<Rightarrow> 'te monitor_log \<Rightarrow> str" where
  "monitor_line debug LinkUpLogged = lit ''embedded-sdk network link up: ipv4=pending''"
| "monitor_line debug DhcpPendingLogged = lit ''embedded-sdk network DHCP pending''"
| "monitor_line debug LinkDownLogged = lit ''embedded-sdk network link down''"
| "monitor_line debug (StateFailed e) =
     lit ''embedded-sdk network state conversion failed: '' @ net_config_error_display e"
| "monitor_line debug (Configured dns_servers) =
     lit ''embedded-sdk network IPv4 configured: dns_servers='' @ fmt_dec dns_servers"
| "monitor_line debug (ProbeRan outcome) = probe_line debug outcome"
| "monitor_line debug ProbeSkipped = lit ''embedded-sdk network probe skipped: DNS unavailable''"
| "monitor_line debug AddressLost = lit ''embedded-sdk network IPv4 configuration lost''"
| "monitor_line debug (DownFailed e) =
     lit ''embedded-sdk network state conversion failed: '' @ net_config_error_display e"

definition monitor_console :: "('te \<Rightarrow> str) \<Rightarrow> network_probe option \<Rightarrow> 'te monitor_answers list \<Rightarrow> str list" where
  "monitor_console debug probe rounds = map (monitor_line debug) (network_monitor probe rounds)"

subsection \<open>Devices that differ only in what is confidential\<close>

text \<open>The outcome of a step with its value left out.\<close>

abbreviation verdict :: "('a, 'e) result \<Rightarrow> (unit, 'e) result" where
  "verdict \<equiv> map_sum id (\<lambda>_. ())"

abbreviation shape :: "('a option, 'e) result \<Rightarrow> (bool, 'e) result" where
  "shape \<equiv> map_sum id (\<lambda>x. x \<noteq> None)"

text \<open>Builds whose settings are accepted, refused with the same error, or missing alike.\<close>

definition builds_alike :: "build_env \<Rightarrow> build_env \<Rightarrow> bool" where
  "builds_alike env env' \<longleftrightarrow>
     shape (development_station_config (WIFI_SSID env) (WIFI_PASSWORD env))
       = shape (development_station_config (WIFI_SSID env') (WIFI_PASSWORD env'))
     \<and> shape (development_network_probe (NETWORK_TEST_HOST env) (NETWORK_TEST_PORT env))
       = shape (development_network_probe (NETWORK_TEST_HOST env') (NETWORK_TEST_PORT env'))
     \<and> shape (development_mqtt_config (mqtt_variables env)) = shape (development_mqtt_config (mqtt_variables env'))"

text \<open>Networks found at the same strength, whatever their names and addresses.\<close>

definition discovered_alike :: "discovered \<Rightarrow> discovered \<Rightarrow> bool" where
  "discovered_alike d d' \<longleftrightarrow>
     di_signal_strength d = di_signal_strength d'
     \<and> (length (di_ssid d) \<le> MAX_SSID_LEN \<longleftrightarrow> length (di_ssid d') \<le> MAX_SSID_LEN)"

text \<open>
  Boards whose hardware comes up alike. The MAC address is left open; the executor has slots
  for the same tasks; the driver has the same verdict on the stations of the two builds.
\<close>

definition boards_alike ::
  "build_env \<Rightarrow> ('b, 'c, 'i, 'e) board_answers \<Rightarrow> build_env \<Rightarrow> ('b2, 'c2, 'i2, 'e) board_answers \<Rightarrow> bool" where
  "boards_alike env answers env' answers' \<longleftrightarrow>
     (\<forall>t t'. spawn_failure t = spawn_failure t' \<longrightarrow> ba_slot answers t = ba_slot answers' t')
     \<and> verdict (ba_bluetooth answers controller_config_default) = verdict (ba_bluetooth answers' controller_config_default)
     \<and> verdict (ba_wifi answers) = verdict (ba_wifi answers')
     \<and> rel_sum (=) (list_all2 discovered_alike) (ba_scan answers 20) (ba_scan answers' 20)
     \<and> (\<forall>station station' (w :: ('c, 'i) esp32c6_wifi) (w' :: ('c2, 'i2) esp32c6_wifi).
          development_station_config (WIFI_SSID env) (WIFI_PASSWORD env) = Inr (Some station)
          \<and> development_station_config (WIFI_SSID env') (WIFI_PASSWORD env') = Inr (Some station')
          \<and> (\<exists>i. ba_wifi answers = Inr (ew_controller w, i)) \<and> (\<exists>i. ba_wifi answers' = Inr (ew_controller w', i)) \<longrightarrow>
          fst (configure_station (ba_set_config answers) station w)
            = fst (configure_station (ba_set_config answers') station' w'))"

text \<open>Rounds of supervision that differ in the name and address of the network joined.\<close>

definition joined_alike :: "joined \<Rightarrow> joined \<Rightarrow> bool" where
  "joined_alike j j' \<longleftrightarrow>
     jo_channel j = jo_channel j' \<and> jo_authmode j = jo_authmode j'
     \<and> (length (jo_ssid j) \<le> MAX_SSID_LEN \<longleftrightarrow> length (jo_ssid j') \<le> MAX_SSID_LEN)"

definition rounds_alike :: "'e station_round \<Rightarrow> 'e station_round \<Rightarrow> bool" where
  "rounds_alike r r' \<longleftrightarrow>
     rel_sum (=) joined_alike (sr_connect r) (sr_connect r')
     \<and> sr_disconnect r = sr_disconnect r' \<and> sr_entropy r = sr_entropy r'"

text \<open>
  Rounds of the monitor that differ in the addresses of the lease and of the answers, in the
  name that is resolved and in the endpoint of the probe.
\<close>

fun event_class :: "monitor_event \<Rightarrow> (bool, net_config_error) result + bool" where
  "event_class (ConfigUp up cfg) = Inl (map_sum id is_ip_ready (snapshot_from_parts up cfg))"
| "event_class DhcpPending = Inr True"
| "event_class LinkDown = Inr False"

fun dns_class :: "(ip_address list, dns_error) result timed \<Rightarrow> (nat, dns_error) result timed" where
  "dns_class TimedOut = TimedOut"
| "dns_class (InTime answer) = InTime (map_sum id length answer)"

definition snapshot_class :: "network_snapshot \<Rightarrow> nat \<times> bool" where
  "snapshot_class s = ((case ns_ipv4 s of None \<Rightarrow> 0 | Some c \<Rightarrow> dns_len (ic_dns_servers c)), is_dns_ready s)"

definition monitoring_alike ::
  "network_probe option \<Rightarrow> 'te monitor_answers \<Rightarrow> network_probe option \<Rightarrow> 'te monitor_answers \<Rightarrow> bool" where
  "monitoring_alike probe r probe' r' \<longleftrightarrow>
     (probe = None \<longleftrightarrow> probe' = None)
     \<and> map event_class (mr_events r) = map event_class (mr_events r')
     \<and> map_sum id snapshot_class (snapshot_from_parts (fst (mr_parts r)) (snd (mr_parts r)))
       = map_sum id snapshot_class (snapshot_from_parts (fst (mr_parts r')) (snd (mr_parts r')))
     \<and> dns_class (mr_dns r) = dns_class (mr_dns r')
     \<and> (\<forall>p p' a q a' q'. probe = Some p \<and> probe' = Some p'
          \<and> fst (run_network_probe p (mr_dns r) (mr_tcp r)) = Some (a, q)
          \<and> fst (run_network_probe p' (mr_dns r') (mr_tcp r')) = Some (a', q') \<longrightarrow> mr_tcp r a q = mr_tcp r' a' q')
     \<and> (wait_ip_down (mr_down r) = None \<longleftrightarrow> wait_ip_down (mr_down r') = None)"

section \<open>Lemmas\<close>

subsection \<open>Start-up\<close>

lemma networking_lines:
  assumes "\<And>t t'. spawn_failure t = spawn_failure t' \<Longrightarrow> slot t = slot' t'"
    and "mqtt = None \<longleftrightarrow> mqtt' = None"
  shows "concat (map (boot_step_lines show_init debug) (start_networking slot probe mqtt))
    = concat (map (boot_step_lines show_init debug) (start_networking slot' probe' mqtt'))"
proof -
  have "slot NetworkRunnerTask = slot' NetworkRunnerTask" "slot WifiStationTask = slot' WifiStationTask"
    "slot (NetworkMonitorTask probe) = slot' (NetworkMonitorTask probe')"
    "slot (MqttTask c) = slot' (MqttTask c')" "slot MqttProducerTask = slot' MqttProducerTask" for c c'
    by (rule assms(1); simp)+
  then show ?thesis
    using assms(2) by (auto simp: start_networking_def try_spawn_def split: option.splits)
qed

lemma shape_eq [consumes 1, case_names failed absent present]:
  assumes "shape x = shape y"
  obtains (failed) e where "x = Inl e" "y = Inl e" | (absent) "x = Inr None" "y = Inr None"
    | (present) a b where "x = Inr (Some a)" "y = Inr (Some b)"
  using assms by (cases x; cases y) auto

lemma station_lines:
  fixes answers :: "('b, 'c, 'i, 'e) board_answers" and answers' :: "('b2, 'c2, 'i2, 'e) board_answers"
    and w :: "('c, 'i) esp32c6_wifi" and w' :: "('c2, 'i2) esp32c6_wifi"
  assumes builds: "builds_alike env env'" and boards: "boards_alike env answers env' answers'"
    and "ba_wifi answers = Inr (ew_controller w, i)" and "ba_wifi answers' = Inr (ew_controller w', i')"
  shows "concat (map (boot_step_lines show_init debug) (start_station env answers w))
    = concat (map (boot_step_lines show_init debug) (start_station env' answers' w'))"
proof -
  have shapes: "shape (development_station_config (WIFI_SSID env) (WIFI_PASSWORD env))
      = shape (development_station_config (WIFI_SSID env') (WIFI_PASSWORD env'))"
    "shape (development_network_probe (NETWORK_TEST_HOST env) (NETWORK_TEST_PORT env))
      = shape (development_network_probe (NETWORK_TEST_HOST env') (NETWORK_TEST_PORT env'))"
    "shape (development_mqtt_config (mqtt_variables env)) = shape (development_mqtt_config (mqtt_variables env'))"
    using builds by (simp_all add: builds_alike_def)
  have slots: "\<And>t t'. spawn_failure t = spawn_failure t' \<Longrightarrow> ba_slot answers t = ba_slot answers' t'"
    using boards by (simp add: boards_alike_def)
  note lines = networking_lines [OF slots, where show_init = show_init and debug = debug]
  from shapes(1) show ?thesis
  proof (cases rule: shape_eq)
    case (present station station')
    have "fst (configure_station (ba_set_config answers) station w)
        = fst (configure_station (ba_set_config answers') station' w')"
      using boards present assms(3, 4) unfolding boards_alike_def by blast
    then obtain q w1 w1' where configured: "configure_station (ba_set_config answers) station w = (q, w1)"
      "configure_station (ba_set_config answers') station' w' = (q, w1')"
      by (metis prod.collapse)
    show ?thesis
    proof (cases q)
      case (Inr u)
      let ?probe = "\<lambda>env :: build_env.
        (case development_network_probe (NETWORK_TEST_HOST env) (NETWORK_TEST_PORT env) of
           Inr p \<Rightarrow> ([] :: (firmware_task, 'e) boot_step list, p) | Inl error \<Rightarrow> ([ProbeConfigFailed error], None))"
      let ?mqtt = "\<lambda>env :: build_env.
        (case development_mqtt_config (mqtt_variables env) of
           Inr c \<Rightarrow> ([] :: (firmware_task, 'e) boot_step list, c) | Inl error \<Rightarrow> ([MqttConfigFailed error], None))"
      have "fst (?probe env) = fst (?probe env')"
        using shapes(2) by (cases rule: shape_eq) simp_all
      moreover have "fst (?mqtt env) = fst (?mqtt env')" "snd (?mqtt env) = None \<longleftrightarrow> snd (?mqtt env') = None"
        using shapes(3) by (cases rule: shape_eq; simp)+
      moreover have "start_station env answers w = fst (?probe env) @ fst (?mqtt env)
          @ start_networking (ba_slot answers) (snd (?probe env)) (snd (?mqtt env))"
        "start_station env' answers' w' = fst (?probe env') @ fst (?mqtt env')
          @ start_networking (ba_slot answers') (snd (?probe env')) (snd (?mqtt env'))"
        by (simp_all add: start_station_def present configured Inr Let_def case_prod_unfold)
      ultimately show ?thesis
        using lines by auto
    qed (simp add: start_station_def present configured)
  qed (simp_all add: start_station_def)
qed

lemma converted_summary:
  assumes "list_all2 discovered_alike ds ds'"
  shows "map_sum id from_access_points (convert_discovered ds [] :: (access_point list, 'e esp_wifi_error) result)
    = map_sum id from_access_points (convert_discovered ds' [])"
proof -
  have "map_sum id (map ap_signal_strength_dbm) (convert_discovered ds aps :: (access_point list, 'e esp_wifi_error) result)
      = map_sum id (map ap_signal_strength_dbm) (convert_discovered ds' aps')"
    if "map ap_signal_strength_dbm aps = map ap_signal_strength_dbm aps'" for aps aps'
    using assms that
  proof (induction arbitrary: aps aps' rule: list_all2_induct)
    case (Cons d ds d' ds')
    then show ?case
      using ssid_try_from_ok [of "di_ssid d"] ssid_try_from_ok [of "di_ssid d'"]
      by (auto simp: discovered_alike_def is_ok_def split: sum.splits)
  qed simp
  from this [of "[]" "[]"] show ?thesis
    by (cases "convert_discovered ds [] :: (access_point list, 'e esp_wifi_error) result";
        cases "convert_discovered ds' [] :: (access_point list, 'e esp_wifi_error) result")
      (auto simp: from_access_points_def dest: map_eq_imp_length_eq)
qed

lemma wifi_lines:
  fixes answers :: "('b, 'c, 'i, 'e) board_answers" and answers' :: "('b2, 'c2, 'i2, 'e) board_answers"
  assumes builds: "builds_alike env env'" and boards: "boards_alike env answers env' answers'"
  shows "concat (map (boot_step_lines show_init debug) (start_wifi env answers))
    = concat (map (boot_step_lines show_init debug) (start_wifi env' answers'))"
proof (cases "ba_wifi answers")
  case (Inl e)
  with boards have "ba_wifi answers' = Inl e"
    by (cases "ba_wifi answers'") (auto simp: boards_alike_def)
  with Inl show ?thesis
    by (simp add: start_wifi_def esp_wifi_new_def)
next
  case (Inr ci)
  with boards obtain c i c' i' where up: "ba_wifi answers = Inr (c, i)" "ba_wifi answers' = Inr (c', i')"
    by (cases ci; cases "ba_wifi answers'") (auto simp: boards_alike_def)
  let ?w = "\<lparr>ew_controller = c, ew_station = i, ew_state = WsReady\<rparr>"
    and ?w' = "\<lparr>ew_controller = c', ew_station = i', ew_state = WsReady\<rparr>"
  have new: "esp_wifi_new (ba_wifi answers) = Inr ?w" "esp_wifi_new (ba_wifi answers') = Inr ?w'"
    by (simp_all add: esp_wifi_new_def up)
  obtain q w where scan: "esp_scan (ba_scan answers) 20 ?w = (q, w)" by fastforce
  obtain q' w' where scan': "esp_scan (ba_scan answers') 20 ?w' = (q', w')" by fastforce
  have "rel_sum (=) (list_all2 discovered_alike) (ba_scan answers 20) (ba_scan answers' 20)"
    using boards by (simp add: boards_alike_def)
  then have same: "map_sum id from_access_points q = map_sum id from_access_points q'"
    using scan scan' converted_summary
    by (cases rule: rel_sum.cases) (auto simp: esp_scan_def Let_def split: sum.splits; fastforce)+
  have "ew_controller w = c" "ew_controller w' = c'"
    using scan scan' by (auto simp: esp_scan_def Let_def split: sum.splits)
  then have "concat (map (boot_step_lines show_init debug) (start_station env answers w))
      = concat (map (boot_step_lines show_init debug) (start_station env' answers' w'))"
    using up by (intro station_lines [OF builds boards, of w i w' i']) simp_all
  with same show ?thesis
    by (cases q; cases q') (simp_all add: start_wifi_def new scan scan')
qed

lemma boot_console_alike:
  fixes answers :: "('b, 'c, 'i, 'e) board_answers" and answers' :: "('b2, 'c2, 'i2, 'e) board_answers"
  assumes "builds_alike env env'" and boards: "boards_alike env answers env' answers'"
  shows "boot_console show_init debug env answers = boot_console show_init debug env' answers'"
proof -
  have slots: "\<And>t t'. spawn_failure t = spawn_failure t' \<Longrightarrow> ba_slot answers t = ba_slot answers' t'"
    and bt: "verdict (ba_bluetooth answers controller_config_default) = verdict (ba_bluetooth answers' controller_config_default)"
    using boards by (simp_all add: boards_alike_def)
  have "ba_slot answers (BluetoothTask p) = ba_slot answers' (BluetoothTask p')" for p p'
    by (rule slots) simp
  then have "boot_step_lines show_init debug (start_bluetooth answers n) = boot_step_lines show_init debug (start_bluetooth answers' n)" for n
    using bt by (auto simp: start_bluetooth_def esp_bt_new_def esp_bt_new_with_config_def try_spawn_def split: sum.splits)
  moreover have "boot_step_lines show_init debug (try_spawn (ba_slot answers) HeartbeatTask)
      = boot_step_lines show_init debug (try_spawn (ba_slot answers') HeartbeatTask)"
    using slots [of HeartbeatTask HeartbeatTask] by (simp add: try_spawn_def)
  ultimately show ?thesis
    using wifi_lines [OF assms, of show_init debug]
    by (auto simp: boot_console_def firmware_main_def radio_pins_def split: sum.splits)
qed

subsection \<open>Wi-Fi supervision\<close>

lemma supervise_lines_alike:
  assumes "rounds_alike r r'"
  shows "supervise_lines debug r (wifi, b) = supervise_lines debug r' (wifi', b)"
    and "snd (snd (supervise_round r (wifi, b))) = snd (snd (supervise_round r' (wifi', b)))"
proof -
  have rel: "rel_sum (=) joined_alike (sr_connect r) (sr_connect r')"
    and rest: "sr_disconnect r = sr_disconnect r'" "sr_entropy r = sr_entropy r'"
    using assms by (simp_all add: rounds_alike_def)
  have ok: "is_ok (ssid_try_from v) \<longleftrightarrow> length v \<le> MAX_SSID_LEN" for v
    by (rule ssid_try_from_ok)
  from rel have "supervise_lines debug r (wifi, b) = supervise_lines debug r' (wifi', b)
      \<and> snd (snd (supervise_round r (wifi, b))) = snd (snd (supervise_round r' (wifi', b)))"
  proof (cases rule: rel_sum.cases)
    case (1 e e')
    then show ?thesis
      by (simp add: supervise_lines_def supervise_round_def esp_connect_def rest Let_def case_prod_unfold)
  next
    case (2 j j')
    then show ?thesis
      using ok [of "jo_ssid j"] ok [of "jo_ssid j'"]
      by (auto simp: supervise_lines_def supervise_round_def esp_connect_def wait_for_disconnect_def rest
          joined_alike_def is_ok_def Let_def case_prod_unfold split: sum.splits)
  qed
  then show "supervise_lines debug r (wifi, b) = supervise_lines debug r' (wifi', b)"
    and "snd (snd (supervise_round r (wifi, b))) = snd (snd (supervise_round r' (wifi', b)))"
    by simp_all
qed

lemma supervise_console_alike:
  "list_all2 rounds_alike rounds rounds' \<Longrightarrow>
     supervise_console_from debug rounds (wifi, b) = supervise_console_from debug rounds' (wifi', b)"
proof (induction arbitrary: wifi wifi' b rule: list_all2_induct)
  case (Cons r rs r' rs')
  obtain d w1 b1 where r: "supervise_round r (wifi, b) = (d, w1, b1)" by (rule prod_cases3)
  obtain d' w1' b1' where r': "supervise_round r' (wifi', b) = (d', w1', b1')" by (rule prod_cases3)
  have "b1' = b1"
    using supervise_lines_alike(2) [OF Cons.hyps(1), of wifi b wifi'] r r' by simp
  then show ?case
    using supervise_lines_alike(1) [OF Cons.hyps(1), of debug wifi b wifi'] Cons.IH [of w1 b1 w1'] r r' by simp
qed simp

text \<open>Each round ends with its attempt and its delay, and the delays are the ones waited.\<close>

lemma supervise_lines_retry:
  "last (supervise_lines debug r state) =
     retry_line (snd (snd (supervise_round r state))) (fst (supervise_round r state))"
  by (simp add: supervise_lines_def Let_def case_prod_unfold)

subsection \<open>The network monitor\<close>

lemma await_alike:
  "map event_class events = map event_class events' \<Longrightarrow> await_configuration events = await_configuration events'"
proof (induction events arbitrary: events')
  case (Cons e events)
  from Cons.prems obtain e' es' where events': "events' = e' # es'" "event_class e = event_class e'"
    and rest: "map event_class events = map event_class es'"
    by (cases events') auto
  with Cons.IH [OF rest] show ?case
    by (cases e; cases e') (auto split: sum.splits)
qed simp

lemma copy_count: "fst (copy_ipv4_addresses addresses output) = fst (copy_ipv4_addresses addresses' output)"
  if "length addresses = length addresses'"
  using that by (auto simp: copy_ipv4_cases)

lemma probe_alike:
  fixes p p' :: network_probe and tcp tcp' :: "ipv4_addr \<Rightarrow> u16 \<Rightarrow> (unit, 'te) result timed"
  assumes "dns_class dns = dns_class dns'"
    and "\<And>a q a' q'. \<lbrakk>fst (run_network_probe p dns tcp) = Some (a, q); fst (run_network_probe p' dns' tcp') = Some (a', q')\<rbrakk>
      \<Longrightarrow> tcp a q = tcp' a' q'"
  shows "snd (run_network_probe p dns tcp) = snd (run_network_probe p' dns' tcp')"
proof -
  consider (timeout) "dns = TimedOut" "dns' = TimedOut" | (err) e where "dns = InTime (Inl e)" "dns' = InTime (Inl e)"
    | (found) as as' where "dns = InTime (Inr as)" "dns' = InTime (Inr as')" "length as = length as'"
  proof (cases dns)
    case (InTime x)
    with assms(1) obtain x' where "dns' = InTime x'" "map_sum id length x = map_sum id length x'"
      by (cases dns') auto
    with InTime that show ?thesis
      by (cases x; cases x') auto
  qed (use assms(1) that in \<open>cases dns'; auto\<close>)
  then show ?thesis
  proof cases
    case found
    obtain q out where c: "copy_ipv4_addresses as (replicate 4 UNSPECIFIED) = (q, out)" by fastforce
    obtain out' where c': "copy_ipv4_addresses as' (replicate 4 UNSPECIFIED) = (q, out')"
      using copy_count [OF found(3), of "replicate 4 UNSPECIFIED"] c by (metis fst_conv prod.collapse)
    show ?thesis
      using assms(2) by (cases q) (simp_all add: run_network_probe_def resolve_ipv4_def found c c')
  qed (simp_all add: run_network_probe_def resolve_ipv4_def)
qed

lemma monitor_round_alike:
  assumes alike: "monitoring_alike probe r probe' r'"
  shows "monitor_round probe r = monitor_round probe' r'"
proof -
  have probes: "probe = None \<longleftrightarrow> probe' = None"
    and waits: "await_configuration (mr_events r) = (await_configuration (mr_events r') :: 'a monitor_log list \<times> bool option)"
    and parts: "map_sum id snapshot_class (snapshot_from_parts (fst (mr_parts r)) (snd (mr_parts r)))
       = map_sum id snapshot_class (snapshot_from_parts (fst (mr_parts r')) (snd (mr_parts r')))"
    and down: "wait_ip_down (mr_down r) = None \<longleftrightarrow> wait_ip_down (mr_down r') = None"
    using alike await_alike [of "mr_events r" "mr_events r'"] by (simp_all add: monitoring_alike_def)
  have configured: "monitor_configured probe (mr_parts r) = monitor_configured probe' (mr_parts r')"
    using parts probes
    by (auto simp: monitor_configured_def snapshot_class_def split: sum.splits option.splits if_splits)
  have log: "probe_log probe outcome r = probe_log probe' outcome r'" for outcome
  proof (cases "probe = None")
    case False
    then obtain p p' where p: "probe = Some p" "probe' = Some p'"
      using probes by auto
    have "snd (run_network_probe p (mr_dns r) (mr_tcp r)) = snd (run_network_probe p' (mr_dns r') (mr_tcp r'))"
      by (rule probe_alike) (use alike p in \<open>auto simp: monitoring_alike_def\<close>)
    then show ?thesis
      by (cases outcome) (simp_all add: probe_log_def p)
  qed (use probes in \<open>simp add: probe_log_def\<close>)
  have ends: "(\<exists>s s'. wait_ip_down (mr_down r) = Some (Inr s) \<and> wait_ip_down (mr_down r') = Some (Inr s'))
      \<or> wait_ip_down (mr_down r) = None \<and> wait_ip_down (mr_down r') = None"
    using down by (auto simp: wait_ip_down_result(1))
  then show ?thesis
    by (auto simp: monitor_round_def waits configured log Let_def case_prod_unfold split: option.splits bool.splits sum.splits)
qed

lemma monitor_console_alike:
  assumes "list_all2 (\<lambda>r r'. monitoring_alike probe r probe' r') rounds rounds'"
  shows "monitor_console debug probe rounds = monitor_console debug probe' rounds'"
proof -
  have "network_monitor probe rounds = network_monitor probe' rounds'"
    using assms by (induction rule: list_all2_induct) (auto dest: monitor_round_alike split: prod.splits bool.splits)
  then show ?thesis
    by (simp add: monitor_console_def)
qed

section \<open>Properties\<close>

text \<open>
  C24. The console reveals nothing confidential: two devices that differ only in the network
  name and password of the build, the MAC address, the names and addresses of the networks
  found and joined, the host and port of the probe, the addresses of the lease and the answers
  of the resolver, and for which everything else goes alike, print the same lines at start-up,
  under Wi-Fi supervision and in the network monitor.
\<close>

theorem console_confidential:
  fixes answers :: "('b, 'c, 'i, 'e) board_answers" and answers' :: "('b2, 'c2, 'i2, 'e) board_answers"
    and wifi :: "'k station_controller" and wifi' :: "'k2 station_controller"
  shows "(builds_alike env env' \<and> boards_alike env answers env' answers' \<longrightarrow>
      boot_console show_init debug env answers = boot_console show_init debug env' answers')
    \<and> (list_all2 rounds_alike rounds rounds' \<longrightarrow>
      supervise_console debug rounds wifi = supervise_console debug rounds' wifi')
    \<and> (list_all2 (\<lambda>r r'. monitoring_alike probe r probe' r') seen seen' \<longrightarrow>
      monitor_console debug_tcp probe seen = monitor_console debug_tcp probe' seen')"
  using boot_console_alike [of env env' answers answers' show_init debug]
    supervise_console_alike [of rounds rounds' debug wifi reconnect_backoff_default wifi']
    monitor_console_alike [of probe probe' seen seen' debug_tcp]
  by (simp add: supervise_console_def)

definition other_env :: build_env where
  "other_env = sample_env\<lparr>WIFI_SSID := Some (lit ''office''), WIFI_PASSWORD := Some (lit ''correct horse'')\<rparr>"

definition other_answers :: "(unit, unit, unit, unit) board_answers" where
  "other_answers = sample_answers\<lparr>ba_mac := [6, 5, 4, 3, 2, 1]\<rparr>"

lemma sample_devices_alike:
  "builds_alike sample_env other_env" "boards_alike sample_env sample_answers other_env other_answers"
proof -
  have valid: "utf8_valid (lit ''net'')" "utf8_valid (lit ''office'')" "utf8_valid (lit ''correct horse'')"
    by (rule utf8_valid_ascii, simp)+
  have "credentials_valid (lit ''net'') None" "credentials_valid (lit ''office'') (Some (lit ''correct horse''))"
    by (simp_all add: credentials_valid_def passphrase_valid_def MAX_PASSPHRASE_LEN_def)
  then obtain a b where stations: "development_station_config (Some (lit ''net'')) None = Inr (Some a)"
    "development_station_config (Some (lit ''office'')) (Some (lit ''correct horse'')) = Inr (Some b)"
    using station_from_env(1) [of "lit ''net''" None] station_from_env(1) [of "lit ''office''" "Some (lit ''correct horse'')"]
      valid by (auto simp del: lit_Cons)
  have configured: "is_ok (fst (configure_station (\<lambda>config c. (Inr () :: (unit, unit) result, c)) a w))"
    "is_ok (fst (configure_station (\<lambda>config c. (Inr () :: (unit, unit) result, c)) b w))" for w :: "(unit, unit) esp32c6_wifi"
    using configure_from_env [OF valid(1) _ stations(1), of "\<lambda>config c. (Inr () :: (unit, unit) result, c)" w]
      configure_from_env [OF valid(2) _ stations(2), of "\<lambda>config c. (Inr () :: (unit, unit) result, c)" w] valid(3)
    by (simp_all del: lit_Cons)
  show "builds_alike sample_env other_env"
    by (simp add: builds_alike_def sample_env_def other_env_def stations del: lit_Cons)
  show "boards_alike sample_env sample_answers other_env other_answers"
    using configured
    by (auto simp: boards_alike_def sample_env_def other_env_def sample_answers_def other_answers_def stations
        is_ok_iff simp del: lit_Cons)
qed

definition sample_round :: "str \<Rightarrow> u8 list \<Rightarrow> unit station_round" where
  "sample_round name bssid =
     \<lparr>sr_connect = Inr \<lparr>jo_ssid = name, jo_bssid = bssid, jo_channel = 6, jo_authmode = AmNone\<rparr>,
      sr_disconnect = Inr (), sr_entropy = 0\<rparr>"

theorem console_confidential_witness:
  "boot_console (\<lambda>_. []) (\<lambda>_. []) sample_env sample_answers = boot_console (\<lambda>_. []) (\<lambda>_. []) other_env other_answers
   \<and> supervise_console (\<lambda>_. []) [sample_round (lit ''net'') [1]] \<lparr>st_controller = (), st_state = WsReady\<rparr>
     = supervise_console (\<lambda>_. []) [sample_round (lit ''office'') [2]] \<lparr>st_controller = (), st_state = WsReady\<rparr>"
proof
  show "boot_console (\<lambda>_. []) (\<lambda>_. []) sample_env sample_answers = boot_console (\<lambda>_. []) (\<lambda>_. []) other_env other_answers"
    by (rule console_confidential [THEN conjunct1, THEN mp]) (simp add: sample_devices_alike)
  have "list_all2 rounds_alike [sample_round (lit ''net'') [1]] [sample_round (lit ''office'') [2]]"
    by (simp add: rounds_alike_def joined_alike_def MAX_SSID_LEN_def sample_round_def)
  then show "supervise_console (\<lambda>_. []) [sample_round (lit ''net'') [1]] \<lparr>st_controller = (), st_state = WsReady\<rparr>
      = supervise_console (\<lambda>_. []) [sample_round (lit ''office'') [2]] \<lparr>st_controller = (), st_state = WsReady\<rparr>"
    by (rule console_confidential [THEN conjunct2, THEN conjunct1, THEN mp])
qed

end
