(* ===== verification/Firmware_Log.thy ===== *)
theory Firmware_Log
  imports Firmware_Console Firmware_Bluetooth
begin

text \<open>
  What the services of \<open>firmware/seeed/xiao-esp32c6\<close> print while they run: the heartbeat, the
  MQTT task and the Bluetooth task. The MQTT task's lines are those of a step from one wait to
  the next. The \<open>Debug\<close> text of the TCP socket's errors is an argument.
\<close>

section \<open>Definitions\<close>

subsection \<open>Heartbeat\<close>

definition heartbeat_console :: "nat \<Rightarrow> str list" where
  "heartbeat_console beats = map (\<lambda>h. lit ''embedded-sdk heartbeat='' @ fmt_dec (unat h)) (heartbeat beats 0)"

subsection \<open>MQTT\<close>

fun debug_error_kind :: "mqtt_error_kind \<Rightarrow> str" where
  "debug_error_kind Configuration = lit ''Configuration''"
| "debug_error_kind Capacity = lit ''Capacity''"
| "debug_error_kind Transport = lit ''Transport''"
| "debug_error_kind Protocol = lit ''Protocol''"
| "debug_error_kind Disconnected = lit ''Disconnected''"
| "debug_error_kind NotReady = lit ''NotReady''"

definition fmt_bool :: "bool \<Rightarrow> str" where
  "fmt_bool b = (if b then lit ''true'' else lit ''false'')"

definition attempt_line :: "nat \<Rightarrow> nat \<Rightarrow> str" where
  "attempt_line attempts delay_ms =
     lit ''embedded-sdk MQTT retry: attempt='' @ fmt_dec attempts @ lit '', delay_ms='' @ fmt_dec delay_ms"

text \<open>\<open>mqtt_backoff\<close>: the count is the one after the attempt is counted.\<close>

definition mqtt_retry_line :: "u32 \<Rightarrow> mqtt_backoff \<Rightarrow> str" where
  "mqtt_retry_line entropy b =
     (let (delay_ms, b') = mqtt_next_delay_ms entropy b in attempt_line (unat (mb_attempts b')) (unat delay_ms))"

definition session_failed_lines ::
  "('a, ('p, 'r, 'e) mqtt_error) result \<Rightarrow> u32 \<Rightarrow> mqtt_backoff \<Rightarrow> str list" where
  "session_failed_lines outcome entropy b =
     (case outcome of
        Inl error \<Rightarrow>
          [lit ''embedded-sdk MQTT session failed: '' @ debug_error_kind (client_error_kind error),
           mqtt_retry_line entropy b]
      | Inr _ \<Rightarrow> [])"

text \<open>What a successful resolution leaves in \<open>address_count\<close>.\<close>

fun resolved_count :: "mqtt_development_config \<Rightarrow> ('io, 's, 'te) task_event \<Rightarrow> nat \<Rightarrow> nat" where
  "resolved_count config (EvResolved (InTime dns)) count =
     (case fst (resolve_ipv4 (\<lambda>_. dns) (text_as_str (mc_hostname (md_session config))) (replicate 4 UNSPECIFIED)) of
        Inr n \<Rightarrow> n | Inl e \<Rightarrow> count)"
| "resolved_count config _ count = count"

text \<open>The lines printed between the event that ends a wait and the next wait.\<close>

fun mqtt_lines ::
  "('te \<Rightarrow> str) \<Rightarrow> ('s, 'io, 'p, 'r, 'e) minimq_ops \<Rightarrow> mqtt_development_config \<Rightarrow> nat
   \<Rightarrow> ('io, 's, 'te) task_event \<Rightarrow> u32 \<Rightarrow> 's mqtt_system \<Rightarrow> str list" where
  "mqtt_lines debug mm config count (EvIpReady answer) entropy s =
     (case answer of
        Inl error \<Rightarrow> [lit ''embedded-sdk MQTT network state failed: '' @ net_config_error_display error]
      | Inr snapshot \<Rightarrow> if \<not> is_dns_ready snapshot then [lit ''embedded-sdk MQTT waiting for DNS''] else [])"
| "mqtt_lines debug mm config count (EvResolved TimedOut) entropy s =
     [lit ''embedded-sdk MQTT DNS timed out'', mqtt_retry_line entropy (sys_backoff s)]"
| "mqtt_lines debug mm config count (EvResolved (InTime dns)) entropy s =
     (case fst (resolve_ipv4 (\<lambda>_. dns) (text_as_str (mc_hostname (md_session config))) (replicate 4 UNSPECIFIED)) of
        Inl error \<Rightarrow>
          [lit ''embedded-sdk MQTT DNS failed: '' @ resolve_error_display error,
           mqtt_retry_line entropy (sys_backoff s)]
      | Inr _ \<Rightarrow> [])"
| "mqtt_lines debug mm config count (EvTcp TimedOut) entropy s =
     [lit ''embedded-sdk MQTT TCP timed out'', mqtt_retry_line entropy (sys_backoff s)]"
| "mqtt_lines debug mm config count (EvTcp (InTime (Inl error))) entropy s =
     [lit ''embedded-sdk MQTT TCP failed: '' @ debug error, mqtt_retry_line entropy (sys_backoff s)]"
| "mqtt_lines debug mm config count (EvConnect io) entropy s =
     (case client_connect mm io (sys_client s) of
        (Inl error, c) \<Rightarrow>
          [lit ''embedded-sdk MQTT CONNECT failed: '' @ debug_error_kind (client_error_kind error),
           mqtt_retry_line entropy (sys_backoff s)]
      | (Inr _, c) \<Rightarrow>
          [lit ''embedded-sdk MQTT connected: resumed='' @ fmt_bool (resumed mm c)
           @ lit '', resolved_addresses='' @ fmt_dec count])"
| "mqtt_lines debug mm config count (EvConnectTimeout session) entropy s =
     [lit ''embedded-sdk MQTT CONNECT timed out'', mqtt_retry_line entropy (sys_backoff s)]"
| "mqtt_lines debug mm config count EvSubscribe entropy s =
     session_failed_lines (fst (client_subscribe mm (md_command_filter config) AtLeastOnce (sys_client s)))
       entropy (sys_backoff s)"
| "mqtt_lines debug mm config count EvReceive entropy s =
     (if is_ok (fst (client_receive mm (sys_client s))) then [lit ''embedded-sdk MQTT command received'']
      else session_failed_lines (fst (client_receive mm (sys_client s))) entropy (sys_backoff s))"
| "mqtt_lines debug mm config count EvPublish entropy s =
     (case sys_phase s of
        PPublish m \<Rightarrow>
          session_failed_lines
            (fst (client_publish mm (md_telemetry_topic config) (om_payload m) (om_qos m) (sys_client s)))
            entropy (sys_backoff s)
      | _ \<Rightarrow> [])"
| "mqtt_lines debug mm config count (EvIpLost session) entropy s =
     [lit ''embedded-sdk MQTT stopped after IPv4 loss'']"
| "mqtt_lines debug mm config count _ entropy s = []"

text \<open>
  A run of the service: \<open>None\<close> is a step of the producer, which prints nothing; an event the
  task does not wait for does nothing.
\<close>

fun mqtt_console_from ::
  "('te \<Rightarrow> str) \<Rightarrow> ('s, 'io, 'p, 'r, 'e) minimq_ops \<Rightarrow> ('s \<Rightarrow> 's) \<Rightarrow> mqtt_development_config
   \<Rightarrow> (('io, 's, 'te) task_event \<times> u32) option list \<Rightarrow> nat \<Rightarrow> 's mqtt_system \<Rightarrow> str list" where
  "mqtt_console_from debug mm release config [] count s = []"
| "mqtt_console_from debug mm release config (None # steps) count s =
     mqtt_console_from debug mm release config steps count (snd (producer_step s))"
| "mqtt_console_from debug mm release config (Some (ev, entropy) # steps) count s =
     (case task_step mm release config ev entropy s of
        None \<Rightarrow> mqtt_console_from debug mm release config steps count s
      | Some (_, s') \<Rightarrow>
          mqtt_lines debug mm config count ev entropy s
          @ mqtt_console_from debug mm release config steps (resolved_count config ev count) s')"

text \<open>The whole task, from the construction of its client.\<close>

definition mqtt_console ::
  "('ce \<Rightarrow> str) \<Rightarrow> ('te \<Rightarrow> str) \<Rightarrow> ('b, 's, 'ce) minimq_builder \<Rightarrow> ('s, 'io, 'p, 'r, 'e) minimq_ops \<Rightarrow> ('s \<Rightarrow> 's)
   \<Rightarrow> mqtt_development_config \<Rightarrow> (('io, 's, 'te) task_event \<times> u32) option list \<Rightarrow> str list" where
  "mqtt_console show_backend debug mb mm release config steps =
     (case client_new mb (md_session config) (replicate MQTT_RX_PACKET_BUFFER_SIZE 0)
             (replicate MQTT_TX_REPLAY_BUFFER_SIZE 0) PlaintextFixture None of
        Inl error \<Rightarrow>
          [lit ''embedded-sdk MQTT adapter configuration failed: '' @ adapter_config_error_display show_backend error]
      | Inr c \<Rightarrow> mqtt_console_from debug mm release config steps 0 (system_start c))"

subsection \<open>Bluetooth\<close>

fun session_lines :: "session_log \<Rightarrow> str list" where
  "session_lines GattServerFailed = [lit ''embedded-sdk bluetooth GATT server configuration failed'']"
| "session_lines (BluetoothIsReady name) = [lit ''embedded-sdk bluetooth ready: name='' @ name]"
| "session_lines SessionAdvertising = [lit ''embedded-sdk bluetooth advertising'']"
| "session_lines SessionConnected = [lit ''embedded-sdk bluetooth connected'']"
| "session_lines (SessionLog StatusRead) = [lit ''embedded-sdk bluetooth status read'']"
| "session_lines (SessionLog ReplyFailed) = [lit ''embedded-sdk bluetooth GATT reply failed'']"
| "session_lines (SessionLog _) = []"
| "session_lines SessionDisconnected = [lit ''embedded-sdk bluetooth disconnected'']"
| "session_lines SessionAdvertisingFailed = [lit ''embedded-sdk bluetooth advertising failed; retrying'']"
| "session_lines SessionRunnerFailed = [lit ''embedded-sdk bluetooth host runner failed; retrying'']"
| "session_lines (RetryInSeconds n) = []"

definition bluetooth_console ::
  "(ad_structure list \<Rightarrow> u8 list \<Rightarrow> (nat, 'ee) result \<times> u8 list) \<Rightarrow> peripheral_config
   \<Rightarrow> (str \<Rightarrow> (u16, 'se) result) \<Rightarrow> bool list \<Rightarrow> ('conn, 'he) host_round list \<Rightarrow> str list set" where
  "bluetooth_console encode_slice config server runs rounds =
     (\<lambda>log. concat (map session_lines log)) ` snd (bluetooth_task encode_slice config server runs rounds)"

subsection \<open>Specifications\<close>

text \<open>
  Everything the running MQTT task can say: states, categories of errors, counts. Neither a
  configuration nor a message occurs here.
\<close>

definition mqtt_vocabulary :: "('te \<Rightarrow> str) \<Rightarrow> str set" where
  "mqtt_vocabulary debug =
     {lit ''embedded-sdk MQTT waiting for DNS'', lit ''embedded-sdk MQTT DNS timed out'',
      lit ''embedded-sdk MQTT TCP timed out'', lit ''embedded-sdk MQTT CONNECT timed out'',
      lit ''embedded-sdk MQTT command received'', lit ''embedded-sdk MQTT stopped after IPv4 loss''}
     \<union> range (\<lambda>e. lit ''embedded-sdk MQTT network state failed: '' @ net_config_error_display e)
     \<union> range (\<lambda>e. lit ''embedded-sdk MQTT DNS failed: '' @ resolve_error_display e)
     \<union> range (\<lambda>e. lit ''embedded-sdk MQTT TCP failed: '' @ debug e)
     \<union> range (\<lambda>k. lit ''embedded-sdk MQTT CONNECT failed: '' @ debug_error_kind k)
     \<union> range (\<lambda>k. lit ''embedded-sdk MQTT session failed: '' @ debug_error_kind k)
     \<union> {lit ''embedded-sdk MQTT connected: resumed='' @ fmt_bool r @ lit '', resolved_addresses='' @ fmt_dec n | r n. True}
     \<union> {attempt_line attempts delay_ms | attempts delay_ms. True}"

section \<open>Lemmas\<close>

lemma back_off_phase [simp]:
  "sys_phase (back_off r s) = PBackoff (fst (mqtt_next_delay_ms r (sys_backoff s)))"
  "sys_backoff (back_off r s) = snd (mqtt_next_delay_ms r (sys_backoff s))"
  by (simp_all add: back_off_def case_prod_beta)

lemma failure_phase [simp]:
  "sys_phase (external_failure r s) = PBackoff (fst (mqtt_next_delay_ms r (sys_backoff s)))"
  "sys_backoff (external_failure r s) = snd (mqtt_next_delay_ms r (sys_backoff s))"
  "sys_phase (end_session release r s) = PBackoff (fst (mqtt_next_delay_ms r (sys_backoff s)))"
  "sys_backoff (end_session release r s) = snd (mqtt_next_delay_ms r (sys_backoff s))"
  by (simp_all add: external_failure_def end_session_def)

lemma round_phase [simp]:
  "sys_phase (start_round s) = PWaitIp" "sys_phase (serve_round s) = PServe" "sys_phase (lose_ip session s) = PWaitIp"
  by (simp_all add: start_round_def serve_round_def lose_ip_def)

lemma mqtt_retry_line_beta:
  "mqtt_retry_line r b = attempt_line (unat (mb_attempts (snd (mqtt_next_delay_ms r b)))) (unat (fst (mqtt_next_delay_ms r b)))"
  by (simp add: mqtt_retry_line_def case_prod_beta)

text \<open>
  A step that ends in a back-off prints its reason and then the number of the attempt and the
  delay that is waited; any other step prints one line or none.
\<close>

lemma mqtt_retry_announced:
  assumes "task_step mm release config ev r s = Some (ls, s')"
  shows "case sys_phase s' of
      PBackoff d \<Rightarrow> \<exists>reason. mqtt_lines debug mm config count ev r s =
        [reason, attempt_line (unat (mb_attempts (sys_backoff s'))) (unat d)]
    | _ \<Rightarrow> length (mqtt_lines debug mm config count ev r s) \<le> 1"
  using assms
  by (cases "sys_phase s"; cases ev)
    (auto simp: task_step.simps after_defs after_outbound_def mqtt_retry_line_beta session_failed_lines_def is_ok_def
      Let_def split: after_splits)

text \<open>Whatever happens, the lines are of the vocabulary: no name, topic or message is printed.\<close>

lemma mqtt_lines_vocabulary: "set (mqtt_lines debug mm config count ev r s) \<subseteq> mqtt_vocabulary debug"
proof (cases "\<exists>io. ev = EvConnect io")
  case True
  then obtain io where ev: "ev = EvConnect io" by blast
  obtain q c where "client_connect mm io (sys_client s) = (q, c)" by fastforce
  then show ?thesis
    by (cases q) (auto simp: ev mqtt_vocabulary_def mqtt_retry_line_beta simp del: lit_Cons)
next
  case False
  then show ?thesis
    by (cases "(debug, mm, config, count, ev, r, s)" rule: mqtt_lines.cases)
      (auto simp: mqtt_vocabulary_def mqtt_retry_line_beta session_failed_lines_def simp del: lit_Cons
        split: sum.splits task_phase.splits)
qed

lemma mqtt_console_vocabulary:
  fixes debug :: "'te \<Rightarrow> str"
  shows "set (mqtt_console_from debug mm release config steps count s) \<subseteq> mqtt_vocabulary debug"
proof (induction steps arbitrary: count s)
  case (Cons step steps)
  show ?case
  proof (cases step)
    case (Some e)
    then show ?thesis
      using Cons mqtt_lines_vocabulary [of debug mm config count "fst e" "snd e" s]
      by (cases e) (auto split: option.splits)
  qed (use Cons in simp)
qed simp

text \<open>The Bluetooth task prints its public name and nothing else of its configuration.\<close>

lemma bluetooth_console_address:
  assumes "pc_name config = pc_name config'"
  shows "bluetooth_console encode_slice config server runs rounds = bluetooth_console encode_slice config' server runs rounds"
  by (simp add: bluetooth_console_def bluetooth_task_def assms)

text \<open>The heartbeats are numbered from 0, modulo \<open>2\<^sup>64\<close>.\<close>

lemma heartbeat_console_nth:
  assumes "i < n"
  shows "heartbeat_console n ! i = lit ''embedded-sdk heartbeat='' @ fmt_dec (i mod 2 ^ 64)"
proof -
  have len: "length (heartbeat m h) = m" for m h
    by (induction m arbitrary: h) simp_all
  have "heartbeat m h ! j = h + of_nat j" if "j < m" for m h j
    using that by (induction m arbitrary: h j) (auto simp: nth_Cons split: nat.splits)
  with assms show ?thesis
    by (simp add: heartbeat_console_def len unat_of_nat del: lit_Cons)
qed

end
