(* ===== verification/Xtask.thy ===== *)
theory Xtask
  imports Rust_Str "HOL-Library.List_Lexorder" "HOL-Library.Multiset"
begin

text \<open>
  The repository's automation tool, \<open>tools/xtask\<close>: the registry of boards and firmware it
  builds from the packages' metadata, the lookups, and the commands each task runs. Reading
  a JSON value and decoding it into a structure belong to \<open>serde_json\<close> and are the
  parameter \<open>json_ops\<close>; running a process is a parameter that answers each command in the
  light of the commands before it. A formatted error message is the constructor that holds
  what is formatted.
\<close>

section \<open>Definitions\<close>

subsection \<open>Ordered collections\<close>

text \<open>
  \<open>BTreeMap\<close> and \<open>BTreeSet\<close> over strings: ascending lists. Inserting into a map also gives
  the value that was there.
\<close>

fun btree_insert :: "'k::linorder \<Rightarrow> 'v \<Rightarrow> ('k \<times> 'v) list \<Rightarrow> 'v option \<times> ('k \<times> 'v) list" where
  "btree_insert k v [] = (None, [(k, v)])"
| "btree_insert k v ((j, w) # m) =
     (if k < j then (None, (k, v) # (j, w) # m)
      else if k = j then (Some w, (k, v) # m)
      else let (old, m') = btree_insert k v m in (old, (j, w) # m'))"

fun btree_set_insert :: "'a::linorder \<Rightarrow> 'a list \<Rightarrow> 'a list" where
  "btree_set_insert x [] = [x]"
| "btree_set_insert x (y # ys) =
     (if x < y then x # y # ys else if x = y then y # ys else y # btree_set_insert x ys)"

subsection \<open>Metadata\<close>

definition METADATA_NAMESPACE :: str where
  "METADATA_NAMESPACE = lit ''embedded-sdk''"

record board_metadata =
  bm_id :: str
  bm_target :: str
  bm_runner :: "str list"

record firmware_metadata =
  fm_board :: str
  fm_variant :: str

record board =
  bo_package :: str
  bo_metadata :: board_metadata

record firmware =
  fi_package :: str
  fi_board :: str
  fi_variant :: str
  fi_selector :: str

record registry =
  re_boards :: "(str \<times> board) list"
  re_firmware :: "firmware list"
  re_host_exclusions :: "str list"

text \<open>A package of the workspace: its name and its metadata value.\<close>

record 'j package =
  pk_name :: str
  pk_metadata :: 'j

text \<open>What the tool asks of a JSON value: a member, a truth value, a decoded structure.\<close>

record ('j, 'e) json_ops =
  js_get :: "'j \<Rightarrow> str \<Rightarrow> 'j option"
  js_as_bool :: "'j \<Rightarrow> bool option"
  js_board :: "'j \<Rightarrow> (board_metadata, 'e) result"
  js_firmware :: "'j \<Rightarrow> (firmware_metadata, 'e) result"

datatype 'e tool_error =
  MetadataFailed 'e
| InvalidMetadata str str 'e
| InvalidBoardId str str
| EmptyTarget str
| EmptyRunner str
| RunnerWhitespace str
| DuplicateBoard str str str
| UnknownFirmwareBoard str str
| InvalidVariant str str
| DuplicateSelector str str str
| UnknownBoard str
| UnknownFirmware str
| NoFirmwareMatched
| NoBoardsRegistered
| NoTargetsRegistered
| MissingTarget str
| RunnerUnavailable str
| NotStarted str 'e
| ExitedWith str 'e
| NotUtf8

subsection \<open>Validation\<close>

text \<open>\<open>char::is_whitespace\<close>: the code points with the Unicode property \<open>White_Space\<close>.\<close>

definition is_whitespace :: "nat \<Rightarrow> bool" where
  "is_whitespace c \<longleftrightarrow>
     9 \<le> c \<and> c \<le> 13 \<or> c = 0x20 \<or> c = 0x85 \<or> c = 0xA0 \<or> c = 0x1680
     \<or> 0x2000 \<le> c \<and> c \<le> 0x200A \<or> c = 0x2028 \<or> c = 0x2029 \<or> c = 0x202F \<or> c = 0x205F \<or> c = 0x3000"

definition has_whitespace :: "str \<Rightarrow> bool" where
  "has_whitespace s \<longleftrightarrow> (case chars s of None \<Rightarrow> False | Some cs \<Rightarrow> \<exists>c \<in> set cs. is_whitespace c)"

definition validate_board_metadata :: "'j package \<Rightarrow> board_metadata \<Rightarrow> (unit, 'e tool_error) result" where
  "validate_board_metadata package metadata =
     (if bm_id metadata = [] \<or> 0x2F \<in> set (bm_id metadata)
      then Err (InvalidBoardId (pk_name package) (bm_id metadata))
      else if bm_target metadata = [] then Err (EmptyTarget (pk_name package))
      else if bm_runner metadata = [] \<or> (\<exists>c \<in> set (bm_runner metadata). c = [])
      then Err (EmptyRunner (pk_name package))
      else if \<exists>c \<in> set (bm_runner metadata). has_whitespace c
      then Err (RunnerWhitespace (pk_name package))
      else Ok ())"

definition firmware_selector :: "str \<Rightarrow> str \<Rightarrow> str" where
  "firmware_selector board variant =
     (if variant = lit ''default'' then board else board @ [0x2F] @ variant)"

definition parse_board :: "('j, 'e) json_ops \<Rightarrow> 'j package \<Rightarrow> 'j \<Rightarrow> (board_metadata, 'e tool_error) result" where
  "parse_board js package v =
     map_err (InvalidMetadata (lit ''board'') (pk_name package)) (js_board js v)"

definition parse_firmware ::
  "('j, 'e) json_ops \<Rightarrow> 'j package \<Rightarrow> 'j \<Rightarrow> (firmware_metadata, 'e tool_error) result" where
  "parse_firmware js package v =
     map_err (InvalidMetadata (lit ''firmware'') (pk_name package)) (js_firmware js v)"

subsection \<open>Discovery\<close>

text \<open>The state of the first loop: boards, firmware declarations, packages not checked on the host.\<close>

record discovery =
  di_boards :: "(str \<times> board) list"
  di_firmware :: "(str \<times> firmware_metadata) list"
  di_exclusions :: "str list"

definition add_host_check ::
  "('j, 'e) json_ops \<Rightarrow> 'j package \<Rightarrow> 'j \<Rightarrow> discovery \<Rightarrow> discovery" where
  "add_host_check js package namespace d =
     (if Option.bind (js_get js namespace (lit ''host-check'')) (js_as_bool js) = Some False
      then d\<lparr>di_exclusions := btree_set_insert (pk_name package) (di_exclusions d)\<rparr> else d)"

definition add_board ::
  "('j, 'e) json_ops \<Rightarrow> 'j package \<Rightarrow> 'j \<Rightarrow> discovery \<Rightarrow> (discovery, 'e tool_error) result" where
  "add_board js package namespace d =
     (case js_get js namespace (lit ''board'') of
        None \<Rightarrow> Ok d
      | Some v \<Rightarrow>
          (case parse_board js package v of
             Inl e \<Rightarrow> Err e
           | Inr metadata \<Rightarrow>
               (case validate_board_metadata package metadata of
                  Inl e \<Rightarrow> Err e
                | Inr _ \<Rightarrow>
                    (case btree_insert (bm_id metadata)
                            \<lparr>bo_package = pk_name package, bo_metadata = metadata\<rparr> (di_boards d) of
                       (Some existing, _) \<Rightarrow>
                         Err (DuplicateBoard (bm_id metadata) (bo_package existing) (pk_name package))
                     | (None, boards) \<Rightarrow> Ok (d\<lparr>di_boards := boards\<rparr>)))))"

definition add_firmware ::
  "('j, 'e) json_ops \<Rightarrow> 'j package \<Rightarrow> 'j \<Rightarrow> discovery \<Rightarrow> (discovery, 'e tool_error) result" where
  "add_firmware js package namespace d =
     (case js_get js namespace (lit ''firmware'') of
        None \<Rightarrow> Ok d
      | Some v \<Rightarrow>
          (case parse_firmware js package v of
             Inl e \<Rightarrow> Err e
           | Inr metadata \<Rightarrow>
               Ok (d\<lparr>di_firmware := di_firmware d @ [(pk_name package, metadata)],
                     di_exclusions := btree_set_insert (pk_name package) (di_exclusions d)\<rparr>)))"

fun discover_packages ::
  "('j, 'e) json_ops \<Rightarrow> 'j package list \<Rightarrow> discovery \<Rightarrow> (discovery, 'e tool_error) result" where
  "discover_packages js [] d = Ok d"
| "discover_packages js (package # packages) d =
     (case js_get js (pk_metadata package) METADATA_NAMESPACE of
        None \<Rightarrow> discover_packages js packages d
      | Some namespace \<Rightarrow>
          (case add_board js package namespace (add_host_check js package namespace d) of
             Inl e \<Rightarrow> Err e
           | Inr d1 \<Rightarrow>
               (case add_firmware js package namespace d1 of
                  Inl e \<Rightarrow> Err e
                | Inr d2 \<Rightarrow> discover_packages js packages d2)))"

text \<open>The second loop resolves the declarations; \<open>selectors\<close> detects duplicates.\<close>

fun resolve_firmware ::
  "(str \<times> board) list \<Rightarrow> (str \<times> firmware_metadata) list \<Rightarrow> (str \<times> str) list \<Rightarrow> firmware list
   \<Rightarrow> (firmware list, 'e tool_error) result" where
  "resolve_firmware boards [] selectors fs = Ok fs"
| "resolve_firmware boards ((package, metadata) # declared) selectors fs =
     (if map_of boards (fm_board metadata) = None
      then Err (UnknownFirmwareBoard package (fm_board metadata))
      else if fm_variant metadata = [] \<or> 0x2F \<in> set (fm_variant metadata)
      then Err (InvalidVariant package (fm_variant metadata))
      else let selector = firmware_selector (fm_board metadata) (fm_variant metadata)
        in case btree_insert selector package selectors of
             (Some existing, _) \<Rightarrow> Err (DuplicateSelector selector existing package)
           | (None, selectors') \<Rightarrow>
               resolve_firmware boards declared selectors'
                 (fs @ [\<lparr>fi_package = package, fi_board = fm_board metadata,
                         fi_variant = fm_variant metadata, fi_selector = selector\<rparr>]))"

definition from_packages ::
  "('j, 'e) json_ops \<Rightarrow> 'j package list \<Rightarrow> (registry, 'e tool_error) result" where
  "from_packages js packages =
     (case discover_packages js packages \<lparr>di_boards = [], di_firmware = [], di_exclusions = []\<rparr> of
        Inl e \<Rightarrow> Err e
      | Inr d \<Rightarrow>
          (case resolve_firmware (di_boards d) (di_firmware d) [] [] of
             Inl e \<Rightarrow> Err e
           | Inr fs \<Rightarrow>
               Ok \<lparr>re_boards = di_boards d, re_firmware = sort_key fi_selector fs,
                   re_host_exclusions = di_exclusions d\<rparr>))"

definition registry_board :: "registry \<Rightarrow> str \<Rightarrow> (board, 'e tool_error) result" where
  "registry_board r id_or_package =
     (case map_of (re_boards r) id_or_package of
        Some b \<Rightarrow> Ok b
      | None \<Rightarrow>
          ok_or (UnknownBoard id_or_package)
            (find (\<lambda>b. bo_package b = id_or_package) (map snd (re_boards r))))"

definition registry_firmware :: "registry \<Rightarrow> str \<Rightarrow> (firmware, 'e tool_error) result" where
  "registry_firmware r selector_or_package =
     ok_or (UnknownFirmware selector_or_package)
       (find (\<lambda>f. fi_selector f = selector_or_package \<or> fi_package f = selector_or_package)
          (re_firmware r))"

subsection \<open>Arguments\<close>

definition strip_prefix :: "str \<Rightarrow> str \<Rightarrow> str option" where
  "strip_prefix p s = (if take (length p) s = p then Some (drop (length p) s) else None)"

text \<open>What an old-style subcommand stands for: the subcommand and its firmware.\<close>

definition legacy_replacement :: "str \<Rightarrow> (str \<times> str) option" where
  "legacy_replacement command =
     (case (if command \<noteq> lit ''build-all''
            then map_option (\<lambda>f. (lit ''build'', f)) (strip_prefix (lit ''build-'') command)
            else None) of
        Some r \<Rightarrow> Some r
      | None \<Rightarrow> map_option (\<lambda>f. (lit ''run'', f)) (strip_prefix (lit ''run-'') command))"

definition normalize_legacy_args :: "str list \<Rightarrow> str list \<times> str option" where
  "normalize_legacy_args args =
     (case args of
        program # argument # rest \<Rightarrow>
          (case from_utf8 argument of
             None \<Rightarrow> (args, None)
           | Some command \<Rightarrow>
               (case legacy_replacement command of
                  None \<Rightarrow> (args, None)
                | Some (subcommand, name) \<Rightarrow> (program # subcommand # name # rest, Some command)))
      | _ \<Rightarrow> (args, None))"

subsection \<open>Commands\<close>

record command =
  cm_program :: str
  cm_args :: "str list"
  cm_env :: "(str \<times> str) list"

text \<open>How a process ends: not started, or with a status that is a success or not.\<close>

datatype 'e process_end = StartFailed 'e | ExitSuccess | ExitFailure 'e

text \<open>
  The world answers a command given the commands that came before it; the state of a task
  is the list of the commands it has run.
\<close>

type_synonym 'e world = "command list \<Rightarrow> command \<Rightarrow> 'e process_end"

definition command_with_env ::
  "'e world \<Rightarrow> str \<Rightarrow> str list \<Rightarrow> (str \<times> str) list \<Rightarrow> command list
   \<Rightarrow> (unit, 'e tool_error) result \<times> command list" where
  "command_with_env world program args environment past =
     (let c = \<lparr>cm_program = program, cm_args = args, cm_env = environment\<rparr>
      in (case world past c of
            StartFailed e \<Rightarrow> Err (NotStarted program e)
          | ExitSuccess \<Rightarrow> Ok ()
          | ExitFailure e \<Rightarrow> Err (ExitedWith program e),
          past @ [c]))"

definition run_command ::
  "'e world \<Rightarrow> str \<Rightarrow> str list \<Rightarrow> command list \<Rightarrow> (unit, 'e tool_error) result \<times> command list" where
  "run_command world program args past = command_with_env world program args [] past"

text \<open>\<open>CARGO\<close> is the value of the environment variable.\<close>

definition cargo_executable :: "str option \<Rightarrow> str" where
  "cargo_executable CARGO = unwrap_or (lit ''cargo'') CARGO"

definition cargo ::
  "'e world \<Rightarrow> str option \<Rightarrow> str list \<Rightarrow> command list
   \<Rightarrow> (unit, 'e tool_error) result \<times> command list" where
  "cargo world CARGO args past = run_command world (cargo_executable CARGO) args past"

definition build_firmware ::
  "'e world \<Rightarrow> str option \<Rightarrow> firmware \<Rightarrow> board \<Rightarrow> command list
   \<Rightarrow> (unit, 'e tool_error) result \<times> command list" where
  "build_firmware world CARGO f b past =
     cargo world CARGO [lit ''build'', lit ''-p'', fi_package f, lit ''--target'',
       bm_target (bo_metadata b), lit ''--release''] past"

definition build ::
  "'e world \<Rightarrow> str option \<Rightarrow> registry \<Rightarrow> str \<Rightarrow> command list
   \<Rightarrow> (unit, 'e tool_error) result \<times> command list" where
  "build world CARGO r selector past =
     (case registry_firmware r selector of
        Inl e \<Rightarrow> (Err e, past)
      | Inr f \<Rightarrow>
          (case registry_board r (fi_board f) of
             Inl e \<Rightarrow> (Err e, past)
           | Inr b \<Rightarrow> build_firmware world CARGO f b past))"

fun build_each ::
  "'e world \<Rightarrow> str option \<Rightarrow> registry \<Rightarrow> firmware list \<Rightarrow> command list
   \<Rightarrow> (unit, 'e tool_error) result \<times> command list" where
  "build_each world CARGO r [] past = (Ok (), past)"
| "build_each world CARGO r (f # fs) past =
     (case registry_board r (fi_board f) of
        Inl e \<Rightarrow> (Err e, past)
      | Inr b \<Rightarrow>
          (case build_firmware world CARGO f b past of
             (Inl e, past') \<Rightarrow> (Err e, past')
           | (Inr _, past') \<Rightarrow> build_each world CARGO r fs past'))"

definition selected_firmware :: "registry \<Rightarrow> str option \<Rightarrow> firmware list" where
  "selected_firmware r board_filter =
     filter (\<lambda>f. case board_filter of None \<Rightarrow> True | Some b \<Rightarrow> fi_board f = b) (re_firmware r)"

definition build_all ::
  "'e world \<Rightarrow> str option \<Rightarrow> registry \<Rightarrow> str option \<Rightarrow> command list
   \<Rightarrow> (unit, 'e tool_error) result \<times> command list" where
  "build_all world CARGO r board_filter past =
     (case (case board_filter of
              None \<Rightarrow> Ok None
            | Some b \<Rightarrow>
                (case registry_board r b of Inl e \<Rightarrow> Err e | Inr found \<Rightarrow> Ok (Some (bm_id (bo_metadata found))))) of
        Inl e \<Rightarrow> (Err e, past)
      | Inr flt \<Rightarrow>
          if selected_firmware r flt = [] then (Err NoFirmwareMatched, past)
          else build_each world CARGO r (selected_firmware r flt) past)"

text \<open>\<open>str::replace\<close> of one ASCII byte and \<open>to_ascii_uppercase\<close>.\<close>

definition ascii_uppercase :: "u8 \<Rightarrow> u8" where
  "ascii_uppercase b = (if is_ascii_lower b then b - 0x20 else b)"

definition cargo_runner_variable :: "str \<Rightarrow> str" where
  "cargo_runner_variable target =
     lit ''CARGO_TARGET_'' @ map ascii_uppercase (map (\<lambda>b. if b = 0x2D then 0x5F else b) target)
     @ lit ''_RUNNER''"

definition run_firmware ::
  "'e world \<Rightarrow> str option \<Rightarrow> registry \<Rightarrow> str \<Rightarrow> command list
   \<Rightarrow> (unit, 'e tool_error) result \<times> command list" where
  "run_firmware world CARGO r selector past =
     (case registry_firmware r selector of
        Inl e \<Rightarrow> (Err e, past)
      | Inr f \<Rightarrow>
          (case registry_board r (fi_board f) of
             Inl e \<Rightarrow> (Err e, past)
           | Inr b \<Rightarrow>
               command_with_env world (cargo_executable CARGO)
                 [lit ''run'', lit ''-p'', fi_package f, lit ''--target'', bm_target (bo_metadata b),
                  lit ''--release'']
                 [(cargo_runner_variable (bm_target (bo_metadata b)),
                   join_on 0x20 (bm_runner (bo_metadata b)))] past))"

fun add_exclusions :: "str list \<Rightarrow> str list \<Rightarrow> str list" where
  "add_exclusions args [] = args"
| "add_exclusions args (package # exclusions) =
     add_exclusions (args @ [lit ''--exclude'', package]) exclusions"

definition host_tests ::
  "'e world \<Rightarrow> str option \<Rightarrow> registry \<Rightarrow> command list
   \<Rightarrow> (unit, 'e tool_error) result \<times> command list" where
  "host_tests world CARGO r past =
     cargo world CARGO (add_exclusions [lit ''test'', lit ''--workspace''] (re_host_exclusions r)) past"

definition check_task ::
  "'e world \<Rightarrow> str option \<Rightarrow> registry \<Rightarrow> command list
   \<Rightarrow> (unit, 'e tool_error) result \<times> command list" where
  "check_task world CARGO r past =
     (case cargo world CARGO [lit ''fmt'', lit ''--all'', lit ''--check''] past of
        (Inl e, past1) \<Rightarrow> (Err e, past1)
      | (Inr _, past1) \<Rightarrow>
          (case cargo world CARGO
                  (add_exclusions [lit ''clippy'', lit ''--workspace''] (re_host_exclusions r)
                   @ [lit ''--all-targets'', lit ''--'', lit ''-D'', lit ''warnings'']) past1 of
             (Inl e, past2) \<Rightarrow> (Err e, past2)
           | (Inr _, past2) \<Rightarrow> host_tests world CARGO r past2))"

text \<open>\<open>str::lines\<close>: a final newline ends the last line, and a carriage return before a newline is dropped.\<close>

definition strip_cr :: "str \<Rightarrow> str" where
  "strip_cr l = (if ends_with_byte 0x0D l then butlast l else l)"

definition str_lines :: "str \<Rightarrow> str list" where
  "str_lines s =
     (let ps = split_on 0x0A s
      in map strip_cr (butlast ps) @ (if last ps = [] then [] else [last ps]))"

text \<open>\<open>output\<close>: the standard output of a command that ends with a success.\<close>

datatype 'e captured = CaptureFailed 'e | CaptureSuccess "u8 list" | CaptureFailure 'e

definition captured_output :: "str \<Rightarrow> 'e captured \<Rightarrow> (str, 'e tool_error) result" where
  "captured_output program c =
     (case c of
        CaptureFailed e \<Rightarrow> Err (NotStarted program e)
      | CaptureFailure e \<Rightarrow> Err (ExitedWith program e)
      | CaptureSuccess stdout \<Rightarrow> ok_or NotUtf8 (from_utf8 stdout))"

fun doctor_loop ::
  "'e world \<Rightarrow> str \<Rightarrow> board list \<Rightarrow> str list \<Rightarrow> str list \<Rightarrow> command list
   \<Rightarrow> (unit, 'e tool_error) result \<times> command list" where
  "doctor_loop world installed [] checked_targets checked_tools past = (Ok (), past)"
| "doctor_loop world installed (b # boards) checked_targets checked_tools past =
     (let target = bm_target (bo_metadata b);
          tool = hd (bm_runner (bo_metadata b))
      in if target \<notin> set checked_targets \<and> target \<notin> set (str_lines installed)
         then (Err (MissingTarget target), past)
         else if tool \<in> set checked_tools
         then doctor_loop world installed boards (btree_set_insert target checked_targets)
                (btree_set_insert tool checked_tools) past
         else (case run_command world tool [lit ''--version''] past of
                 (Inl e, past') \<Rightarrow> (Err (RunnerUnavailable tool), past')
               | (Inr _, past') \<Rightarrow>
                   doctor_loop world installed boards (btree_set_insert target checked_targets)
                     (btree_set_insert tool checked_tools) past'))"

definition rustup_command :: command where
  "rustup_command =
     \<lparr>cm_program = lit ''rustup'', cm_args = [lit ''target'', lit ''list'', lit ''--installed''], cm_env = []\<rparr>"

text \<open>\<open>rustup\<close> is what the listing of the installed targets gives.\<close>

definition doctor ::
  "'e world \<Rightarrow> 'e captured \<Rightarrow> registry \<Rightarrow> str option \<Rightarrow> command list
   \<Rightarrow> (unit, 'e tool_error) result \<times> command list" where
  "doctor world rustup r board_filter past =
     (case (case board_filter of
              Some b \<Rightarrow> (case registry_board r b of Inl e \<Rightarrow> Err e | Inr found \<Rightarrow> Ok [found])
            | None \<Rightarrow> Ok (map snd (re_boards r))) of
        Inl e \<Rightarrow> (Err e, past)
      | Inr selected \<Rightarrow>
          if selected = [] then (Err NoBoardsRegistered, past)
          else (case captured_output (lit ''rustup'') rustup of
                  Inl e \<Rightarrow> (Err e, past @ [rustup_command])
                | Inr installed \<Rightarrow> doctor_loop world installed selected [] [] (past @ [rustup_command])))"

text \<open>\<open>targets\<close>: the lines it prints.\<close>

definition targets :: "registry \<Rightarrow> (str list, 'e tool_error) result" where
  "targets r =
     (let ts = fold btree_set_insert (map (\<lambda>b. bm_target (bo_metadata b)) (map snd (re_boards r))) []
      in if ts = [] then Err NoTargetsRegistered else Ok ts)"

text \<open>\<open>execute\<close>, after the registry was discovered; \<open>list\<close> and \<open>targets\<close> only print.\<close>

datatype tool_task =
  TaskBuild str | TaskBuildAll "str option" | TaskCheck | TaskDoctor "str option" | TaskList
| TaskRun str | TaskTest | TaskTargets

fun execute ::
  "'e world \<Rightarrow> str option \<Rightarrow> 'e captured \<Rightarrow> (registry, 'e tool_error) result \<Rightarrow> tool_task
   \<Rightarrow> command list \<Rightarrow> (unit, 'e tool_error) result \<times> command list" where
  "execute world CARGO rustup discovered t past =
     (case discovered of
        Inl e \<Rightarrow> (Err e, past)
      | Inr r \<Rightarrow>
          (case t of
             TaskCheck \<Rightarrow> check_task world CARGO r past
           | TaskTest \<Rightarrow> host_tests world CARGO r past
           | TaskList \<Rightarrow> (Ok (), past)
           | TaskBuild f \<Rightarrow> build world CARGO r f past
           | TaskBuildAll b \<Rightarrow> build_all world CARGO r b past
           | TaskDoctor b \<Rightarrow> doctor world rustup r b past
           | TaskRun f \<Rightarrow> run_firmware world CARGO r f past
           | TaskTargets \<Rightarrow> (map_sum id (\<lambda>_. ()) (targets r), past)))"

subsection \<open>Specifications\<close>

text \<open>What a package declares, read off its metadata.\<close>

definition namespace_of :: "('j, 'e) json_ops \<Rightarrow> 'j package \<Rightarrow> 'j option" where
  "namespace_of js p = js_get js (pk_metadata p) METADATA_NAMESPACE"

definition declared_board :: "('j, 'e) json_ops \<Rightarrow> 'j package \<Rightarrow> (str \<times> board) option" where
  "declared_board js p =
     (case Option.bind (namespace_of js p) (\<lambda>ns. js_get js ns (lit ''board'')) of
        None \<Rightarrow> None
      | Some v \<Rightarrow>
          (case js_board js v of
             Inl e \<Rightarrow> None
           | Inr m \<Rightarrow> Some (bm_id m, \<lparr>bo_package = pk_name p, bo_metadata = m\<rparr>)))"

definition declared_firmware :: "('j, 'e) json_ops \<Rightarrow> 'j package \<Rightarrow> (str \<times> firmware_metadata) option" where
  "declared_firmware js p =
     (case Option.bind (namespace_of js p) (\<lambda>ns. js_get js ns (lit ''firmware'')) of
        None \<Rightarrow> None
      | Some v \<Rightarrow> (case js_firmware js v of Inl e \<Rightarrow> None | Inr m \<Rightarrow> Some (pk_name p, m)))"

definition host_excluded :: "('j, 'e) json_ops \<Rightarrow> 'j package \<Rightarrow> bool" where
  "host_excluded js p \<longleftrightarrow>
     (case namespace_of js p of
        None \<Rightarrow> False
      | Some ns \<Rightarrow>
          Option.bind (js_get js ns (lit ''host-check'')) (js_as_bool js) = Some False
          \<or> js_get js ns (lit ''firmware'') \<noteq> None)"

definition firmware_of :: "str \<times> firmware_metadata \<Rightarrow> firmware" where
  "firmware_of d =
     \<lparr>fi_package = fst d, fi_board = fm_board (snd d), fi_variant = fm_variant (snd d),
      fi_selector = firmware_selector (fm_board (snd d)) (fm_variant (snd d))\<rparr>"

definition valid_board :: "board_metadata \<Rightarrow> bool" where
  "valid_board m \<longleftrightarrow>
     bm_id m \<noteq> [] \<and> 0x2F \<notin> set (bm_id m) \<and> bm_target m \<noteq> [] \<and> bm_runner m \<noteq> []
     \<and> (\<forall>c \<in> set (bm_runner m). c \<noteq> [] \<and> \<not> has_whitespace c)"

definition valid_variant :: "str \<Rightarrow> bool" where
  "valid_variant v \<longleftrightarrow> v \<noteq> [] \<and> 0x2F \<notin> set v"

definition build_command :: "str option \<Rightarrow> registry \<Rightarrow> firmware \<Rightarrow> command" where
  "build_command CARGO r f =
     \<lparr>cm_program = cargo_executable CARGO,
      cm_args = [lit ''build'', lit ''-p'', fi_package f, lit ''--target'',
        bm_target (bo_metadata (the (map_of (re_boards r) (fi_board f)))), lit ''--release''],
      cm_env = []\<rparr>"

text \<open>A workspace of a board and one firmware for it, to evaluate the definitions on.\<close>

datatype sample_value =
  SvPackage "board_metadata option" "firmware_metadata option"
| SvBoard board_metadata | SvFirmware firmware_metadata

definition sample_json :: "(sample_value, unit) json_ops" where
  "sample_json =
     \<lparr>js_get = \<lambda>v k. (case v of
        SvPackage b f \<Rightarrow>
          if k = METADATA_NAMESPACE then Some v
          else if k = lit ''board'' then map_option SvBoard b
          else if k = lit ''firmware'' then map_option SvFirmware f
          else None
      | _ \<Rightarrow> None),
      js_as_bool = \<lambda>v. None,
      js_board = \<lambda>v. (case v of SvBoard m \<Rightarrow> Ok m | _ \<Rightarrow> Err ()),
      js_firmware = \<lambda>v. (case v of SvFirmware m \<Rightarrow> Ok m | _ \<Rightarrow> Err ())\<rparr>"

definition sample_board :: board where
  "sample_board =
     \<lparr>bo_package = lit ''b'',
      bo_metadata = \<lparr>bm_id = lit ''x'', bm_target = lit ''t'', bm_runner = [lit ''r'', lit ''f'']\<rparr>\<rparr>"

definition sample_firmware :: firmware where
  "sample_firmware =
     \<lparr>fi_package = lit ''p'', fi_board = lit ''x'', fi_variant = lit ''default'', fi_selector = lit ''x''\<rparr>"

definition sample_workspace :: "sample_value package list" where
  "sample_workspace =
     [\<lparr>pk_name = lit ''p'', pk_metadata = SvPackage None
         (Some \<lparr>fm_board = lit ''x'', fm_variant = lit ''default''\<rparr>)\<rparr>,
      \<lparr>pk_name = lit ''b'', pk_metadata = SvPackage (Some (bo_metadata sample_board)) None\<rparr>]"

definition sample_tool_registry :: registry where
  "sample_tool_registry =
     \<lparr>re_boards = [(lit ''x'', sample_board)], re_firmware = [sample_firmware],
      re_host_exclusions = [lit ''p'']\<rparr>"

section \<open>Interface: ordered sets\<close>

text \<open>Inserting into an ascending list keeps it ascending and adds the element.\<close>

locale ordered_set =
  fixes ins :: "'a::linorder \<Rightarrow> 'a list \<Rightarrow> 'a list"
  assumes ins_ascending: "sorted_wrt (<) xs \<Longrightarrow> sorted_wrt (<) (ins x xs)"
    and ins_elements: "set (ins x xs) = insert x (set xs)"
begin

lemma collect_ascending: "sorted_wrt (<) acc \<Longrightarrow> sorted_wrt (<) (fold ins xs acc)"
  by (induction xs arbitrary: acc) (simp_all add: ins_ascending)

lemma collect_elements: "set (fold ins xs acc) = set xs \<union> set acc"
  by (induction xs arbitrary: acc) (auto simp: ins_elements)

lemma collect_canonical: "fold ins xs [] = sorted_list_of_set (set xs)"
  using collect_ascending [of "[]" xs] collect_elements [of xs "[]"]
  by (simp add: strict_sorted_equal)

end

interpretation bset: ordered_set btree_set_insert
proof
  show elements: "set (btree_set_insert x xs) = insert x (set xs)" for x :: 'a and xs
    by (induction xs) auto
  show "sorted_wrt (<) xs \<Longrightarrow> sorted_wrt (<) (btree_set_insert x xs)" for x :: 'a and xs
    by (induction xs) (auto simp: elements)
qed

section \<open>Lemmas\<close>

lemma btree_insert_get:
  "sorted_wrt (<) (map fst m) \<Longrightarrow> fst (btree_insert k v m) = map_of m k"
  by (induction k v m rule: btree_insert.induct)
    (auto simp: Let_def case_prod_beta map_of_eq_None_iff [symmetric] dest: map_of_SomeD
      intro!: sym [OF iffD2 [OF map_of_eq_None_iff]])

lemma btree_insert_elements:
  "fst (btree_insert k v m) = None \<Longrightarrow> set (snd (btree_insert k v m)) = insert (k, v) (set m)"
  by (induction k v m rule: btree_insert.induct) (auto simp: Let_def case_prod_beta split: if_splits)

lemma btree_insert_keys: "set (map fst (snd (btree_insert k v m))) = insert k (set (map fst m))"
  by (induction k v m rule: btree_insert.induct) (auto simp: Let_def case_prod_beta)

lemma btree_insert_ascending:
  "sorted_wrt (<) (map fst m) \<Longrightarrow> sorted_wrt (<) (map fst (snd (btree_insert k v m)))"
proof (induction k v m rule: btree_insert.induct)
  case (2 k v j w m)
  then show ?case
    using btree_insert_keys [of k v m] by (auto simp: Let_def case_prod_beta)
qed simp

lemma ascending_distinct: "sorted_wrt (<) (xs :: 'a::linorder list) \<Longrightarrow> distinct xs"
  using strict_sorted_iff by blast

subsection \<open>Discovery\<close>

lemma validate_ok: "validate_board_metadata p m = Inr u \<longleftrightarrow> valid_board m"
  by (auto simp: validate_board_metadata_def valid_board_def)

lemma add_board_effect:
  assumes "add_board js p ns d = Inr d1" and "namespace_of js p = Some ns"
  shows "sorted_wrt (<) (map fst (di_boards d)) \<longrightarrow> sorted_wrt (<) (map fst (di_boards d1))"
    and "set (di_boards d1) = set (di_boards d) \<union> set_option (declared_board js p)"
    and "\<forall>x \<in> set_option (declared_board js p). valid_board (bo_metadata (snd x))"
    and "di_firmware d1 = di_firmware d" and "di_exclusions d1 = di_exclusions d"
proof -
  consider (none) "js_get js ns (lit ''board'') = None" "d1 = d"
    | (board) v m where "js_get js ns (lit ''board'') = Some v" "js_board js v = Inr m" "valid_board m"
        "fst (btree_insert (bm_id m) \<lparr>bo_package = pk_name p, bo_metadata = m\<rparr> (di_boards d)) = None"
        "d1 = d\<lparr>di_boards := snd (btree_insert (bm_id m) \<lparr>bo_package = pk_name p, bo_metadata = m\<rparr> (di_boards d))\<rparr>"
    using assms(1)
    by (auto simp: add_board_def parse_board_def map_err_def validate_ok
        split: option.splits sum.splits prod.splits)
  then have "(sorted_wrt (<) (map fst (di_boards d)) \<longrightarrow> sorted_wrt (<) (map fst (di_boards d1)))
      \<and> set (di_boards d1) = set (di_boards d) \<union> set_option (declared_board js p)
      \<and> (\<forall>x \<in> set_option (declared_board js p). valid_board (bo_metadata (snd x)))
      \<and> di_firmware d1 = di_firmware d \<and> di_exclusions d1 = di_exclusions d"
    by cases (simp_all add: declared_board_def assms(2) btree_insert_ascending btree_insert_elements)
  then show "sorted_wrt (<) (map fst (di_boards d)) \<longrightarrow> sorted_wrt (<) (map fst (di_boards d1))"
    and "set (di_boards d1) = set (di_boards d) \<union> set_option (declared_board js p)"
    and "\<forall>x \<in> set_option (declared_board js p). valid_board (bo_metadata (snd x))"
    and "di_firmware d1 = di_firmware d" and "di_exclusions d1 = di_exclusions d"
    by blast+
qed

lemma add_firmware_effect:
  assumes "add_firmware js p ns d1 = Inr d2" and "namespace_of js p = Some ns"
    and "di_exclusions d1 = di_exclusions (add_host_check js p ns d)"
  shows "di_boards d2 = di_boards d1"
    and "di_firmware d2 = di_firmware d1 @ (case declared_firmware js p of None \<Rightarrow> [] | Some f \<Rightarrow> [f])"
    and "sorted_wrt (<) (di_exclusions d) \<longrightarrow> sorted_wrt (<) (di_exclusions d2)"
    and "set (di_exclusions d2) = set (di_exclusions d) \<union> (if host_excluded js p then {pk_name p} else {})"
  using assms
  by (auto simp: add_firmware_def parse_firmware_def map_err_def declared_firmware_def host_excluded_def
      add_host_check_def bset.ins_ascending bset.ins_elements split: option.splits sum.splits if_splits)

lemma discover_step:
  assumes "discover_packages js (p # ps) d = Inr d'"
  obtains d2 where "discover_packages js ps d2 = Inr d'"
    and "sorted_wrt (<) (map fst (di_boards d)) \<Longrightarrow> sorted_wrt (<) (map fst (di_boards d2))"
    and "set (di_boards d2) = set (di_boards d) \<union> set_option (declared_board js p)"
    and "\<forall>x \<in> set_option (declared_board js p). valid_board (bo_metadata (snd x))"
    and "di_firmware d2 = di_firmware d @ (case declared_firmware js p of None \<Rightarrow> [] | Some f \<Rightarrow> [f])"
    and "sorted_wrt (<) (di_exclusions d) \<Longrightarrow> sorted_wrt (<) (di_exclusions d2)"
    and "set (di_exclusions d2) = set (di_exclusions d) \<union> (if host_excluded js p then {pk_name p} else {})"
proof (cases "namespace_of js p")
  case None
  with assms show ?thesis
    by (intro that [of d]) (simp_all add: namespace_of_def declared_board_def declared_firmware_def host_excluded_def)
next
  case (Some ns)
  then have ns: "js_get js (pk_metadata p) METADATA_NAMESPACE = Some ns"
    by (simp add: namespace_of_def)
  let ?d0 = "add_host_check js p ns d"
  obtain d1 d2 where d1: "add_board js p ns ?d0 = Inr d1" and d2: "add_firmware js p ns d1 = Inr d2"
    and rest: "discover_packages js ps d2 = Inr d'"
    using assms ns by (auto split: sum.splits)
  have h: "di_boards ?d0 = di_boards d" "di_firmware ?d0 = di_firmware d"
    by (simp_all add: add_host_check_def)
  note b = add_board_effect [OF d1 Some, unfolded h]
  note f = add_firmware_effect [OF d2 Some b(5)]
  show ?thesis
    using b f by (intro that [OF rest]) simp_all
qed

text \<open>What the whole loop has collected.\<close>

lemma discover_all:
  assumes "discover_packages js ps d = Inr d'"
    and "sorted_wrt (<) (map fst (di_boards d))" and "sorted_wrt (<) (di_exclusions d)"
  shows "sorted_wrt (<) (map fst (di_boards d')) \<and> sorted_wrt (<) (di_exclusions d')
    \<and> set (di_boards d') = set (di_boards d) \<union> {x. \<exists>p \<in> set ps. declared_board js p = Some x}
    \<and> (\<forall>p \<in> set ps. \<forall>x. declared_board js p = Some x \<longrightarrow> valid_board (bo_metadata (snd x)))
    \<and> di_firmware d' = di_firmware d @ List.map_filter (declared_firmware js) ps
    \<and> set (di_exclusions d') = set (di_exclusions d) \<union> {pk_name p |p. p \<in> set ps \<and> host_excluded js p}"
  using assms
proof (induction ps arbitrary: d)
  case (Cons p ps)
  obtain d2 where d2: "discover_packages js ps d2 = Inr d'"
    and step: "sorted_wrt (<) (map fst (di_boards d2))" "sorted_wrt (<) (di_exclusions d2)"
      "set (di_boards d2) = set (di_boards d) \<union> set_option (declared_board js p)"
      "\<forall>x \<in> set_option (declared_board js p). valid_board (bo_metadata (snd x))"
      "di_firmware d2 = di_firmware d @ (case declared_firmware js p of None \<Rightarrow> [] | Some f \<Rightarrow> [f])"
      "set (di_exclusions d2) = set (di_exclusions d) \<union> (if host_excluded js p then {pk_name p} else {})"
    using discover_step [OF Cons.prems(1)] Cons.prems(2, 3) by metis
  note ih = Cons.IH [OF d2 step(1, 2)]
  show ?case
  proof (intro conjI)
    show "di_firmware d' = di_firmware d @ List.map_filter (declared_firmware js) (p # ps)"
      using ih step(5) by (simp add: map_filter_simps split: option.splits)
    show "set (di_boards d') = set (di_boards d) \<union> {x. \<exists>p \<in> set (p # ps). declared_board js p = Some x}"
      using ih step(3) by auto
    show "set (di_exclusions d') = set (di_exclusions d) \<union> {pk_name q |q. q \<in> set (p # ps) \<and> host_excluded js q}"
      using ih step(6) by auto
    show "\<forall>q \<in> set (p # ps). \<forall>x. declared_board js q = Some x \<longrightarrow> valid_board (bo_metadata (snd x))"
      using ih step(4) by auto
  qed (use ih in simp_all)
qed (simp add: map_filter_simps)

lemma resolve_all:
  assumes "resolve_firmware boards ds sels fs = (Inr fs' :: (firmware list, 'e tool_error) result)"
    and "sorted_wrt (<) (map fst sels)" and "set (map fst sels) = fi_selector ` set fs"
    and "distinct (map fi_selector fs)"
  shows "fs' = fs @ map firmware_of ds \<and> distinct (map fi_selector fs')
    \<and> (\<forall>d \<in> set ds. map_of boards (fm_board (snd d)) \<noteq> None \<and> valid_variant (fm_variant (snd d)))"
  using assms
proof (induction ds arbitrary: sels fs)
  case (Cons d ds)
  obtain package m where d: "d = (package, m)"
    by fastforce
  let ?sel = "firmware_selector (fm_board m) (fm_variant m)" and ?f = "firmware_of (package, m)"
  obtain sels' where known: "map_of boards (fm_board m) \<noteq> None" and valid: "valid_variant (fm_variant m)"
    and ins: "btree_insert ?sel package sels = (None, sels')"
    and rest: "resolve_firmware boards ds sels' (fs @ [?f]) = (Inr fs' :: (firmware list, 'e tool_error) result)"
    using Cons.prems(1)
    by (auto simp: d Let_def valid_variant_def firmware_of_def split: if_splits prod.splits option.splits)
  have "map_of sels ?sel = None"
    using btree_insert_get [OF Cons.prems(2), of ?sel package] ins by simp
  then have fresh: "?sel \<notin> fi_selector ` set fs"
    using Cons.prems(3) by (simp add: map_of_eq_None_iff)
  have keys: "sorted_wrt (<) (map fst sels')" "set (map fst sels') = fi_selector ` set (fs @ [?f])"
    using btree_insert_ascending [OF Cons.prems(2), of ?sel package] btree_insert_keys [of ?sel package sels]
      ins Cons.prems(3) by (simp_all add: firmware_of_def)
  have "distinct (map fi_selector (fs @ [?f]))"
    using Cons.prems(4) fresh by (simp add: firmware_of_def)
  note ih = Cons.IH [OF rest keys this]
  show ?case
  proof (intro conjI)
    show "fs' = fs @ map firmware_of (d # ds)"
      using ih by (simp add: d)
    show "distinct (map fi_selector fs')"
      using ih by blast
    show "\<forall>d \<in> set (d # ds). map_of boards (fm_board (snd d)) \<noteq> None \<and> valid_variant (fm_variant (snd d))"
      using ih known valid by (simp add: d)
  qed
qed simp

lemma declared_board_key: "declared_board js p = Some x \<Longrightarrow> fst x = bm_id (bo_metadata (snd x))"
  by (auto simp: declared_board_def split: option.splits sum.splits)

lemma from_packages_ok:
  fixes js :: "('j, 'e) json_ops"
  assumes "from_packages js ps = Inr r"
  shows "sorted_wrt (<) (map fst (re_boards r))"
    and "set (re_boards r) = {x. \<exists>p \<in> set ps. declared_board js p = Some x}"
    and "x \<in> set (re_boards r) \<Longrightarrow> fst x = bm_id (bo_metadata (snd x)) \<and> valid_board (bo_metadata (snd x))"
    and "re_firmware r = sort_key fi_selector (map firmware_of (List.map_filter (declared_firmware js) ps))"
    and "sorted_wrt (<) (map fi_selector (re_firmware r))"
    and "f \<in> set (re_firmware r) \<Longrightarrow> map_of (re_boards r) (fi_board f) \<noteq> None \<and> valid_variant (fi_variant f)
      \<and> fi_selector f = firmware_selector (fi_board f) (fi_variant f)"
    and "re_host_exclusions r = sorted_list_of_set {pk_name p |p. p \<in> set ps \<and> host_excluded js p}"
proof -
  obtain d fs where d: "discover_packages js ps \<lparr>di_boards = [], di_firmware = [], di_exclusions = []\<rparr> = Inr d"
    and fs: "resolve_firmware (di_boards d) (di_firmware d) [] []
      = (Inr fs :: (firmware list, 'e tool_error) result)"
    and r: "r = \<lparr>re_boards = di_boards d, re_firmware = sort_key fi_selector fs,
        re_host_exclusions = di_exclusions d\<rparr>"
    using assms by (auto simp: from_packages_def split: sum.splits)
  note dis = discover_all [OF d, simplified]
  note res = resolve_all [OF fs, simplified]
  have "distinct (map fi_selector fs)"
    using res by blast
  then have distinct_selectors: "distinct (map fi_selector (sort_key fi_selector fs))"
    by (simp add: distinct_map)
  show "sorted_wrt (<) (map fst (re_boards r))"
    "set (re_boards r) = {x. \<exists>p \<in> set ps. declared_board js p = Some x}"
    "re_firmware r = sort_key fi_selector (map firmware_of (List.map_filter (declared_firmware js) ps))"
    using dis res by (simp_all add: r)
  show "x \<in> set (re_boards r) \<Longrightarrow> fst x = bm_id (bo_metadata (snd x)) \<and> valid_board (bo_metadata (snd x))"
    using dis by (cases x) (auto simp: r dest: declared_board_key)
  show "sorted_wrt (<) (map fi_selector (re_firmware r))"
    using res distinct_selectors by (simp add: r strict_sorted_iff)
  show "f \<in> set (re_firmware r) \<Longrightarrow> map_of (re_boards r) (fi_board f) \<noteq> None \<and> valid_variant (fi_variant f)
      \<and> fi_selector f = firmware_selector (fi_board f) (fi_variant f)"
    using res by (auto simp: r firmware_of_def)
  have "di_exclusions d = sorted_list_of_set (set (di_exclusions d))"
    using dis sorted_list_of_set.idem_if_sorted_distinct [of "di_exclusions d"] by (simp add: strict_sorted_iff)
  then show "re_host_exclusions r = sorted_list_of_set {pk_name p |p. p \<in> set ps \<and> host_excluded js p}"
    using dis by (simp add: r)
qed

subsection \<open>Selectors and lookups\<close>

lemma first_separator:
  "\<lbrakk>b @ c # v = b' @ c # v'; c \<notin> set b; c \<notin> set b'\<rbrakk> \<Longrightarrow> b = b' \<and> v = v'"
  by (induction b arbitrary: b') (auto simp: append_eq_Cons_conv Cons_eq_append_conv)

lemma selector_injective:
  assumes "0x2F \<notin> set b" and "0x2F \<notin> set b'"
  shows "firmware_selector b v = firmware_selector b' v' \<longleftrightarrow> b = b' \<and> v = v'"
proof
  assume eq: "firmware_selector b v = firmware_selector b' v'"
  have iff: "0x2F \<in> set (firmware_selector c w) \<longleftrightarrow> w \<noteq> lit ''default''" if "0x2F \<notin> set c" for c w
    using that by (simp add: firmware_selector_def)
  have "v = lit ''default'' \<longleftrightarrow> v' = lit ''default''"
    using iff [OF assms(1), of v] iff [OF assms(2), of v'] eq by simp
  moreover have "b = b' \<and> v = v'" if "b @ 0x2F # v = b' @ 0x2F # v'"
    using that assms by (rule first_separator)
  ultimately show "b = b' \<and> v = v'"
    using eq by (auto simp: firmware_selector_def split: if_splits)
qed simp

lemma firmware_board_plain:
  assumes "from_packages js ps = Inr r" and "f \<in> set (re_firmware r)"
  shows "0x2F \<notin> set (fi_board f)"
proof -
  obtain b where b: "map_of (re_boards r) (fi_board f) = Some b"
    using from_packages_ok(6) [OF assms] by auto
  show ?thesis
    using from_packages_ok(3) [OF assms(1) map_of_SomeD [OF b]] by (simp add: valid_board_def)
qed

lemma registry_board_id: "map_of (re_boards r) i = Some b \<Longrightarrow> registry_board r i = Inr b"
  by (simp add: registry_board_def)

lemma registry_board_of_firmware:
  assumes "from_packages js ps = Inr r" and "f \<in> set (re_firmware r)"
  shows "registry_board r (fi_board f) = Inr (the (map_of (re_boards r) (fi_board f)))"
  using from_packages_ok(6) [OF assms] by (auto intro: registry_board_id)

lemma registry_firmware_selector:
  assumes "from_packages js ps = Inr r" and "f \<in> set (re_firmware r)"
    and "\<forall>g \<in> set (re_firmware r). fi_package g = fi_selector f \<longrightarrow> g = f"
  shows "registry_firmware r (fi_selector f) = Inr f"
proof -
  have inj: "inj_on fi_selector (set (re_firmware r))"
    using from_packages_ok(5) [OF assms(1)] by (simp add: strict_sorted_iff distinct_map)
  have "find (\<lambda>g. fi_selector g = fi_selector f \<or> fi_package g = fi_selector f) xs = Some f"
    if "f \<in> set xs" "set xs \<subseteq> set (re_firmware r)" for xs
    using that by (induction xs) (use inj assms(2, 3) in \<open>auto dest: inj_onD\<close>)
  then show ?thesis
    using assms(2) by (simp add: registry_firmware_def ok_or_def)
qed

subsection \<open>Commands\<close>

lemma build_firmware_runs:
  "build_firmware world CARGO f (the (map_of (re_boards r) (fi_board f))) past =
     (case world past (build_command CARGO r f) of
        StartFailed e \<Rightarrow> Err (NotStarted (cargo_executable CARGO) e)
      | ExitSuccess \<Rightarrow> Ok ()
      | ExitFailure e \<Rightarrow> Err (ExitedWith (cargo_executable CARGO) e),
      past @ [build_command CARGO r f])"
  by (simp add: build_firmware_def cargo_def run_command_def command_with_env_def build_command_def Let_def)

text \<open>A sequence of builds runs the commands in order up to the first that fails.\<close>

lemma build_each_runs:
  fixes world :: "'e world"
  assumes "from_packages js ps = Inr r" and "set fs \<subseteq> set (re_firmware r)"
  shows "\<exists>n \<le> length fs.
     snd (build_each world CARGO r fs past) = past @ map (build_command CARGO r) (take n fs)
     \<and> (is_ok (fst (build_each world CARGO r fs past)) \<longleftrightarrow>
          (\<forall>k < length fs. world (past @ map (build_command CARGO r) (take k fs)) (build_command CARGO r (fs ! k))
             = ExitSuccess))
     \<and> (is_ok (fst (build_each world CARGO r fs past)) \<longrightarrow> n = length fs)
     \<and> (\<not> is_ok (fst (build_each world CARGO r fs past)) \<longrightarrow> 0 < n
          \<and> world (past @ map (build_command CARGO r) (take (n - 1) fs)) (build_command CARGO r (fs ! (n - 1)))
              \<noteq> ExitSuccess)"
  using assms(2)
proof (induction fs arbitrary: past)
  case (Cons f fs)
  let ?c = "build_command CARGO r f"
  have board: "registry_board r (fi_board f)
      = (Inr (the (map_of (re_boards r) (fi_board f))) :: (board, 'e tool_error) result)"
    by (rule registry_board_of_firmware [OF assms(1)]) (use Cons.prems in simp)
  show ?case
  proof (cases "world past ?c")
    case ExitSuccess
    then have run: "build_each world CARGO r (f # fs) past = build_each world CARGO r fs (past @ [?c])"
      by (simp add: board build_firmware_runs)
    obtain n where n: "n \<le> length fs"
      "snd (build_each world CARGO r fs (past @ [?c])) = (past @ [?c]) @ map (build_command CARGO r) (take n fs)"
      "is_ok (fst (build_each world CARGO r fs (past @ [?c]))) \<longleftrightarrow>
          (\<forall>k < length fs. world ((past @ [?c]) @ map (build_command CARGO r) (take k fs))
             (build_command CARGO r (fs ! k)) = ExitSuccess)"
      "is_ok (fst (build_each world CARGO r fs (past @ [?c]))) \<longrightarrow> n = length fs"
      "\<not> is_ok (fst (build_each world CARGO r fs (past @ [?c]))) \<longrightarrow> 0 < n
          \<and> world ((past @ [?c]) @ map (build_command CARGO r) (take (n - 1) fs))
              (build_command CARGO r (fs ! (n - 1))) \<noteq> ExitSuccess"
      using Cons.IH [of "past @ [?c]"] Cons.prems by auto
    show ?thesis
      unfolding run
      using n ExitSuccess by (intro exI [of _ "Suc n"]) (auto simp: All_less_Suc2 nth_Cons' take_Cons')
  qed (use board in \<open>auto simp: build_firmware_runs is_ok_def All_less_Suc2 intro!: exI [of _ 1]\<close>)
qed (simp add: is_ok_def)

lemma add_exclusions_args: "add_exclusions args ps = args @ concat (map (\<lambda>p. [lit ''--exclude'', p]) ps)"
  by (induction ps arbitrary: args) simp_all

text \<open>What a check of boards that succeeds has seen and run.\<close>

lemma doctor_loop_ok:
  assumes "doctor_loop world installed bs tgs tls past = (Inr (), past')"
  shows "(\<forall>b \<in> set bs. bm_target (bo_metadata b) \<in> set tgs \<union> set (str_lines installed))
    \<and> (\<exists>ran. past' = past @ map (\<lambda>t. \<lparr>cm_program = t, cm_args = [lit ''--version''], cm_env = []\<rparr>) ran
         \<and> distinct ran \<and> set ran = (\<lambda>b. hd (bm_runner (bo_metadata b))) ` set bs - set tls)"
  using assms
proof (induction bs arbitrary: tgs tls past)
  case (Cons b bs)
  let ?target = "bm_target (bo_metadata b)" and ?tool = "hd (bm_runner (bo_metadata b))"
  let ?c = "\<lparr>cm_program = ?tool, cm_args = [lit ''--version''], cm_env = []\<rparr>"
  have target: "?target \<in> set tgs \<union> set (str_lines installed)"
    using Cons.prems by (auto simp: Let_def split: if_splits)
  show ?case
  proof (cases "?tool \<in> set tls")
    case True
    then have "doctor_loop world installed bs (btree_set_insert ?target tgs)
        (btree_set_insert ?tool tls) past = (Inr (), past')"
      using Cons.prems by (auto simp: Let_def split: if_splits)
    from Cons.IH [OF this] target True show ?thesis
      by (auto simp: bset.ins_elements insert_absorb)
  next
    case False
    then have "doctor_loop world installed bs (btree_set_insert ?target tgs)
        (btree_set_insert ?tool tls) (past @ [?c]) = (Inr (), past')"
      using Cons.prems
      by (auto simp: Let_def run_command_def command_with_env_def split: if_splits process_end.splits)
    from Cons.IH [OF this] obtain ran
      where ran: "past' = (past @ [?c]) @ map (\<lambda>t. \<lparr>cm_program = t, cm_args = [lit ''--version''], cm_env = []\<rparr>) ran"
        "distinct ran" "set ran = (\<lambda>b. hd (bm_runner (bo_metadata b))) ` set bs - insert ?tool (set tls)"
      and rest: "\<forall>b \<in> set bs. bm_target (bo_metadata b) \<in> insert ?target (set tgs) \<union> set (str_lines installed)"
      by (auto simp: bset.ins_elements)
    have "\<exists>ran. past' = past @ map (\<lambda>t. \<lparr>cm_program = t, cm_args = [lit ''--version''], cm_env = []\<rparr>) ran
         \<and> distinct ran \<and> set ran = (\<lambda>b. hd (bm_runner (bo_metadata b))) ` set (b # bs) - set tls"
      using ran False by (intro exI [of _ "?tool # ran"]) auto
    with rest target show ?thesis
      by auto
  qed
qed simp

lemma no_space: "\<lbrakk>utf8_valid s; \<not> has_whitespace s\<rbrakk> \<Longrightarrow> 0x20 \<notin> set s"
  using ascii_byte_is_char [of s _ "0x20"]
  by (auto simp: utf8_valid_def has_whitespace_def is_whitespace_def split: option.splits)

lemma runner_splits:
  assumes "valid_board m" and "\<forall>c \<in> set (bm_runner m). utf8_valid c"
  shows "split_on 0x20 (join_on 0x20 (bm_runner m)) = bm_runner m"
  by (rule split_join) (use assms in \<open>auto simp: valid_board_def no_space\<close>)

lemma legacy_replacement_cases:
  "legacy_replacement c =
     (if c \<noteq> lit ''build-all'' \<and> take 6 c = lit ''build-'' then Some (lit ''build'', drop 6 c)
      else if take 4 c = lit ''run-'' then Some (lit ''run'', drop 4 c) else None)"
proof -
  have "length (lit ''build-'') = 6" "length (lit ''run-'') = 4"
    by simp_all
  then show ?thesis
    by (simp add: legacy_replacement_def strip_prefix_def del: lit_Cons length_lit)
qed

lemma sample_workspace_registry:
  "from_packages sample_json sample_workspace = Inr sample_tool_registry"
  by code_simp

section \<open>Properties\<close>

text \<open>
  C37. The registry is exactly what the packages declare: its boards are the declared ones,
  in ascending order of their ids, each with a usable id, target and runner; its firmware are
  the declared ones, in ascending order of selectors that are all different and name their
  board and variant uniquely, each on a registered board; and the packages left out of the
  host checks are those that ask for it and all the firmware.
\<close>

theorem registry_faithful:
  assumes "from_packages js ps = Inr r"
  shows "sorted_wrt (<) (map fst (re_boards r))
    \<and> set (re_boards r) = {x. \<exists>p \<in> set ps. declared_board js p = Some x}
    \<and> (\<forall>x \<in> set (re_boards r). fst x = bm_id (bo_metadata (snd x)) \<and> valid_board (bo_metadata (snd x)))
    \<and> sorted_wrt (<) (map fi_selector (re_firmware r))
    \<and> mset (re_firmware r) = mset (map firmware_of (List.map_filter (declared_firmware js) ps))
    \<and> (\<forall>f \<in> set (re_firmware r). \<forall>g \<in> set (re_firmware r).
         map_of (re_boards r) (fi_board f) \<noteq> None
         \<and> (fi_board f = fi_board g \<and> fi_variant f = fi_variant g \<longrightarrow> f = g)
         \<and> (fi_selector f = firmware_selector (fi_board g) (fi_variant g) \<longrightarrow>
              fi_board f = fi_board g \<and> fi_variant f = fi_variant g))
    \<and> re_host_exclusions r = sorted_list_of_set {pk_name p |p. p \<in> set ps \<and> host_excluded js p}"
proof -
  note ok = from_packages_ok [OF assms]
  note slash = firmware_board_plain [OF assms]
  have inj: "inj_on fi_selector (set (re_firmware r))"
    using ok(5) by (simp add: strict_sorted_iff distinct_map)
  have pairs: "map_of (re_boards r) (fi_board f) \<noteq> None
         \<and> (fi_board f = fi_board g \<and> fi_variant f = fi_variant g \<longrightarrow> f = g)
         \<and> (fi_selector f = firmware_selector (fi_board g) (fi_variant g) \<longrightarrow>
              fi_board f = fi_board g \<and> fi_variant f = fi_variant g)"
    if f: "f \<in> set (re_firmware r)" and g: "g \<in> set (re_firmware r)" for f g
  proof (intro conjI impI)
    show "map_of (re_boards r) (fi_board f) \<noteq> None"
      using ok(6) [OF f] by blast
    assume "fi_board f = fi_board g \<and> fi_variant f = fi_variant g"
    then show "f = g"
      using ok(6) [OF f] ok(6) [OF g] inj_onD [OF inj _ f g] by simp
  next
    assume "fi_selector f = firmware_selector (fi_board g) (fi_variant g)"
    then have "firmware_selector (fi_board f) (fi_variant f) = firmware_selector (fi_board g) (fi_variant g)"
      using ok(6) [OF f] by simp
    then show "fi_board f = fi_board g" and "fi_variant f = fi_variant g"
      using selector_injective [OF slash [OF f] slash [OF g]] by simp_all
  qed
  have "mset (re_firmware r) = mset (map firmware_of (List.map_filter (declared_firmware js) ps))"
    by (simp add: ok(4))
  moreover have "\<forall>x \<in> set (re_boards r). fst x = bm_id (bo_metadata (snd x)) \<and> valid_board (bo_metadata (snd x))"
    using ok(3) by blast
  moreover have "\<forall>f \<in> set (re_firmware r). \<forall>g \<in> set (re_firmware r).
         map_of (re_boards r) (fi_board f) \<noteq> None
         \<and> (fi_board f = fi_board g \<and> fi_variant f = fi_variant g \<longrightarrow> f = g)
         \<and> (fi_selector f = firmware_selector (fi_board g) (fi_variant g) \<longrightarrow>
              fi_board f = fi_board g \<and> fi_variant f = fi_variant g)"
    using pairs by blast
  ultimately show ?thesis
    using ok(1, 2, 5, 7) by - (intro conjI; assumption)
qed

theorem registry_faithful_witness:
  "from_packages sample_json sample_workspace = Inr sample_tool_registry
   \<and> re_host_exclusions sample_tool_registry
       = sorted_list_of_set {pk_name p |p. p \<in> set sample_workspace \<and> host_excluded sample_json p}"
  using registry_faithful [OF sample_workspace_registry] sample_workspace_registry by blast





text \<open>
  Old-style subcommands: a command line is rewritten exactly when its first argument is
  \<open>run-NAME\<close>, or \<open>build-NAME\<close> other than \<open>build-all\<close>, into the subcommand followed by the
  name and the other arguments; and a rewritten command line is not rewritten again.
\<close>

lemma legacy_arguments:
  assumes "utf8_valid c"
  shows "normalize_legacy_args (program # (lit ''run-'' @ c) # rest)
      = (program # lit ''run'' # c # rest, Some (lit ''run-'' @ c))
    \<and> normalize_legacy_args (program # (lit ''build-'' @ c) # rest)
      = (if c = lit ''all'' then (program # (lit ''build-'' @ c) # rest, None)
         else (program # lit ''build'' # c # rest, Some (lit ''build-'' @ c)))
    \<and> (snd (normalize_legacy_args (program # a # rest)) = None \<longleftrightarrow>
         \<not> utf8_valid a \<or> a = lit ''build-all'' \<or> take 6 a \<noteq> lit ''build-'' \<and> take 4 a \<noteq> lit ''run-'')
    \<and> normalize_legacy_args (fst (normalize_legacy_args args)) = (fst (normalize_legacy_args args), None)"
proof (intro conjI)
  have "utf8_valid (lit ''run-'')" "utf8_valid (lit ''build-'')"
    by (rule utf8_valid_ascii, simp)+
  then have valid: "utf8_valid (lit ''run-'' @ c)" "utf8_valid (lit ''build-'' @ c)"
    using assms by (auto intro: utf8_valid_append simp del: lit_Cons)
  show "normalize_legacy_args (program # (lit ''run-'' @ c) # rest)
      = (program # lit ''run'' # c # rest, Some (lit ''run-'' @ c))"
    using valid(1) by (simp add: normalize_legacy_args_def from_utf8_def legacy_replacement_cases)
  show "normalize_legacy_args (program # (lit ''build-'' @ c) # rest)
      = (if c = lit ''all'' then (program # (lit ''build-'' @ c) # rest, None)
         else (program # lit ''build'' # c # rest, Some (lit ''build-'' @ c)))"
    using valid(2) by (simp add: normalize_legacy_args_def from_utf8_def legacy_replacement_cases)
  show "snd (normalize_legacy_args (program # a # rest)) = None \<longleftrightarrow>
         \<not> utf8_valid a \<or> a = lit ''build-all'' \<or> take 6 a \<noteq> lit ''build-'' \<and> take 4 a \<noteq> lit ''run-''"
    by (auto simp: normalize_legacy_args_def from_utf8_def legacy_replacement_cases)
  have "legacy_replacement (lit ''build'') = None" "legacy_replacement (lit ''run'') = None"
    by (simp_all add: legacy_replacement_cases)
  then show "normalize_legacy_args (fst (normalize_legacy_args args)) = (fst (normalize_legacy_args args), None)"
    by (auto simp: normalize_legacy_args_def from_utf8_def legacy_replacement_cases split: list.splits)
qed

text \<open>
  The host tests run exactly one command, which excludes every package that is not to be
  checked on the host, each once and in ascending order; the full check runs formatting,
  lints and these tests in that order, stops at the first failure, and succeeds exactly when
  all three do.
\<close>

lemma host_checks:
  assumes "from_packages js ps = Inr r"
    and "exclusions = concat (map (\<lambda>p. [lit ''--exclude'', p])
           (sorted_list_of_set {pk_name p |p. p \<in> set ps \<and> host_excluded js p}))"
    and "cmd = (\<lambda>args. \<lparr>cm_program = cargo_executable CARGO, cm_args = args, cm_env = []\<rparr>)"
    and "cs = [cmd [lit ''fmt'', lit ''--all'', lit ''--check''],
           cmd ([lit ''clippy'', lit ''--workspace''] @ exclusions
                @ [lit ''--all-targets'', lit ''--'', lit ''-D'', lit ''warnings'']),
           cmd ([lit ''test'', lit ''--workspace''] @ exclusions)]"
  shows "snd (host_tests world CARGO r past) = past @ [cs ! 2]
    \<and> (\<exists>n \<in> {1, 2, 3}. snd (check_task world CARGO r past) = past @ take n cs)
    \<and> (is_ok (fst (check_task world CARGO r past)) \<longleftrightarrow>
         (\<forall>k < 3. world (past @ take k cs) (cs ! k) = ExitSuccess))"
proof -
  have e: "concat (map (\<lambda>p. [lit ''--exclude'', p]) (re_host_exclusions r)) = exclusions"
    using from_packages_ok(7) [OF assms(1)] assms(2) by simp
  have three: "(\<forall>k < (3::nat). P k) \<longleftrightarrow> P 0 \<and> P 1 \<and> P 2" for P
    by (auto simp: numeral_3_eq_3 numeral_2_eq_2 less_Suc_eq)
  show ?thesis
    by (auto simp: host_tests_def check_task_def add_exclusions_args e cargo_def run_command_def Let_def
        command_with_env_def assms(3, 4) three is_ok_def simp del: lit_Cons split: process_end.splits)
qed

text \<open>
  A passed check of the environment: every selected board's target is among the lines of
  the installed targets, and the version of every selected board's runner was asked for, once
  per runner, and answered.
\<close>

lemma doctor_sound:
  assumes "doctor world rustup r None past = (Inr (), past')"
  shows "\<exists>installed ran. rustup = CaptureSuccess installed \<and> utf8_valid installed
    \<and> (\<forall>b \<in> snd ` set (re_boards r). bm_target (bo_metadata b) \<in> set (str_lines installed))
    \<and> past' = past @ rustup_command # map (\<lambda>t. \<lparr>cm_program = t, cm_args = [lit ''--version''], cm_env = []\<rparr>) ran
    \<and> distinct ran \<and> set ran = (\<lambda>b. hd (bm_runner (bo_metadata b))) ` snd ` set (re_boards r)"
proof -
  obtain installed where inst: "captured_output (lit ''rustup'') rustup = Inr installed"
    and loop: "doctor_loop world installed (map snd (re_boards r)) [] [] (past @ [rustup_command]) = (Inr (), past')"
    using assms by (auto simp: doctor_def split: if_splits sum.splits)
  have "rustup = CaptureSuccess installed" "utf8_valid installed"
    using inst by (auto simp: captured_output_def ok_or_def from_utf8_def split: captured.splits option.splits if_splits)
  with doctor_loop_ok [OF loop] show ?thesis
    by auto
qed

end
