(* ===== verification/Xtask_Main.thy ===== *)
theory Xtask_Main
  imports Xtask
begin

text \<open>
  \<open>main\<close> of \<open>tools/xtask\<close>: from the arguments of the process to its exit code, with the
  discovery of the registry and the listings. The argument parser and \<open>cargo metadata\<close> are
  arguments, as are the processes the tool starts.
\<close>

section \<open>Definitions\<close>

text \<open>\<open>Registry::discover\<close>: what \<open>cargo metadata\<close> gives is the second argument.\<close>

definition discover ::
  "('j, 'e) json_ops \<Rightarrow> ('j package list, 'e) result \<Rightarrow> (registry, 'e tool_error) result" where
  "discover js metadata =
     (case map_err MetadataFailed metadata of Inl e \<Rightarrow> Err e | Inr packages \<Rightarrow> from_packages js packages)"

text \<open>Padding to a width in characters, as \<open>{:<n}\<close> does.\<close>

definition pad_chars :: "nat \<Rightarrow> str \<Rightarrow> str" where
  "pad_chars width s = s @ replicate (width - length (unwrap_or [] (chars s))) 0x20"

text \<open>The lines of \<open>list\<close>.\<close>

definition list_boards :: "registry \<Rightarrow> str list" where
  "list_boards r =
     (if re_boards r = [] then [lit ''No boards are registered.'']
      else lit ''Boards:''
        # map (\<lambda>b. lit ''  '' @ pad_chars 24 (bm_id (bo_metadata b)) @ lit '' ''
                @ pad_chars 32 (bm_target (bo_metadata b)) @ lit '' '' @ bo_package b) (map snd (re_boards r))
        @ [[], lit ''Firmware:'']
        @ map (\<lambda>f. lit ''  '' @ pad_chars 32 (fi_selector f) @ lit '' '' @ pad_chars 20 (fi_variant f)
                @ lit '' '' @ fi_package f) (re_firmware r))"

text \<open>What the tasks that only print put out.\<close>

definition listing :: "registry \<Rightarrow> tool_task \<Rightarrow> str list" where
  "listing r t =
     (case t of
        TaskList \<Rightarrow> list_boards r
      | TaskTargets \<Rightarrow> (case (targets r :: (str list, unit tool_error) result) of Inl e \<Rightarrow> [] | Inr ls \<Rightarrow> ls)
      | _ \<Rightarrow> [])"

datatype 'e diagnostic = LegacyWarning str | ErrorMessage "'e tool_error"

datatype exit_code = ExitCodeSuccess | ExitCodeFailure | ExitFromParser nat

text \<open>
  \<open>main\<close>: the parser may end the process itself, with a code of its own. Otherwise the
  diagnostics, the commands that were run and the exit code.
\<close>

definition xtask_main ::
  "(str list \<Rightarrow> (tool_task, nat) result) \<Rightarrow> 'e world \<Rightarrow> str option \<Rightarrow> 'e captured
   \<Rightarrow> (registry, 'e tool_error) result \<Rightarrow> str list
   \<Rightarrow> 'e diagnostic list \<times> command list \<times> exit_code" where
  "xtask_main parse_from world CARGO rustup discovered args =
     (let (args', legacy_command) = normalize_legacy_args args
      in case parse_from args' of
           Inl code \<Rightarrow> ([], [], ExitFromParser code)
         | Inr t \<Rightarrow>
             (let warnings = (case legacy_command of Some command \<Rightarrow> [LegacyWarning command] | None \<Rightarrow> []);
                  (outcome, commands) = execute world CARGO rustup discovered t []
              in case outcome of
                   Inr _ \<Rightarrow> (warnings, commands, ExitCodeSuccess)
                 | Inl error \<Rightarrow> (warnings @ [ErrorMessage error], commands, ExitCodeFailure)))"

section \<open>Lemmas\<close>

text \<open>
  The exit code tells whether the task succeeded, and a failure is always reported: exactly one
  error message, after the warning if there is one.
\<close>

lemma exit_code_truthful:
  fixes world :: "'e world" and CARGO :: "str option" and rustup :: "'e captured"
    and discovered :: "(registry, 'e tool_error) result"
  assumes "parse_from (fst (normalize_legacy_args args)) = Inr t"
  defines "outcome \<equiv> execute world CARGO rustup discovered t []"
    and "run \<equiv> xtask_main parse_from world CARGO rustup discovered args"
  shows "fst (snd run) = snd outcome
    \<and> (snd (snd run) = ExitCodeSuccess \<longleftrightarrow> is_ok (fst outcome))
    \<and> (snd (snd run) = ExitCodeFailure \<longleftrightarrow> (\<exists>e. fst outcome = Inl e \<and> last (fst run) = ErrorMessage e \<and> fst run \<noteq> []))
    \<and> length (fst run) = (if snd (normalize_legacy_args args) = None then 0 else 1)
        + (if is_ok (fst outcome) then 0 else 1)"
  using assms(1)
  by (auto simp: run_def outcome_def xtask_main_def case_prod_beta Let_def is_ok_def split: option.splits sum.splits)

text \<open>A registry that cannot be discovered fails every task before a command is run.\<close>

lemma discovery_failure:
  assumes "parse_from (fst (normalize_legacy_args args)) = Inr t" and "discovered = Inl e"
  shows "\<exists>warnings. xtask_main parse_from world CARGO rustup discovered args =
    (warnings @ [ErrorMessage e], [], ExitCodeFailure)"
  using assms by (auto simp: xtask_main_def case_prod_beta Let_def split: option.splits)

text \<open>
  An old-style command line does exactly what its new form does and warns once: whatever the
  parser, the commands that are run and the exit code are those of \<open>build NAME\<close> or \<open>run NAME\<close>.
\<close>

lemma legacy_equivalent:
  fixes world :: "'e world" and CARGO :: "str option" and rustup :: "'e captured"
    and discovered :: "(registry, 'e tool_error) result" and rest :: "str list" and program c :: str
    and parse_from :: "str list \<Rightarrow> (tool_task, nat) result"
  assumes "utf8_valid c" and "c \<noteq> lit ''all''"
  defines "old_build \<equiv> xtask_main parse_from world CARGO rustup discovered (program # (lit ''build-'' @ c) # rest)"
    and "new_build \<equiv> xtask_main parse_from world CARGO rustup discovered (program # lit ''build'' # c # rest)"
    and "old_run \<equiv> xtask_main parse_from world CARGO rustup discovered (program # (lit ''run-'' @ c) # rest)"
    and "new_run \<equiv> xtask_main parse_from world CARGO rustup discovered (program # lit ''run'' # c # rest)"
  shows "snd old_build = snd new_build" "snd old_run = snd new_run"
    "fst old_build = (if is_ok (parse_from (program # lit ''build'' # c # rest))
      then LegacyWarning (lit ''build-'' @ c) # fst new_build else [])"
    "fst old_run = (if is_ok (parse_from (program # lit ''run'' # c # rest))
      then LegacyWarning (lit ''run-'' @ c) # fst new_run else [])"
proof -
  have old: "normalize_legacy_args (program # (lit ''run-'' @ c) # rest)
      = (program # lit ''run'' # c # rest, Some (lit ''run-'' @ c))"
    "normalize_legacy_args (program # (lit ''build-'' @ c) # rest)
      = (program # lit ''build'' # c # rest, Some (lit ''build-'' @ c))"
    using legacy_arguments [OF assms(1)] assms(2) by (simp_all del: lit_Cons)
  have "utf8_valid (lit ''build'')" "utf8_valid (lit ''run'')"
    by (rule utf8_valid_ascii, simp)+
  then have new: "normalize_legacy_args (program # lit ''build'' # c # rest) = (program # lit ''build'' # c # rest, None)"
    "normalize_legacy_args (program # lit ''run'' # c # rest) = (program # lit ''run'' # c # rest, None)"
    by (simp_all add: normalize_legacy_args_def legacy_replacement_cases)
  note defs = old_build_def new_build_def old_run_def new_run_def xtask_main_def old new case_prod_beta Let_def
  show "snd old_build = snd new_build" "snd old_run = snd new_run"
    "fst old_build = (if is_ok (parse_from (program # lit ''build'' # c # rest))
      then LegacyWarning (lit ''build-'' @ c) # fst new_build else [])"
    "fst old_run = (if is_ok (parse_from (program # lit ''run'' # c # rest))
      then LegacyWarning (lit ''run-'' @ c) # fst new_run else [])"
    by (simp_all add: defs is_ok_def del: lit_Cons split: sum.splits)
qed

end
