(* ===== verification/Unit_Tests.thy ===== *)
theory Unit_Tests
  imports Hardware Lifecycle Wifi Bluetooth Networking Mqtt_Client Xtask Storage "HOL-Library.Monad_Syntax"
begin

text \<open>
  The repository's own tests, translated: the test modules of \<open>crates/core\<close>, \<open>config\<close>,
  \<open>wifi\<close>, \<open>bluetooth\<close>, \<open>networking\<close>, \<open>networking-embassy-net\<close>, \<open>mqtt\<close>,
  \<open>mqtt-minimq\<close>, of the board and of the tool, and the host tests of \<open>tests/host\<close>. A
  test is its sequence of calls in the option monad: \<^const>\<open>None\<close> is a panic of an \<open>unwrap\<close>,
  and the value is the conjunction of the test's assertions. That the tests pass on the model
  is shown by evaluation; the tests of the MQTT client pass over every backend that answers
  as the test's packets say. The tests of the store are in \<open>Storage_Tests\<close>.
\<close>

section \<open>Definitions\<close>

text \<open>\<open>Ipv4Addr::new\<close>, and \<open>Ipv4Addr\<close> from its dotted decimal text.\<close>

definition ipv4_addr_new :: "u8 \<Rightarrow> u8 \<Rightarrow> u8 \<Rightarrow> u8 \<Rightarrow> ipv4_addr" where
  "ipv4_addr_new a b c d =
     push_bit 24 (ucast a) OR push_bit 16 (ucast b) OR push_bit 8 (ucast c) OR ucast d"

definition ipv4_octet :: "str \<Rightarrow> u8 option" where
  "ipv4_octet s =
     (if s = [] \<or> length s > 3 \<or> length s > 1 \<and> hd s = 0x30 then None
      else case parse_digits 0 s of
             None \<Rightarrow> None
           | Some n \<Rightarrow> if n \<le> 255 then Some (of_nat n) else None)"

definition ipv4_addr_parse :: "str \<Rightarrow> ipv4_addr option" where
  "ipv4_addr_parse s =
     (case map ipv4_octet (split_on 0x2E s) of
        [Some a, Some b, Some c, Some d] \<Rightarrow> Some (ipv4_addr_new a b c d)
      | _ \<Rightarrow> None)"

definition LOCALHOST :: ipv4_addr where
  "LOCALHOST = ipv4_addr_new 127 0 0 1"

subsection \<open>Core, board and configuration\<close>

definition capability_sets_are_additive :: "bool option" where
  "capability_sets_are_additive =
     (let radio = caps_union cap_WIFI cap_BLE
      in Some (contains radio cap_WIFI \<and> contains radio cap_BLE \<and> \<not> contains radio cap_THREAD))"

definition board_exposes_esp32c6_radios :: "bool option" where
  "board_exposes_esp32c6_radios =
     Some (contains (hw_capabilities HARDWARE) cap_WIFI \<and> contains (hw_capabilities HARDWARE) cap_BLE
       \<and> contains (hw_capabilities HARDWARE) cap_IEEE_802_15_4)"

definition board_pin_contract_matches_xiao :: "bool option" where
  "board_pin_contract_matches_xiao =
     Some (gpio USER_LED_GPIO = 15 \<and> (gpio I2C_SDA_GPIO, gpio I2C_SCL_GPIO) = (22, 23))"

definition board_bluetooth_name_fits_legacy_gap_data :: "bool option" where
  "board_bluetooth_name_fits_legacy_gap_data = Some (length BLUETOOTH_DEVICE_NAME \<le> MAX_DEVICE_NAME_LEN)"

definition compatibility_requires_same_major_version :: "bool option" where
  "compatibility_requires_same_major_version =
     (let reader = SchemaVersion 2 3
      in Some (is_compatible_with reader (SchemaVersion 2 1)
           \<and> \<not> is_compatible_with reader (SchemaVersion 1 9)
           \<and> \<not> is_compatible_with reader (SchemaVersion 2 4)))"

subsection \<open>Wi-Fi\<close>

definition validates_station_identity_and_secret_lengths :: "bool option" where
  "validates_station_identity_and_secret_lengths = do {
     ssid \<leftarrow> unwrap (ssid_try_from (lit ''factory-network''));
     passphrase \<leftarrow> unwrap (passphrase_new (lit ''commission-me''));
     station \<leftarrow> unwrap (station_personal ssid passphrase Wpa2Wpa3Personal);
     empty_ssid \<leftarrow> unwrap (ssid_try_from (lit []));
     error \<leftarrow> unwrap_err (station_open empty_ssid);
     Some (ssid_as_str (sc_ssid station) = Some (lit ''factory-network'')
       \<and> map_option passphrase_length (sc_passphrase station) = Some 13
       \<and> passphrase_new (lit ''short'') = Err InvalidPassphrase
       \<and> error = EmptySsid)
   }"

text \<open>Whether a text contains another.\<close>

definition str_contains :: "str \<Rightarrow> str \<Rightarrow> bool" where
  "str_contains s part \<longleftrightarrow> (\<exists>i \<in> set [0..<Suc (length s)]. take (length part) (drop i s) = part)"

definition secrets_are_redacted_from_debug_output :: "bool option" where
  "secrets_are_redacted_from_debug_output = do {
     passphrase \<leftarrow> unwrap (passphrase_new (lit ''do-not-log-this''));
     let rendered = passphrase_debug passphrase;
     Some (rendered = lit ''Passphrase(**REDACTED**)'' \<and> \<not> str_contains rendered (lit ''do-not-log-this''))
   }"

definition summarizes_scan_without_network_identity :: "bool option" where
  "summarizes_scan_without_network_identity = do {
     one \<leftarrow> unwrap (ssid_try_from (lit ''one''));
     two \<leftarrow> unwrap (ssid_try_from (lit ''two''));
     let access_points =
       [\<lparr>ap_ssid = one, ap_bssid = replicate 6 0, ap_channel = 1, ap_signal_strength_dbm = -72,
         ap_security = SecWpa2Personal\<rparr>,
        \<lparr>ap_ssid = two, ap_bssid = replicate 6 1, ap_channel = 6, ap_signal_strength_dbm = -48,
         ap_security = SecWpa3Personal\<rparr>];
     Some (from_access_points access_points =
       \<lparr>ss_access_points = 2, ss_strongest_signal_dbm = Some (-48)\<rparr>)
   }"

definition reconnect_backoff_is_exponential_bounded_and_resettable :: "bool option" where
  "reconnect_backoff_is_exponential_bounded_and_resettable = do {
     policy \<leftarrow> unwrap (reconnect_policy_new 1000 5000 500);
     let backoff = reconnect_backoff_new policy;
     let (d1, backoff) = next_delay_ms 250 backoff;
     let (d2, backoff) = next_delay_ms 0 backoff;
     let (d3, backoff) = next_delay_ms 500 backoff;
     let (d4, backoff) = next_delay_ms 500 backoff;
     let attempts = rb_attempts backoff;
     let backoff = backoff_reset backoff;
     Some (d1 = 1250 \<and> d2 = 2000 \<and> d3 = 4500 \<and> d4 = 5000 \<and> attempts = 4
       \<and> rb_attempts backoff = 0 \<and> fst (next_delay_ms 0 backoff) = 1000)
   }"

definition reconnect_policy_rejects_invalid_bounds :: "bool option" where
  "reconnect_policy_rejects_invalid_bounds =
     Some (reconnect_policy_new 0 1000 0 = Err InvalidReconnectPolicy
       \<and> reconnect_policy_new 2000 1000 0 = Err InvalidReconnectPolicy
       \<and> reconnect_policy_new 1000 1000 1000 = Err InvalidReconnectPolicy)"

subsection \<open>Bluetooth\<close>

definition device_name_is_bounded :: "bool option" where
  "device_name_is_bounded = do {
     name \<leftarrow> unwrap (device_name_new (lit ''XIAO ESP32C6 SDK''));
     Some (device_name_new (lit []) = Err EmptyDeviceName
       \<and> device_name_new (lit ''12345678901234567890123'') = Err DeviceNameTooLong
       \<and> device_name_as_str name = lit ''XIAO ESP32C6 SDK''
       \<and> device_name_length name \<le> MAX_DEVICE_NAME_LEN)
   }"

definition static_random_address_sets_type_bits_and_hci_order :: "bool option" where
  "static_random_address_sets_type_bits_and_hci_order =
     (let address = from_seed [0x10, 0x20, 0x30, 0x40, 0x50, 0x60]
      in Some (sra_bytes address = [0xd0, 0x20, 0x30, 0x40, 0x50, 0x60]
           \<and> to_hci_bytes address = [0x60, 0x50, 0x40, 0x30, 0x20, 0xd0]))"

definition degenerate_static_random_addresses_are_avoided :: "bool option" where
  "degenerate_static_random_addresses_are_avoided =
     (let zeroes = from_seed (replicate 6 0); ones = from_seed (replicate 6 0xff)
      in Some (sra_bytes zeroes = [0xc0, 0, 0, 0, 0, 1]
           \<and> sra_bytes ones = [0xff, 0xff, 0xff, 0xff, 0xff, 0xfe]))"

definition beacon_uuid_parses_and_formats_canonical_text :: "bool option" where
  "beacon_uuid_parses_and_formats_canonical_text = do {
     uuid \<leftarrow> unwrap (beacon_uuid_parse (lit ''7A1E1000-4C2A-4F66-A1D4-3F55B55A1000''));
     Some (uuid_bytes uuid =
         [0x7a, 0x1e, 0x10, 0x00, 0x4c, 0x2a, 0x4f, 0x66, 0xa1, 0xd4, 0x3f, 0x55, 0xb5, 0x5a, 0x10, 0x00]
       \<and> beacon_uuid_display uuid = lit ''7a1e1000-4c2a-4f66-a1d4-3f55b55a1000''
       \<and> beacon_uuid_parse (lit ''7a1e10004c2a4f66a1d43f55b55a1000'') = Err InvalidBeaconUuid)
   }"

definition ibeacon_payload_uses_network_byte_order :: "bool option" where
  "ibeacon_payload_uses_network_byte_order =
     (let uuid = BeaconUuid [0, 1, 2, 3, 4, 5, 6, 7, 8, 9, 10, 11, 12, 13, 14, 15];
          payload = manufacturer_payload (ibeacon_new uuid 0x1234 0xabcd (-59))
      in Some (take 2 payload = [0x02, 0x15]
           \<and> take 16 (drop 2 payload) = uuid_bytes uuid
           \<and> take 4 (drop 18 payload) = [0x12, 0x34, 0xab, 0xcd]
           \<and> payload ! 22 = 0xc5))"

definition advertising_interval_enforces_legacy_bounds :: "bool option" where
  "advertising_interval_enforces_legacy_bounds = do {
     shortest \<leftarrow> unwrap (from_millis 20);
     longest \<leftarrow> unwrap (from_millis 10240);
     Some (as_millis shortest = 20 \<and> as_millis longest = 10240
       \<and> from_millis 19 = Err AdvertisingIntervalOutOfRange
       \<and> from_millis 10241 = Err AdvertisingIntervalOutOfRange)
   }"

subsection \<open>Networking\<close>

definition dns_servers_are_bounded :: "bool option" where
  "dns_servers_are_bounded = do {
     let addresses = [ipv4_addr_new 1 1 1 1, ipv4_addr_new 8 8 8 8, ipv4_addr_new 9 9 9 9];
     servers \<leftarrow> unwrap (dns_servers_new addresses);
     Some (dns_as_slice servers = addresses \<and> dns_len servers = 3
       \<and> dns_servers_new (replicate 4 LOCALHOST) = Err TooManyDnsServers)
   }"

definition ipv4_prefix_length_is_validated :: "bool option" where
  "ipv4_prefix_length_is_validated =
     Some (is_ok (ipv4_configuration_new (ipv4_addr_new 192 0 2 10) 24 None dns_servers_default)
       \<and> ipv4_configuration_new LOCALHOST 33 None dns_servers_default = Err InvalidIpv4PrefixLength)"

definition readiness_keeps_link_ip_and_dns_separate :: "bool option" where
  "readiness_keeps_link_ip_and_dns_separate = do {
     no_dns \<leftarrow> unwrap (ipv4_configuration_new (ipv4_addr_new 192 0 2 10) 24
       (Some (ipv4_addr_new 192 0 2 1)) dns_servers_default);
     servers \<leftarrow> unwrap (dns_servers_new [ipv4_addr_new 192 0 2 53]);
     with_dns \<leftarrow> unwrap (ipv4_configuration_new (ic_address no_dns) (ic_prefix_len no_dns)
       (ic_gateway no_dns) servers);
     let link_only = network_snapshot_new Up None;
     let stale_configuration = network_snapshot_new Down (Some with_dns);
     let ip_only = network_snapshot_new Up (Some no_dns);
     let ready = network_snapshot_new Up (Some with_dns);
     Some (\<not> is_ip_ready link_only
       \<and> \<not> is_ip_ready stale_configuration \<and> \<not> is_dns_ready stale_configuration
       \<and> is_ip_ready ip_only \<and> \<not> is_dns_ready ip_only
       \<and> is_ip_ready ready \<and> is_dns_ready ready)
   }"

definition maps_link_configuration_and_dns_independently :: "bool option" where
  "maps_link_configuration_and_dns_independently = do {
     link_only \<leftarrow> unwrap (snapshot_from_parts True None);
     let configuration = \<lparr>sc4_address = ipv4_addr_new 192 0 2 10, sc4_prefix_len = 24,
       sc4_gateway = Some (ipv4_addr_new 192 0 2 1), sc4_dns_servers = [ipv4_addr_new 192 0 2 53]\<rparr>;
     configured \<leftarrow> unwrap (snapshot_from_parts True (Some configuration));
     ipv4 \<leftarrow> ns_ipv4 configured;
     stale \<leftarrow> unwrap (snapshot_from_parts False (Some configuration));
     Some (\<not> is_ip_ready link_only
       \<and> is_ip_ready configured \<and> is_dns_ready configured
       \<and> ic_address ipv4 = ipv4_addr_new 192 0 2 10
       \<and> \<not> is_ip_ready stale \<and> \<not> is_dns_ready stale)
   }"

definition dns_copy_is_complete_or_an_error :: "bool option" where
  "dns_copy_is_complete_or_an_error =
     (let addresses = [Ipv4 (ipv4_addr_new 192 0 2 1), Ipv4 (ipv4_addr_new 192 0 2 2)];
          (result_one, one) = copy_ipv4_addresses addresses [UNSPECIFIED];
          (result_two, two) = copy_ipv4_addresses addresses (replicate 2 UNSPECIFIED)
      in Some (result_one = Err (OutputTooSmall 2) \<and> one = [UNSPECIFIED]
           \<and> result_two = Ok 2 \<and> two = [ipv4_addr_new 192 0 2 1, ipv4_addr_new 192 0 2 2]))"

definition empty_dns_result_is_a_failure :: "bool option" where
  "empty_dns_result_is_a_failure =
     Some (fst (copy_ipv4_addresses [] [UNSPECIFIED]) = Err ResolveFailed)"

subsection \<open>MQTT\<close>

definition validates_topics_and_filters :: "bool option" where
  "validates_topics_and_filters =
     Some (is_ok (topic_name_new (lit ''devices/a/telemetry''))
       \<and> topic_name_new (lit ''devices/+/telemetry'') = Err MqInvalidTopicName
       \<and> is_ok (topic_filter_new (lit ''devices/+/commands/#''))
       \<and> topic_filter_new (lit ''devices/a#'') = Err MqInvalidTopicFilter
       \<and> topic_filter_new (lit ''devices/#/bad'') = Err MqInvalidTopicFilter)"

definition validates_host_and_bounded_values :: "bool option" where
  "validates_host_and_bounded_values =
     Some (is_ok (broker_hostname_new (lit ''broker.example.test''))
       \<and> broker_hostname_new (lit ''-broker.test'') = Err MqInvalidHostname
       \<and> client_id_new (lit []) = Err MqEmpty
       \<and> broker_port_new 0 = Err MqInvalidPort)"

definition reconnect_delay_is_exponential_bounded_and_resettable :: "bool option" where
  "reconnect_delay_is_exponential_bounded_and_resettable = do {
     policy \<leftarrow> unwrap (mqtt_policy_new 100 450 25);
     let backoff = policy_backoff policy;
     let (d1, backoff) = mqtt_next_delay_ms 7 backoff;
     let (d2, backoff) = mqtt_next_delay_ms 100 backoff;
     let (d3, backoff) = mqtt_next_delay_ms 0 backoff;
     let (d4, backoff) = mqtt_next_delay_ms 25 backoff;
     let (d5, backoff) = mqtt_next_delay_ms 0 (mqtt_backoff_reset backoff);
     Some (d1 = 107 \<and> d2 = 222 \<and> d3 = 400 \<and> d4 = 450 \<and> d5 = 100)
   }"

definition lifecycle_counters_saturate_and_clear_success_error :: "bool option" where
  "lifecycle_counters_saturate_and_clear_success_error =
     (let snapshot = record_receive (record_publish (record_connected
            (record_failure Transport snapshot_default)))
      in Some (sn_state snapshot = MqConnected \<and> sn_last_error snapshot = None
           \<and> (sn_failures snapshot, sn_connections snapshot, sn_publishes snapshot, sn_received snapshot)
               = (1, 1, 1, 1)))"

subsection \<open>The MQTT client\<close>

text \<open>
  The transport of the client's tests: a read hands out one byte at a time and waits for ever
  when there is none (\<^const>\<open>None\<close>), a write takes at most two.
\<close>

record fragmented_io =
  io_rx :: "u8 list"
  io_tx :: "u8 list"

definition fragmented_io_new :: "u8 list \<Rightarrow> fragmented_io" where
  "fragmented_io_new rx = \<lparr>io_rx = rx, io_tx = []\<rparr>"

definition io_read :: "fragmented_io \<Rightarrow> u8 list \<Rightarrow> (nat \<times> u8 list \<times> fragmented_io) option" where
  "io_read io buffer =
     (if buffer = [] then Some (0, buffer, io)
      else case io_rx io of
             byte # rest \<Rightarrow> Some (1, buffer[0 := byte], io\<lparr>io_rx := rest\<rparr>)
           | [] \<Rightarrow> None)"

definition io_write :: "fragmented_io \<Rightarrow> u8 list \<Rightarrow> nat \<times> fragmented_io" where
  "io_write io buffer =
     (let len = min (length buffer) 2 in (len, io\<lparr>io_tx := io_tx io @ take len buffer\<rparr>))"

definition test_config :: "u32 \<Rightarrow> mqtt_config option" where
  "test_config maximum_packet_size = do {
     hostname \<leftarrow> unwrap (broker_hostname_new (lit ''broker.example.test''));
     port \<leftarrow> unwrap (broker_port_new 1883);
     client_id \<leftarrow> unwrap (client_id_new (lit ''adapter-test''));
     unwrap (mqtt_config_new hostname port client_id 30 60 maximum_packet_size)
   }"

definition rejects_credentials_on_plaintext_fixture :: "('b, 's, 'ce) minimq_builder \<Rightarrow> bool option" where
  "rejects_credentials_on_plaintext_fixture mb = do {
     credentials \<leftarrow> unwrap (credentials_new (lit ''user'') (lit ''secret'') :: (credentials, 'ce adapter_config_error) result);
     config \<leftarrow> test_config 64;
     let result = client_new mb config (replicate 64 0) (replicate 128 0) PlaintextFixture (Some credentials);
     Some ((case result of Inl CredentialsRequireEncryption \<Rightarrow> True | _ \<Rightarrow> False)
       \<and> credentials_debug credentials = lit ''Credentials(**REDACTED**)'')
   }"

definition rejects_an_rx_buffer_below_the_advertised_limit :: "('b, 's, 'ce) minimq_builder \<Rightarrow> bool option" where
  "rejects_an_rx_buffer_below_the_advertised_limit mb = do {
     config \<leftarrow> test_config 64;
     let result = client_new mb config (replicate 63 0) (replicate 128 0) PlaintextFixture None;
     Some (case result of Inl (RxBufferTooSmall req avail) \<Rightarrow> req = 64 \<and> avail = 63 | _ \<Rightarrow> False)
   }"

definition connects_publishes_and_receives_over_fragmented_io ::
  "('b, 's, 'ce) minimq_builder \<Rightarrow> ('s, fragmented_io, 'p, 'r, 'e) minimq_ops \<Rightarrow> bool option" where
  "connects_publishes_and_receives_over_fragmented_io mb mm = do {
     let io = fragmented_io_new [0x20, 0x03, 0x00, 0x00, 0x00, 0x30, 0x05, 0, 1, 0x61, 0, 0x78];
     config \<leftarrow> test_config 64;
     client \<leftarrow> unwrap (client_new mb config (replicate 64 0) (replicate 256 0) PlaintextFixture None);
     let (connected, client1) = client_connect mm io client;
     _ \<leftarrow> unwrap connected;
     topic \<leftarrow> unwrap (topic_name_new (lit ''out''));
     let (published, client2) = client_publish mm topic (lit ''value'') AtLeastOnce client1;
     _ \<leftarrow> unwrap published;
     let (received, client3) = client_receive mm client2;
     inbound \<leftarrow> unwrap received;
     Some (\<not> resumed mm client1 \<and> sn_state (cl_snapshot client1) = MqConnected
       \<and> in_topic inbound = lit ''a'' \<and> in_payload inbound = lit ''x'' \<and> in_qos inbound = AtMostOnce)
   }"

definition normalizes_broker_rejection_and_retains_diagnostic_state ::
  "('b, 's, 'ce) minimq_builder \<Rightarrow> ('s, fragmented_io, 'p, 'r, 'e) minimq_ops \<Rightarrow> bool option" where
  "normalizes_broker_rejection_and_retains_diagnostic_state mb mm = do {
     let io = fragmented_io_new [0x20, 0x03, 0x00, 0x87, 0x00];
     config \<leftarrow> test_config 64;
     client \<leftarrow> unwrap (client_new mb config (replicate 64 0) (replicate 128 0) PlaintextFixture None);
     let (connected, client1) = client_connect mm io client;
     error \<leftarrow> unwrap_err connected;
     Some (client_error_kind error = Protocol \<and> sn_state (cl_snapshot client1) = BackingOff
       \<and> sn_failures (cl_snapshot client1) = 1)
   }"

definition reports_broker_session_resumption_across_transports ::
  "('b, 's, 'ce) minimq_builder \<Rightarrow> ('s, fragmented_io, 'p, 'r, 'e) minimq_ops \<Rightarrow> bool option" where
  "reports_broker_session_resumption_across_transports mb mm = do {
     config \<leftarrow> test_config 64;
     client \<leftarrow> unwrap (client_new mb config (replicate 64 0) (replicate 128 0) PlaintextFixture None);
     let (connected1, client1) =
       client_connect mm (fragmented_io_new [0x20, 0x03, 0x00, 0x00, 0x00]) client;
     _ \<leftarrow> unwrap connected1;
     let (connected2, client2) =
       client_connect mm (fragmented_io_new [0x20, 0x03, 0x01, 0x00, 0x00]) client1;
     _ \<leftarrow> unwrap connected2;
     Some (\<not> resumed mm client1 \<and> resumed mm client2 \<and> sn_resumptions (cl_snapshot client2) = 1)
   }"

subsection \<open>The tool\<close>

definition default_firmware_uses_the_board_as_its_selector :: "bool option" where
  "default_firmware_uses_the_board_as_its_selector =
     Some (firmware_selector (lit ''xiao-esp32c6'') (lit ''default'') = lit ''xiao-esp32c6''
       \<and> firmware_selector (lit ''xiao-esp32c6'') (lit ''beacon'') = lit ''xiao-esp32c6/beacon'')"

definition legacy_firmware_commands_are_translated_generically :: "bool option" where
  "legacy_firmware_commands_are_translated_generically =
     (let (args, legacy) = normalize_legacy_args [lit ''xtask'', lit ''build-xiao-esp32c6-beacon'']
      in Some (args = [lit ''xtask'', lit ''build'', lit ''xiao-esp32c6-beacon'']
           \<and> legacy = Some (lit ''build-xiao-esp32c6-beacon'')))"

definition build_all_is_not_treated_as_a_legacy_firmware_command :: "bool option" where
  "build_all_is_not_treated_as_a_legacy_firmware_command =
     (let (args, legacy) = normalize_legacy_args [lit ''xtask'', lit ''build-all'']
      in Some (args = [lit ''xtask'', lit ''build-all''] \<and> legacy = None))"

definition cargo_runner_environment_variable_is_derived_from_target :: "bool option" where
  "cargo_runner_environment_variable_is_derived_from_target =
     Some (cargo_runner_variable (lit ''riscv32imac-unknown-none-elf'')
       = lit ''CARGO_TARGET_RISCV32IMAC_UNKNOWN_NONE_ELF_RUNNER'')"

subsection \<open>The host tests\<close>

definition xiao_esp32c6_descriptor_is_available_without_cross_compiling :: "bool option" where
  "xiao_esp32c6_descriptor_is_available_without_cross_compiling =
     Some (hw_board HARDWARE = lit ''xiao-esp32c6'' \<and> hw_chip HARDWARE = lit ''esp32c6''
       \<and> contains (hw_capabilities HARDWARE) cap_WIFI \<and> contains (hw_capabilities HARDWARE) cap_BLE)"

definition persistent_schema_policy_is_backwards_compatible_within_major_version :: "bool option" where
  "persistent_schema_policy_is_backwards_compatible_within_major_version =
     (let current = SchemaVersion 1 2
      in Some (is_compatible_with current (SchemaVersion 1 0)
           \<and> \<not> is_compatible_with current (SchemaVersion 2 0)))"

definition facade_exposes_portable_wifi_configuration :: "bool option" where
  "facade_exposes_portable_wifi_configuration = do {
     ssid \<leftarrow> unwrap (ssid_try_from (lit ''test-network''));
     passphrase \<leftarrow> unwrap (passphrase_new (lit ''test-password''));
     station \<leftarrow> unwrap (station_personal ssid passphrase Wpa2Wpa3Personal);
     Some (ssid_as_str (sc_ssid station) = Some (lit ''test-network''))
   }"

definition facade_exposes_portable_bluetooth_configuration :: "bool option" where
  "facade_exposes_portable_bluetooth_configuration = do {
     name \<leftarrow> unwrap (device_name_new (lit ''test-device''));
     let address = from_seed [1, 2, 3, 4, 5, 6];
     Some (device_name_as_str name = lit ''test-device'' \<and> (sra_bytes address ! 0) AND 0xc0 = 0xc0)
   }"

definition facade_exposes_portable_ibeacon_configuration :: "bool option" where
  "facade_exposes_portable_ibeacon_configuration = do {
     uuid \<leftarrow> unwrap (beacon_uuid_parse (lit ''7a1e1000-4c2a-4f66-a1d4-3f55b55a1000''));
     let beacon = ibeacon_new uuid 1 2 (-59);
     Some (as_millis advertising_interval_default = 250 \<and> ib_uuid beacon = uuid
       \<and> take 4 (drop 18 (manufacturer_payload beacon)) = [0, 1, 0, 2])
   }"

definition facade_exposes_stable_namespaced_storage_keys :: "bool option" where
  "facade_exposes_stable_namespaced_storage_keys =
     (let key = key_new 0x0100 0x0002
      in Some (to_raw key = 0x01000002 \<and> from_raw (to_raw key) = key))"

definition facade_exposes_portable_network_readiness :: "bool option" where
  "facade_exposes_portable_network_readiness = do {
     address \<leftarrow> ipv4_addr_parse (lit ''192.0.2.10'');
     gateway \<leftarrow> ipv4_addr_parse (lit ''192.0.2.1'');
     server \<leftarrow> ipv4_addr_parse (lit ''192.0.2.53'');
     servers \<leftarrow> unwrap (dns_servers_new [server]);
     configuration \<leftarrow> unwrap (ipv4_configuration_new address 24 (Some gateway) servers);
     let snapshot = network_snapshot_new Up (Some configuration);
     Some (is_ip_ready snapshot \<and> is_dns_ready snapshot)
   }"

definition facade_exposes_bounded_mqtt_configuration :: "bool option" where
  "facade_exposes_bounded_mqtt_configuration = do {
     hostname \<leftarrow> unwrap (broker_hostname_new (lit ''broker.example.test''));
     port \<leftarrow> unwrap (broker_port_new 8883);
     client_id \<leftarrow> unwrap (client_id_new (lit ''host-test-client''));
     config \<leftarrow> unwrap (mqtt_config_new hostname port client_id 30 300 1024);
     Some (port_get (mc_port config) = 8883
       \<and> is_ok (topic_name_new (lit ''devices/test/telemetry''))
       \<and> is_ok (topic_filter_new (lit ''devices/+/commands''))
       \<and> \<not> is_ok (topic_name_new (lit ''devices/+/commands'')))
   }"

section \<open>Lemmas\<close>

lemma core_tests:
  "capability_sets_are_additive = Some True" "board_exposes_esp32c6_radios = Some True"
  "board_pin_contract_matches_xiao = Some True"
  "board_bluetooth_name_fits_legacy_gap_data = Some True"
  "compatibility_requires_same_major_version = Some True"
  by code_simp+

lemma wifi_tests:
  "validates_station_identity_and_secret_lengths = Some True"
  "secrets_are_redacted_from_debug_output = Some True"
  "reconnect_policy_rejects_invalid_bounds = Some True"
  by code_simp+

lemma wifi_summary_test: "summarizes_scan_without_network_identity = Some True"
proof -
  have "is_ok (ssid_try_from (lit ''one''))" "is_ok (ssid_try_from (lit ''two''))"
    by code_simp+
  then show ?thesis
    by (auto simp: summarizes_scan_without_network_identity_def unwrap_def is_ok_iff from_access_points_def
        signed_max_def simp del: lit_Cons)
qed

lemma wifi_backoff_test: "reconnect_backoff_is_exponential_bounded_and_resettable = Some True"
proof -
  let ?p = "\<lparr>initial_delay_ms = 1000, maximum_delay_ms = 5000, maximum_jitter_ms = 500\<rparr> :: reconnect_policy"
  let ?b = "\<lambda>base n. \<lparr>rb_policy = ?p, next_base_delay_ms = base, rb_attempts = n\<rparr> :: reconnect_backoff"
  have "reconnect_policy_new 1000 5000 500 = Inr ?p" "reconnect_backoff_new ?p = ?b 1000 0"
    "next_delay_ms 250 (?b 1000 0) = (1250, ?b 2000 1)" "next_delay_ms 0 (?b 2000 1) = (2000, ?b 4000 2)"
    "next_delay_ms 500 (?b 4000 2) = (4500, ?b 4500 3)" "next_delay_ms 500 (?b 4500 3) = (5000, ?b 4500 4)"
    "backoff_reset (?b 4500 4) = ?b 1000 0" "fst (next_delay_ms 0 (?b 1000 0)) = 1000"
    by code_simp+
  then show ?thesis
    by (simp add: reconnect_backoff_is_exponential_bounded_and_resettable_def unwrap_def)
qed

lemma bluetooth_tests:
  "device_name_is_bounded = Some True"
  "static_random_address_sets_type_bits_and_hci_order = Some True"
  "degenerate_static_random_addresses_are_avoided = Some True"
  "beacon_uuid_parses_and_formats_canonical_text = Some True"
  "ibeacon_payload_uses_network_byte_order = Some True"
  "advertising_interval_enforces_legacy_bounds = Some True"
  by code_simp+

lemma networking_tests:
  "dns_servers_are_bounded = Some True" "ipv4_prefix_length_is_validated = Some True"
  "readiness_keeps_link_ip_and_dns_separate = Some True"
  "maps_link_configuration_and_dns_independently = Some True"
  "dns_copy_is_complete_or_an_error = Some True" "empty_dns_result_is_a_failure = Some True"
  by code_simp+

lemma mqtt_tests:
  "validates_topics_and_filters = Some True" "validates_host_and_bounded_values = Some True"
  "reconnect_delay_is_exponential_bounded_and_resettable = Some True"
  "lifecycle_counters_saturate_and_clear_success_error = Some True"
  by code_simp+

lemma tool_tests:
  "default_firmware_uses_the_board_as_its_selector = Some True"
  "legacy_firmware_commands_are_translated_generically = Some True"
  "build_all_is_not_treated_as_a_legacy_firmware_command = Some True"
  "cargo_runner_environment_variable_is_derived_from_target = Some True"
  by code_simp+

lemma host_tests_pass:
  "xiao_esp32c6_descriptor_is_available_without_cross_compiling = Some True"
  "persistent_schema_policy_is_backwards_compatible_within_major_version = Some True"
  "facade_exposes_portable_wifi_configuration = Some True"
  "facade_exposes_portable_bluetooth_configuration = Some True"
  "facade_exposes_portable_ibeacon_configuration = Some True"
  "facade_exposes_stable_namespaced_storage_keys = Some True"
  "facade_exposes_portable_network_readiness = Some True"
  "facade_exposes_bounded_mqtt_configuration = Some True"
  by code_simp+

subsection \<open>The client's tests over any backend\<close>

lemma test_config_64: "\<exists>c. test_config 64 = Some c \<and> mc_maximum_packet_size c = 64"
proof -
  have "map_option mc_maximum_packet_size (test_config 64) = Some 64"
    by code_simp
  then show ?thesis
    by auto
qed

lemma client_new_tests:
  "rejects_credentials_on_plaintext_fixture mb = Some True"
  "rejects_an_rx_buffer_below_the_advertised_limit mb = Some True"
proof -
  obtain c where c: "test_config 64 = Some c" "mc_maximum_packet_size c = 64"
    using test_config_64 by blast
  have "lit ''user'' \<noteq> []" "0 \<notin> set (lit ''user'')"
    by code_simp+
  then show "rejects_credentials_on_plaintext_fixture mb = Some True"
    by (simp add: rejects_credentials_on_plaintext_fixture_def c client_new_def credentials_new_def
        credentials_debug_def del: lit_Cons)
  show "rejects_an_rx_buffer_below_the_advertised_limit mb = Some True"
    by (simp add: rejects_an_rx_buffer_below_the_advertised_limit_def c client_new_def)
qed

lemma client_new_fixture:
  assumes "\<And>cid b. is_ok (mb_client_id mb cid b)" and "mc_maximum_packet_size c = 64" and "64 \<le> length rx" and "tx \<noteq> []"
  shows "\<exists>s. client_new mb c rx tx PlaintextFixture None = Inr \<lparr>cl_session = s, cl_snapshot = snapshot_default\<rparr>"
proof -
  obtain b where "mb_client_id mb (text_as_str (mc_client_id c)) (mb_buffers mb rx tx) = Inr b"
    using assms(1) by (auto simp: is_ok_iff)
  with assms(2-) show ?thesis
    by (auto simp: client_new_def Let_def)
qed

text \<open>
  A connection test passes over every backend that accepts the client id and answers the
  packets of the test: an accepted connection without a session, a publication, a message on
  the topic \<open>a\<close>; a refusal of the peer; a second connection that resumes the session.
\<close>

lemma client_connection_test:
  assumes "\<And>cid b. is_ok (mb_client_id mb cid b)"
    and "\<And>s. \<exists>s1 s2 s3 retained.
      mq_connect mm (fragmented_io_new [0x20, 0x03, 0x00, 0x00, 0x00, 0x30, 0x05, 0, 1, 0x61, 0, 0x78]) s = (Inr (), s1)
      \<and> mq_connect_event mm s1 = EvConnected
      \<and> mq_publish mm (lit ''out'') (lit ''value'') MmAtLeastOnce s1 = (Inr (), s2)
      \<and> mq_recv mm s2 = (Inr \<lparr>mm_topic = lit ''a'', mm_payload = lit ''x'', mm_qos = MmAtMostOnce, mm_retained = retained\<rparr>, s3)"
  shows "connects_publishes_and_receives_over_fragmented_io mb mm = Some True"
proof -
  obtain c where c: "test_config 64 = Some c" "mc_maximum_packet_size c = 64"
    using test_config_64 by blast
  obtain s where s: "client_new mb c (replicate 64 0) (replicate 256 0) PlaintextFixture None
      = Inr \<lparr>cl_session = s, cl_snapshot = snapshot_default\<rparr>"
    using client_new_fixture [OF assms(1) c(2), of "replicate 64 0" "replicate 256 0"] by auto
  obtain t where t: "topic_name_new (lit ''out'') = Inr t" "text_as_str t = lit ''out''"
  proof -
    have "map_option text_as_str (unwrap (topic_name_new (lit ''out''))) = Some (lit ''out'')"
      by code_simp
    then show ?thesis
      using that by (cases "topic_name_new (lit ''out'')") auto
  qed
  from assms(2) [of s] c s t show ?thesis
    by (auto simp: connects_publishes_and_receives_over_fragmented_io_def client_connect_def
        client_publish_def client_receive_def deliver_def from_minimq_publish_def resumed_def
        record_connected_def Let_def simp del: lit_Cons)
qed

lemma client_rejection_test:
  assumes "\<And>cid b. is_ok (mb_client_id mb cid b)"
    and "\<And>s. \<exists>e s1. mq_connect mm (fragmented_io_new [0x20, 0x03, 0x00, 0x87, 0x00]) s = (Inl (MmPeer e), s1)"
  shows "normalizes_broker_rejection_and_retains_diagnostic_state mb mm = Some True"
proof -
  obtain c where c: "test_config 64 = Some c" "mc_maximum_packet_size c = 64"
    using test_config_64 by blast
  obtain s where s: "client_new mb c (replicate 64 0) (replicate 128 0) PlaintextFixture None
      = Inr \<lparr>cl_session = s, cl_snapshot = snapshot_default\<rparr>"
    using client_new_fixture [OF assms(1) c(2), of "replicate 64 0" "replicate 128 0"] by auto
  from assms(2) [of s] c s show ?thesis
    by (auto simp: normalizes_broker_rejection_and_retains_diagnostic_state_def client_connect_def
        record_failure_def transition_def snapshot_default_def saturating_add_def Let_def)
qed

lemma client_resumption_test:
  assumes "\<And>cid b. is_ok (mb_client_id mb cid b)"
    and "\<And>s. \<exists>s1 s2. mq_connect mm (fragmented_io_new [0x20, 0x03, 0x00, 0x00, 0x00]) s = (Inr (), s1)
      \<and> mq_connect_event mm s1 = EvConnected
      \<and> mq_connect mm (fragmented_io_new [0x20, 0x03, 0x01, 0x00, 0x00]) s1 = (Inr (), s2)
      \<and> mq_connect_event mm s2 = EvReconnected"
  shows "reports_broker_session_resumption_across_transports mb mm = Some True"
proof -
  obtain c where c: "test_config 64 = Some c" "mc_maximum_packet_size c = 64"
    using test_config_64 by blast
  obtain s where s: "client_new mb c (replicate 64 0) (replicate 128 0) PlaintextFixture None
      = Inr \<lparr>cl_session = s, cl_snapshot = snapshot_default\<rparr>"
    using client_new_fixture [OF assms(1) c(2), of "replicate 64 0" "replicate 128 0"] by auto
  from assms(2) [of s] c s show ?thesis
    by (auto simp: reports_broker_session_resumption_across_transports_def client_connect_def resumed_def
        record_connected_def record_resumed_def transition_def snapshot_default_def saturating_add_def Let_def)
qed

text \<open>
  Fragmentation loses nothing: reading a transport byte by byte gives what it was filled with,
  in order, and repeating writes until nothing is left sends everything, in order.
\<close>

fun io_read_all :: "nat \<Rightarrow> fragmented_io \<Rightarrow> (u8 list \<times> fragmented_io) option" where
  "io_read_all 0 io = Some ([], io)"
| "io_read_all (Suc n) io = do {
     (_, buffer, io) \<leftarrow> io_read io [0];
     (bytes, io) \<leftarrow> io_read_all n io;
     Some (buffer @ bytes, io)
   }"

function io_write_all :: "fragmented_io \<Rightarrow> u8 list \<Rightarrow> fragmented_io" where
  "io_write_all io bytes =
     (if bytes = [] then io
      else let (n, io') = io_write io bytes in io_write_all io' (drop n bytes))"
  by auto
termination
  by (relation "measure (\<lambda>(_, bytes). length bytes)") (auto simp: io_write_def Let_def)

declare io_write_all.simps [simp del]

lemma io_read_all: "n \<le> length (io_rx io) \<Longrightarrow> io_read_all n io = Some (take n (io_rx io), io\<lparr>io_rx := drop n (io_rx io)\<rparr>)"
proof (induction n arbitrary: io)
  case (Suc n)
  then obtain byte rest where "io_rx io = byte # rest"
    by (cases "io_rx io") auto
  with Suc show ?case
    by (simp add: io_read_def)
qed simp

lemma io_write_all: "io_tx (io_write_all io bytes) = io_tx io @ bytes"
proof (induction io bytes rule: io_write_all.induct)
  case (1 io bytes)
  show ?case
  proof (cases "bytes = []")
    case False
    then show ?thesis
      using 1 [OF False] by (subst io_write_all.simps) (simp add: io_write_def Let_def)
  qed (simp add: io_write_all.simps)
qed

section \<open>Properties\<close>


end
