(* ===== verification/Spec2Isabelle.thy ===== *)
theory Spec2Isabelle
  imports Hardware Lifecycle Wifi Bluetooth Networking Storage Storage_Flash Storage_Tests Mqtt Mqtt_Client
    Esp_Wifi Beacon Scanner Scanner_Task Detection Firmware Firmware_Mqtt Firmware_Network Firmware_Bluetooth
    Firmware_Boot Firmware_Console Firmware_Log Xtask Xtask_Main Unit_Tests
begin

text \<open>
  A verification of \<open>embedded-sdk-rs\<close>: a Rust SDK for small wireless devices, its ports and
  boards, three firmware images for the Seeed XIAO ESP32C6, and the tool that builds them.

  \<^bold>\<open>The program and its model.\<close> The crates under \<open>crates/\<close> hold bounded, validated values and
  small state machines; the adapters and ports connect them to third-party stacks; the
  firmware images compose them into tasks.

    \<^item> \<open>Prelude\<close>, \<open>Rust_Str\<close>: what the source uses of Rust itself: fixed-width integers
      with saturating and checked operations, results, byte strings, UTF-8 decoding,
      splitting, number parsing and printing; the locales \<open>bounded_backoff\<close> and
      \<open>paced_backoff\<close>, the contracts of the two reconnect policies, and \<open>bounded_store\<close>, the
      contract of every bounded value.
    \<^item> \<open>Hardware\<close>: \<open>crates/core\<close>, \<open>ports/espressif/esp32c6/src/lib.rs\<close> and
      \<open>boards/seeed/xiao-esp32c6\<close>: capability sets, the descriptor, the pins.
    \<^item> \<open>Lifecycle\<close>: \<open>crates/config\<close>, \<open>crates/runtime\<close>, \<open>crates/telemetry\<close>.
    \<^item> \<open>Wifi\<close>: \<open>crates/wifi\<close>: SSIDs, passphrases, station configurations, scan summaries and
      the reconnect back-off. \<open>Esp_Wifi\<close>: \<open>ports/espressif/esp32c6/src/wifi.rs\<close>, the driver's
      state machine over the radio's answers.
    \<^item> \<open>Bluetooth\<close>: \<open>crates/bluetooth\<close> and \<open>ports/espressif/esp32c6/src/bluetooth.rs\<close>: names,
      UUIDs, iBeacon frames, static random addresses.
    \<^item> \<open>Networking\<close>: \<open>crates/networking\<close> and \<open>crates/networking-embassy-net\<close>: snapshots of
      link, address and DNS, name resolution, the wait for IPv4.
    \<^item> \<open>Storage\<close>: \<open>crates/storage\<close>: keys, the record encoding, the flash adapter and the
      key-value store over the \<open>sequential-storage\<close> engine. \<open>Storage_Flash\<close>: the store's life
      through power failures and restarts, its access to the flash, and \<open>RamFlash\<close>, the flash
      in memory with a power failure after any byte that the crate's tests run on, against
      the contract of NOR flash (locale \<open>nor_flash\<close>). \<open>Storage_Tests\<close>: the crate's tests.
    \<^item> \<open>Mqtt\<close>: \<open>crates/mqtt\<close>: host names, client ids, topics, configuration, the lifecycle
      snapshot, the reconnect back-off. \<open>Mqtt_Client\<close>: \<open>crates/mqtt-minimq\<close>, the client over
      the \<open>minimq\<close> session.
    \<^item> \<open>Beacon\<close>: the firmware image \<open>xiao-esp32c6-beacon\<close>: its settings, packets, advertising
      loop and task. \<open>Scanner\<close>: the registry and the reports of the image
      \<open>xiao-esp32c6-beacon-scanner\<close>; \<open>Scanner_Task\<close>: its two loops with their timers, its
      start-up and the text it prints. \<open>Detection\<close>: both images together, from the settings
      of a beacon to the report of a scanner.
    \<^item> \<open>Firmware\<close>, \<open>Firmware_Mqtt\<close>, \<open>Firmware_Network\<close>, \<open>Firmware_Bluetooth\<close>,
      \<open>Firmware_Boot\<close>, \<open>Firmware_Console\<close> and \<open>Firmware_Log\<close>: the firmware image \<open>xiao-esp32c6\<close>: its
      compile-time configuration and the Wi-Fi supervisor; the MQTT task with its telemetry
      producer; the network monitor with its probe; the Bluetooth task with its GATT sessions;
      the start-up (with that of the beacon image); the lines that the start-up, the supervisor
      and the monitor print, and those of the heartbeat, the MQTT and the Bluetooth task.
    \<^item> \<open>Xtask\<close>: \<open>tools/xtask\<close>: the registry of boards and firmware and the commands of each
      task; \<open>Xtask_Main\<close>: the process, from its arguments to its exit code.
    \<^item> \<open>Unit_Tests\<close>: the unit tests of the other crates, boards and tools and the host tests
      of \<open>tests/host\<close>, each a definition over the model: \<open>Some True\<close> when every assertion holds,
      \<open>None\<close> when it panics.

  \<^bold>\<open>State, effects and errors.\<close> A struct is a record, an enum a datatype, an integer a word of
  its width; a method that changes its receiver returns it updated; an error is the left side
  of a sum. An asynchronous function is a function of the answers it awaits. The firmware's
  MQTT service, which two tasks share, is the step relation \<open>system_step\<close>: a step runs one
  task from one wait to the next, so \<open>system_run\<close> ranges over all interleavings at the
  points where the cooperative executor can switch. The scanner's event handler and report
  are the step relation \<open>scanner_step\<close>, and its running image the step function
  \<open>scanner_task_step\<close> over timed events, whose runs are shown to take only those steps. Two
  joined loops that share nothing but the console are the interleavings of their logs
  (\<open>shuffles\<close>).

  \<^bold>\<open>Code that is not part of the repository\<close> is a parameter: the storage engine
  (\<open>map_engine_ops\<close>, whose laws are the locale \<open>map_engine\<close>, with an engine in memory as the
  interpretation that shows they can hold), the MQTT backend (\<open>minimq_ops\<close>,
  \<open>minimq_builder\<close>), the advertisement encoder and decoder (\<open>ad_encoder\<close>, \<open>ad_codec\<close>), the
  sorting routine of the core library (\<open>sorts_strongest_first\<close>), the radio's and the
  resolver's answers, JSON decoding (\<open>json_ops\<close>) and the processes the tool starts
  (\<open>world\<close>). Nothing is assumed of the MQTT backend, of the radio or of the processes.

  \<^bold>\<open>What is shown.\<close> Storage: the store refines a map from keys to byte lists over any engine that
  keeps its contract, and returns what was last written; through any sequence of operations,
  power failures and restarts every value it returns is one that was written complete, and
  what an operation confirmed is not lost. The test flash keeps the contract of NOR flash
  up to the byte at which its power fails. The repository's tests pass on the model.
  Reconnection: the exact sequence of delays of both policies, their bounds, and that the
  default MQTT policy stops backing off after 29 consecutive failures, because the shift
  drops the bits of the delay. Values: each validator accepts exactly its documented language
  and stores what it accepts unchanged; the UUID, key, record, frame and credential encodings
  round-trip. MQTT: the snapshot never reports a connection that was not established,
  failures are recorded by category, credentials are never used without encryption; under
  every interleaving the telemetry queue neither reorders nor duplicates, and refused
  messages are counted. Scanner: the table refines a map from addresses to statistics with
  eviction of the oldest entry and, with room for all, the table of the devices' histories;
  averages and ages are exact, reports are sorted and bounded, every advertisement is counted
  in exactly one report, scans keep their pace, and advertised data cannot break the log.
  Together: a scanner that hears a beacon of this repository reports it under its name.
  Start-up: the build's credentials reach the radio unchanged, tasks start in a fixed order,
  each at most once, and only on what they need. Console: what the start-up, the supervisor
  and the monitor print does not depend on names of networks, addresses, credentials or the
  queried host (non-interference); the running MQTT task prints states, error categories and
  counts only, and announces every delay it waits. Tool: the registry is exactly what the
  packages declare, and every task runs exactly the commands it should, in order, up to the
  first failure.

  \<^bold>\<open>Loops.\<close> Loops over data are recursive functions that terminate by the length of what is
  left. A loop without end (a task) is a function of the list of events it has seen, or a step
  relation; no fuel is used.

  \<^bold>\<open>Not modelled.\<close> The vendor's runtime and allocator, which the start-up calls once; the
  Bluetooth host and the GATT server that a macro of that stack generates, beyond what they
  answer; the network runner task, which only polls a third-party runner; the text
  of the tool's error messages; the parsing of the command line; the
  \<open>Debug\<close> text of names and SSIDs, which is the escaping of the core library's string
  formatter; the time that passes in waits other than the timers of the scanner and the
  computed delays; the executor of the tests (\<open>block_on\<close>), which polls a future to its end; the
  facade crate, which only re-exports the others.
\<close>

text \<open>
  C29. Every bounded value of the SDK and its images is well-typed: for each of the ten
  constructors a text that is accepted fits the capacity, is stored with its length, reads
  back unchanged and is accepted again as the same value; and a text that exceeds the capacity
  is never accepted.
\<close>

theorem bounded_values_typed:
  assumes "utf8_valid v"
  shows "typed_value 22 device_name_new device_name_as_str device_name_length v
    \<and> typed_value 32 ssid_new ssid_as_bytes ssid_length v
    \<and> typed_value 64 passphrase_new passphrase_as_str passphrase_length v
    \<and> typed_value 253 broker_hostname_new text_as_str text_len v
    \<and> typed_value 64 client_id_new text_as_str text_len v
    \<and> typed_value 256 topic_name_new text_as_str text_len v
    \<and> typed_value 256 topic_filter_new text_as_str text_len v
    \<and> typed_value 29 (\<lambda>v. ok_or () (beacon_name_from_str v)) beacon_name_as_str (\<lambda>n. unat (bn_length n)) v
    \<and> typed_value 29 (\<lambda>v. ok_or () (local_name_from_bytes v)) local_name_as_str (\<lambda>n. unat (ln_len n)) v
    \<and> typed_value 3 dns_servers_new dns_as_slice dns_len servers"
  using device_name_store.value_typed [OF assms] ssid_store.value_typed [of v] passphrase_store.value_typed [OF assms]
    hostname_store.value_typed [OF assms] client_id_store.value_typed [OF assms]
    topic_name_store.value_typed [OF assms] topic_filter_store.value_typed [OF assms]
    beacon_name_store.value_typed [OF assms] local_name_store.value_typed [of v] dns_store.value_typed [of servers]
  by (simp add: MAX_DEVICE_NAME_LEN_def MAX_SSID_LEN_def MAX_PASSPHRASE_LEN_def MAX_HOSTNAME_LEN_def
      MAX_CLIENT_ID_LEN_def MAX_TOPIC_LEN_def MAX_BEACON_NAME_LENGTH_def LOCAL_NAME_CAPACITY_def MAX_DNS_SERVERS_def)

theorem bounded_values_typed_witness:
  "\<exists>n. device_name_new (lit ''a'') = Inr n \<and> device_name_as_str n = lit ''a'' \<and> device_name_length n = 1"
proof -
  obtain n where n: "device_name_new (lit ''a'') = Inr n"
    by (simp add: device_name_new_def MAX_DEVICE_NAME_LEN_def)
  have "utf8_valid (lit ''a'')"
    by (rule utf8_valid_ascii) simp
  from bounded_values_typed [OF this, of "[]"] n show ?thesis
    by (simp add: typed_value_def)
qed

end
